theory Spec2Isabelle
  imports Complex_Main
begin

section \<open>Go's \<open>int\<close>: 64-bit two's complement\<close>

text \<open>
  The program computes on Go's \<open>int\<close>, 64 bits wide on the usual targets. A value is an
  \<open>int\<close> of HOL in the range \<open>[-2^63, 2^63)\<close>, and every arithmetic operation of the
  source is written with its wrap-around. Division truncates towards zero; the
  run-time panic on a zero divisor is raised by the caller of \<open>int_quo\<close> and
  \<open>int_rem\<close> (see \<open>PanicDivision\<close>).
\<close>

definition wrap64 :: "int \<Rightarrow> int" where
  "wrap64 n = (n + 2 ^ 63) mod 2 ^ 64 - 2 ^ 63"

definition is_int64 :: "int \<Rightarrow> bool" where
  "is_int64 n = (- (2 ^ 63) \<le> n \<and> n < 2 ^ 63)"

definition int_add :: "int \<Rightarrow> int \<Rightarrow> int" where
  "int_add a b = wrap64 (a + b)"

definition int_sub :: "int \<Rightarrow> int \<Rightarrow> int" where
  "int_sub a b = wrap64 (a - b)"

definition int_mul :: "int \<Rightarrow> int \<Rightarrow> int" where
  "int_mul a b = wrap64 (a * b)"

definition trunc_quo :: "int \<Rightarrow> int \<Rightarrow> int" where
  "trunc_quo a b = sgn a * sgn b * (\<bar>a\<bar> div \<bar>b\<bar>)"

definition int_quo :: "int \<Rightarrow> int \<Rightarrow> int" where
  "int_quo a b = wrap64 (trunc_quo a b)"

definition int_rem :: "int \<Rightarrow> int \<Rightarrow> int" where
  "int_rem a b = a - b * trunc_quo a b"

section \<open>Errors and panics\<close>

datatype error =
    ErrNumerosInsuficientes int int
  | ErrCantidad
  | ErrBoletasPorFila
  | ErrMargenes
  | ErrImagenBase
  | ErrCarpetaSalida
  | ErrGuardando int
  | PanicIntn
  | PanicDivision
  | PanicNewRGBA
  | PanicMakeslice

text \<open>
  The first four are the errors of \<open>validarConfig\<close>: the configuration errors.
\<close>

fun es_error_de_config :: "error \<Rightarrow> bool" where
  "es_error_de_config (ErrNumerosInsuficientes n t) = True"
| "es_error_de_config ErrCantidad = True"
| "es_error_de_config ErrBoletasPorFila = True"
| "es_error_de_config ErrMargenes = True"
| "es_error_de_config e = False"

section \<open>Images\<close>

text \<open>
  \<open>color.RGBA\<close>, \<open>image.Point\<close>, \<open>image.Rectangle\<close> and \<open>image.RGBA\<close> of Go's
  standard library. The pixel buffer of an \<open>image.RGBA\<close> is read here as a function
  from coordinates to colours; \<open>Set\<close> writes a pixel only when the point lies in
  the image's rectangle, as the library's method does.
\<close>

datatype color = RGBA (R: nat) (G: nat) (B: nat) (A: nat)

record Point =
  X :: int
  Y :: int

record Rectangle =
  RMin :: Point
  RMax :: Point

record Imagen =
  Rect :: Rectangle
  Pix :: "int \<times> int \<Rightarrow> color"

definition Pt :: "int \<Rightarrow> int \<Rightarrow> Point" where
  "Pt x y = \<lparr>X = x, Y = y\<rparr>"

text \<open>\<open>image.Rect\<close> swaps the coordinates so that the rectangle is well-formed.\<close>

definition image_Rect :: "int \<Rightarrow> int \<Rightarrow> int \<Rightarrow> int \<Rightarrow> Rectangle" where
  "image_Rect x0 y0 x1 y1 =
     \<lparr>RMin = Pt (if x0 > x1 then x1 else x0) (if y0 > y1 then y1 else y0),
      RMax = Pt (if x0 > x1 then x0 else x1) (if y0 > y1 then y0 else y1)\<rparr>"

definition Dx :: "Rectangle \<Rightarrow> int" where
  "Dx r = int_sub (X (RMax r)) (X (RMin r))"

definition Dy :: "Rectangle \<Rightarrow> int" where
  "Dy r = int_sub (Y (RMax r)) (Y (RMin r))"

definition In_rect :: "int \<Rightarrow> int \<Rightarrow> Rectangle \<Rightarrow> bool" where
  "In_rect x y r =
     (X (RMin r) \<le> x \<and> x < X (RMax r) \<and> Y (RMin r) \<le> y \<and> y < Y (RMax r))"

definition Set_px :: "Imagen \<Rightarrow> int \<Rightarrow> int \<Rightarrow> color \<Rightarrow> Imagen" where
  "Set_px img x y c =
     (if \<not> In_rect x y (Rect img) then img
      else img\<lparr>Pix := (Pix img)((x, y) := c)\<rparr>)"

text \<open>\<open>At\<close> of an \<open>image.RGBA\<close>: the zero colour outside the rectangle.\<close>

definition At :: "Imagen \<Rightarrow> int \<Rightarrow> int \<Rightarrow> color" where
  "At img x y = (if In_rect x y (Rect img) then Pix img (x, y) else RGBA 0 0 0 0)"

section \<open>Fonts\<close>

text \<open>
  A \<open>font.Face\<close> is an external collaborator. The program uses three things of it:
  the rounded advance of the string \<open>"0"\<close>, the rounded line height, and the drawing of
  a string at a dot given in 26.6 fixed point.
\<close>

record Face =
  avance_cero :: int
  altura :: int
  DrawString :: "Imagen \<Rightarrow> color \<Rightarrow> int \<Rightarrow> int \<Rightarrow> string \<Rightarrow> Imagen"

section \<open>Configuration and generator\<close>

record Config =
  ImagenBase :: string
  BoletasPorFila :: int
  NumeroMinimo :: int
  NumeroMaximo :: int
  BoletasPorPagina :: int
  CantidadPaginas :: int
  CarpetaSalida :: string
  AnchoTalonario :: int
  AltoTalonario :: int
  MargenSuperior :: int
  MargenInferior :: int
  MargenIzquierdo :: int
  MargenDerecho :: int
  ColorTexto :: color
  ColorBorde :: color
  Fuente :: Face
  RutaFuente :: string
  AnchoLineas :: int
  OrientacionBoletas :: int

record Boleta =
  Numero :: int
  Formateado :: string

record Talonario =
  ID :: int
  Boletas :: "Boleta list"

text \<open>
  \<open>numerosUsados\<close> is a \<open>map[int]bool\<close>: reading a key that was never stored gives
  \<open>false\<close>, so the map is a total function to \<open>bool\<close>.
\<close>

record GeneradorTalonarios =
  config :: Config
  numerosUsados :: "int \<Rightarrow> bool"
  imagenBase :: "Imagen option"
  digitosFormato :: int

section \<open>Decimal text\<close>

fun digitos :: "nat \<Rightarrow> string" where
  "digitos n =
     (if n < 10 then [''0123456789'' ! n]
      else digitos (n div 10) @ [''0123456789'' ! (n mod 10)])"

declare digitos.simps [simp del]

text \<open>\<open>strconv.Itoa\<close>.\<close>

definition Itoa :: "int \<Rightarrow> string" where
  "Itoa n = (if n < 0 then CHR ''-'' # digitos (nat (- n)) else digitos (nat n))"

text \<open>
  \<open>fmt.Sprintf("%0<wid>d", v)\<close> for a width \<open>wid \<ge> 1\<close>: with the zero flag the
  width becomes the minimal number of digits, one less for a negative value, whose sign
  takes a place; the sign is written in front of the zeros; padding with blanks to the
  width comes last.
\<close>

definition Sprintf_0d :: "int \<Rightarrow> int \<Rightarrow> string" where
  "Sprintf_0d wid v =
     (let negative = v < 0;
          ds = digitos (nat \<bar>v\<bar>);
          prec = (if negative then wid - 1 else wid);
          cuerpo = (if negative then ''-'' else '''')
                   @ replicate (nat prec - length ds) CHR ''0'' @ ds
      in replicate (nat wid - length cuerpo) CHR '' '' @ cuerpo)"

text \<open>
  \<open>formatearNumero\<close> builds the format \<open>"%0<digitosFormato>d"\<close> with a first
  \<open>Sprintf\<close> and applies it with a second one.
\<close>

definition formatearNumero :: "GeneradorTalonarios \<Rightarrow> int \<Rightarrow> string" where
  "formatearNumero g numero = Sprintf_0d (digitosFormato g) numero"

section \<open>Validation and construction\<close>

definition validarConfig :: "GeneradorTalonarios \<Rightarrow> error option" where
  "validarConfig g =
     (let totalNumeros = int_add (int_sub (NumeroMaximo (config g)) (NumeroMinimo (config g))) 1;
          numerosNecesarios = int_mul (BoletasPorPagina (config g)) (CantidadPaginas (config g))
      in if numerosNecesarios > totalNumeros
           then Some (ErrNumerosInsuficientes numerosNecesarios totalNumeros)
         else if BoletasPorPagina (config g) \<le> 0 \<or> CantidadPaginas (config g) \<le> 0
           then Some ErrCantidad
         else if BoletasPorFila (config g) \<le> 0
           then Some ErrBoletasPorFila
         else if MargenSuperior (config g) < 0 \<or> MargenInferior (config g) < 0
                 \<or> MargenIzquierdo (config g) < 0 \<or> MargenDerecho (config g) < 0
           then Some ErrMargenes
         else None)"

text \<open>
  The collaborators of the program are parameters: what loading the font, decoding
  the base image, creating the output folder and writing a page give; the glyphs of
  the built-in face; the library's compositing \<open>draw.Draw(..., draw.Over)\<close>; and the
  random source, an infinite sequence of raw draws of which \<open>rand.Intn n\<close> takes the
  next one modulo \<open>n\<close>, so that every sequence of results in \<open>[0, n)\<close> is one of them.
\<close>

record Entorno =
  cargarFuente :: "string \<Rightarrow> Face option"
  decodificarImagen :: "string \<Rightarrow> Imagen option"
  MkdirAll :: "string \<Rightarrow> bool"
  escribirPNG :: "string \<Rightarrow> string \<Rightarrow> Imagen \<Rightarrow> bool"
  glifos7x13 :: "Imagen \<Rightarrow> color \<Rightarrow> int \<Rightarrow> int \<Rightarrow> string \<Rightarrow> Imagen"
  draw_Over :: "Imagen \<Rightarrow> Imagen \<Rightarrow> Imagen"
  azar :: "nat \<Rightarrow> int"

text \<open>\<open>basicfont.Face7x13\<close>: advance 7, height 13.\<close>

definition Face7x13 :: "Entorno \<Rightarrow> Face" where
  "Face7x13 env = \<lparr>avance_cero = 7, altura = 13, DrawString = glifos7x13 env\<rparr>"

definition ponerFuente :: "Face \<Rightarrow> GeneradorTalonarios \<Rightarrow> GeneradorTalonarios" where
  "ponerFuente f g = g\<lparr>config := (config g)\<lparr>Fuente := f\<rparr>\<rparr>"

text \<open>
  \<open>cargarFuentePersonalizada\<close> and \<open>cargarImagenBase\<close>: \<open>None\<close> is the error return.
\<close>

definition cargarFuentePersonalizada ::
  "Entorno \<Rightarrow> GeneradorTalonarios \<Rightarrow> GeneradorTalonarios option" where
  "cargarFuentePersonalizada env g =
     (case cargarFuente env (RutaFuente (config g)) of
        None \<Rightarrow> None
      | Some face \<Rightarrow> Some (ponerFuente face g))"

definition cargarImagenBase ::
  "Entorno \<Rightarrow> GeneradorTalonarios \<Rightarrow> GeneradorTalonarios option" where
  "cargarImagenBase env g =
     (case decodificarImagen env (ImagenBase (config g)) of
        None \<Rightarrow> None
      | Some im \<Rightarrow> Some (g\<lparr>imagenBase := Some im\<rparr>))"

definition elegirFuente :: "Entorno \<Rightarrow> GeneradorTalonarios \<Rightarrow> GeneradorTalonarios" where
  "elegirFuente env g =
     (if RutaFuente (config g) \<noteq> []
      then (case cargarFuentePersonalizada env g of
              None \<Rightarrow> ponerFuente (Face7x13 env) g
            | Some g' \<Rightarrow> g')
      else ponerFuente (Face7x13 env) g)"

definition elegirImagen ::
  "Entorno \<Rightarrow> GeneradorTalonarios \<Rightarrow> error + GeneradorTalonarios" where
  "elegirImagen env g =
     (if ImagenBase (config g) \<noteq> []
      then (case cargarImagenBase env g of
              None \<Rightarrow> Inl ErrImagenBase
            | Some g' \<Rightarrow> Inr g')
      else Inr g)"

definition crearCarpeta ::
  "Entorno \<Rightarrow> GeneradorTalonarios \<Rightarrow> error + GeneradorTalonarios" where
  "crearCarpeta env g =
     (if MkdirAll env (CarpetaSalida (config g)) then Inr g else Inl ErrCarpetaSalida)"

text \<open>The generator as the constructor first builds it, before the validation.\<close>

definition generador_inicial :: "Config \<Rightarrow> GeneradorTalonarios" where
  "generador_inicial cfg =
     \<lparr>config = cfg, numerosUsados = (\<lambda>n. False), imagenBase = None,
      digitosFormato = int (length (Itoa (NumeroMaximo cfg)))\<rparr>"

text \<open>
  The constructor: the generator with an empty set of used numbers and the digit
  count of the maximum, then the validation, the font, the base image and the output
  folder, in the order of the source.
\<close>

definition NewGeneradorTalonarios :: "Entorno \<Rightarrow> Config \<Rightarrow> error + GeneradorTalonarios" where
  "NewGeneradorTalonarios env cfg =
     (let gen = generador_inicial cfg
      in case validarConfig gen of
           Some err \<Rightarrow> Inl err
         | None \<Rightarrow>
             (case elegirImagen env (elegirFuente env gen) of
                Inl err \<Rightarrow> Inl err
              | Inr gen2 \<Rightarrow> crearCarpeta env gen2))"

section \<open>Allocation of numbers\<close>

text \<open>
  \<open>generarNumeroAleatorio\<close> loops until a draw is unused; \<open>None\<close> is the run in which it
  never returns. The generator and the position in the random sequence are returned
  updated. \<open>rand.Intn\<close> panics on an argument that is not positive.
\<close>

partial_function (option) generarNumeroAleatorio ::
  "Entorno \<Rightarrow> GeneradorTalonarios \<Rightarrow> nat
     \<Rightarrow> (error + int \<times> GeneradorTalonarios \<times> nat) option" where
  "generarNumeroAleatorio env g k =
     (let n = int_add (int_sub (NumeroMaximo (config g)) (NumeroMinimo (config g))) 1
      in if n \<le> 0 then Some (Inl PanicIntn)
         else let numero = int_add (azar env k mod n) (NumeroMinimo (config g))
              in if \<not> numerosUsados g numero
                 then Some (Inr (numero,
                                 g\<lparr>numerosUsados := (numerosUsados g)(numero := True)\<rparr>,
                                 Suc k))
                 else generarNumeroAleatorio env g (Suc k))"

text \<open>
  The number that the loop tries at position \<open>k\<close> of the random sequence:
  \<open>rand.Intn(NumeroMaximo - NumeroMinimo + 1) + NumeroMinimo\<close>.
\<close>

definition sorteo :: "Entorno \<Rightarrow> GeneradorTalonarios \<Rightarrow> nat \<Rightarrow> int" where
  "sorteo env g k =
     int_add (azar env k mod
                int_add (int_sub (NumeroMaximo (config g)) (NumeroMinimo (config g))) 1)
             (NumeroMinimo (config g))"

text \<open>
  \<open>crearTalonario\<close>: a slice of \<open>BoletasPorPagina\<close> zero tickets (\<open>make\<close> panics on a
  negative length; running out of memory is not modelled), filled index by index.
\<close>

definition Boleta_cero :: Boleta where
  "Boleta_cero = \<lparr>Numero = 0, Formateado = []\<rparr>"

fun llenarBoletas ::
  "Entorno \<Rightarrow> nat list \<Rightarrow> GeneradorTalonarios \<Rightarrow> nat \<Rightarrow> Boleta list
     \<Rightarrow> (error + Boleta list \<times> GeneradorTalonarios \<times> nat) option" where
  "llenarBoletas env [] g k bs = Some (Inr (bs, g, k))"
| "llenarBoletas env (i # rest) g k bs =
     (case generarNumeroAleatorio env g k of
        None \<Rightarrow> None
      | Some (Inl err) \<Rightarrow> Some (Inl err)
      | Some (Inr (numero, g', k')) \<Rightarrow>
          llenarBoletas env rest g' k'
            (bs[i := \<lparr>Numero = numero, Formateado = formatearNumero g' numero\<rparr>]))"

definition crearTalonario ::
  "Entorno \<Rightarrow> GeneradorTalonarios \<Rightarrow> nat \<Rightarrow> int
     \<Rightarrow> (error + Talonario \<times> GeneradorTalonarios \<times> nat) option" where
  "crearTalonario env g k ident =
     (if BoletasPorPagina (config g) < 0 then Some (Inl PanicMakeslice)
      else case llenarBoletas env [0..<nat (BoletasPorPagina (config g))] g k
                  (replicate (nat (BoletasPorPagina (config g))) Boleta_cero) of
             None \<Rightarrow> None
           | Some (Inl err) \<Rightarrow> Some (Inl err)
           | Some (Inr (bs, g', k')) \<Rightarrow> Some (Inr (\<lparr>ID = ident, Boletas = bs\<rparr>, g', k')))"

section \<open>Drawing\<close>

text \<open>
  \<open>image.NewRGBA\<close> panics when the rectangle has a negative side or when four bytes
  per pixel do not fit in an \<open>int\<close>; the new image is transparent black.
\<close>

definition NewRGBA :: "Rectangle \<Rightarrow> error + Imagen" where
  "NewRGBA r =
     (if Dx r < 0 \<or> Dy r < 0 \<or> 2 ^ 63 \<le> 4 * Dx r * Dy r then Inl PanicNewRGBA
      else Inr \<lparr>Rect = r, Pix = (\<lambda>p. RGBA 0 0 0 0)\<rparr>)"

text \<open>\<open>draw.Draw\<close> of a uniform colour over the bounds of the image, with \<open>draw.Src\<close>.\<close>

definition rellenar :: "Imagen \<Rightarrow> color \<Rightarrow> Imagen" where
  "rellenar img c =
     img\<lparr>Pix := (\<lambda>p. if In_rect (fst p) (snd p) (Rect img) then c else Pix img p)\<rparr>"

definition trazoLinea :: "Imagen \<Rightarrow> int \<Rightarrow> int \<Rightarrow> color \<Rightarrow> int list \<Rightarrow> Imagen" where
  "trazoLinea img px y col gruesos =
     foldl (\<lambda>im thick.
              if int_add y thick < Y (RMax (Rect im))
              then Set_px im px (int_add y thick) col else im)
           img gruesos"

definition dibujarLineaSuperior ::
  "GeneradorTalonarios \<Rightarrow> Imagen \<Rightarrow> int \<Rightarrow> int \<Rightarrow> color \<Rightarrow> Imagen" where
  "dibujarLineaSuperior g img x y col =
     foldl (\<lambda>im i.
              if X (RMax (Rect im)) \<le> int_add x i then im
              else trazoLinea im (int_add x i) y col [0..AnchoLineas (config g) - 1])
           img
           [0..int_sub (int_sub (AnchoTalonario (config g)) (MargenIzquierdo (config g)))
                       (MargenDerecho (config g)) - 1]"

definition trazoInferior :: "Imagen \<Rightarrow> int \<Rightarrow> int \<Rightarrow> int \<Rightarrow> color \<Rightarrow> int list \<Rightarrow> Imagen" where
  "trazoInferior img px y alto col gruesos =
     foldl (\<lambda>im thick.
              if int_sub (int_sub (int_add y alto) 1) thick < Y (RMax (Rect im))
              then Set_px im px (int_sub (int_sub (int_add y alto) 1) thick) col else im)
           img gruesos"

definition trazoIzquierdo :: "Imagen \<Rightarrow> int \<Rightarrow> int \<Rightarrow> color \<Rightarrow> int list \<Rightarrow> Imagen" where
  "trazoIzquierdo img x py col gruesos =
     foldl (\<lambda>im thick.
              if int_add x thick < X (RMax (Rect im))
              then Set_px im (int_add x thick) py col else im)
           img gruesos"

definition trazoDerecho :: "Imagen \<Rightarrow> int \<Rightarrow> int \<Rightarrow> int \<Rightarrow> color \<Rightarrow> int list \<Rightarrow> Imagen" where
  "trazoDerecho img x ancho py col gruesos =
     foldl (\<lambda>im thick.
              if int_sub (int_sub (int_add x ancho) 1) thick < X (RMax (Rect im))
              then Set_px im (int_sub (int_sub (int_add x ancho) 1) thick) py col else im)
           img gruesos"

text \<open>
  \<open>dibujarRectangulo\<close>: the first loop runs over the columns and strokes at the
  bottom of the cell; the second runs over the rows and strokes at the left and at the
  right.
\<close>

definition dibujarRectangulo ::
  "GeneradorTalonarios \<Rightarrow> Imagen \<Rightarrow> int \<Rightarrow> int \<Rightarrow> int \<Rightarrow> int \<Rightarrow> color \<Rightarrow> Imagen" where
  "dibujarRectangulo g img x y ancho alto col =
     foldl (\<lambda>im i.
              if Y (RMax (Rect im)) \<le> int_add y i then im
              else trazoDerecho
                     (trazoIzquierdo im x (int_add y i) col [0..AnchoLineas (config g) - 1])
                     x ancho (int_add y i) col [0..AnchoLineas (config g) - 1])
       (foldl (\<lambda>im i.
                 if X (RMax (Rect im)) \<le> int_add x i then im
                 else trazoInferior im (int_add x i) y alto col [0..AnchoLineas (config g) - 1])
              img [0..ancho - 1])
       [0..alto - 1]"

text \<open>
  The points that the loops of the two drawing functions address, before the clipping:
  those of the rule, and those of the bottom, left and right strokes of the rectangle.
\<close>

definition puntos_linea :: "int \<Rightarrow> int \<Rightarrow> int \<Rightarrow> int \<Rightarrow> (int \<times> int) list" where
  "puntos_linea x y largo grosor =
     concat (map (\<lambda>i. map (\<lambda>thick. (int_add x i, int_add y thick)) [0..grosor - 1])
                 [0..largo - 1])"

definition puntos_inferior :: "int \<Rightarrow> int \<Rightarrow> int \<Rightarrow> int \<Rightarrow> int \<Rightarrow> (int \<times> int) list" where
  "puntos_inferior x y ancho alto grosor =
     concat (map (\<lambda>i. map (\<lambda>thick. (int_add x i,
                                      int_sub (int_sub (int_add y alto) 1) thick))
                           [0..grosor - 1])
                 [0..ancho - 1])"

definition puntos_izquierdo :: "int \<Rightarrow> int \<Rightarrow> int \<Rightarrow> int \<Rightarrow> (int \<times> int) list" where
  "puntos_izquierdo x y alto grosor =
     concat (map (\<lambda>i. map (\<lambda>thick. (int_add x thick, int_add y i)) [0..grosor - 1])
                 [0..alto - 1])"

definition puntos_derecho :: "int \<Rightarrow> int \<Rightarrow> int \<Rightarrow> int \<Rightarrow> int \<Rightarrow> (int \<times> int) list" where
  "puntos_derecho x y ancho alto grosor =
     concat (map (\<lambda>i. map (\<lambda>thick. (int_sub (int_sub (int_add x ancho) 1) thick,
                                      int_add y i))
                           [0..grosor - 1])
                 [0..alto - 1])"

definition puntos_rectangulo :: "int \<Rightarrow> int \<Rightarrow> int \<Rightarrow> int \<Rightarrow> int \<Rightarrow> (int \<times> int) list" where
  "puntos_rectangulo x y ancho alto grosor =
     puntos_inferior x y ancho alto grosor @ puntos_izquierdo x y alto grosor
       @ puntos_derecho x y ancho alto grosor"

text \<open>
  \<open>fixed.Int26_6\<close> is an \<open>int32\<close>: the conversion keeps the low 32 bits.
\<close>

definition wrap32 :: "int \<Rightarrow> int" where
  "wrap32 n = (n + 2 ^ 31) mod 2 ^ 32 - 2 ^ 31"

definition dibujarTexto ::
  "GeneradorTalonarios \<Rightarrow> Imagen \<Rightarrow> string \<Rightarrow> int \<Rightarrow> int \<Rightarrow> color \<Rightarrow> Imagen" where
  "dibujarTexto g img texto x y col =
     (let alturaTexto = altura (Fuente (config g));
          yCentrado = int_add y (int_quo alturaTexto 4)
      in DrawString (Fuente (config g)) img col
           (wrap32 (int_mul x 64)) (wrap32 (int_mul yCentrado 64)) texto)"

text \<open>
  \<open>dibujarBoleta\<close>: the border, then the text under three independent tests of the
  orientation. Only the third divides, by \<open>BoletasPorFila\<close>.
\<close>

definition dibujarBoleta ::
  "GeneradorTalonarios \<Rightarrow> Imagen \<Rightarrow> Boleta \<Rightarrow> int \<Rightarrow> int \<Rightarrow> int \<Rightarrow> int \<Rightarrow> error + Imagen" where
  "dibujarBoleta g img boleta x y ancho alto =
     (let anchoCaracter = avance_cero (Fuente (config g));
          bordeColor = ColorBorde (config g);
          img1 = dibujarRectangulo g img x y ancho alto bordeColor;
          img2 = (if OrientacionBoletas (config g) = 0
                  then dibujarTexto g img1 (Formateado boleta)
                         (int_add x anchoCaracter)
                         (int_add y (int_quo alto 2)) (ColorTexto (config g))
                  else img1);
          img3 = (if OrientacionBoletas (config g) = 1
                  then dibujarTexto g img2 (Formateado boleta)
                         (int_sub (int_add x (int_quo ancho 2))
                                  (int_quo (int_mul anchoCaracter (digitosFormato g)) 2))
                         (int_add y (int_quo alto 2)) (ColorTexto (config g))
                  else img2)
      in if OrientacionBoletas (config g) = 2
         then (if BoletasPorFila (config g) = 0 then Inl PanicDivision
               else Inr (dibujarTexto g img3 (Formateado boleta)
                           (int_sub (int_add x (int_quo ancho (BoletasPorFila (config g))))
                                    (int_mul anchoCaracter (int_add (digitosFormato g) 1)))
                           (int_add y (int_quo alto 2)) (ColorTexto (config g))))
         else Inr img3)"

section \<open>Scaling the base image\<close>

text \<open>
  \<open>escalarImagen\<close> computes in \<open>float64\<close>. A finite binary64 number is a rational; an
  operation gives the exact result rounded to the nearest number with a 53-bit
  significand, ties to even. Every value \<open>escalarImagen\<close> computes where its loops
  run lies in the normal range (integers below \<open>2^64\<close> in magnitude, quotients of two of
  them, products of two such values), so neither subnormal numbers nor infinities are
  modelled.
\<close>

fun bits :: "nat \<Rightarrow> nat" where
  "bits n = (if n = 0 then 0 else Suc (bits (n div 2)))"

declare bits.simps [simp del]

definition pot2 :: "int \<Rightarrow> rat" where
  "pot2 e = (if 0 \<le> e then 2 ^ nat e else 1 / 2 ^ nat (- e))"

text \<open>For \<open>q > 0\<close>, the exponent \<open>e\<close> with \<open>2^e \<le> q < 2^(e+1)\<close>.\<close>

definition exponente :: "rat \<Rightarrow> int" where
  "exponente q =
     (if 1 \<le> q then int (bits (nat \<lfloor>q\<rfloor>)) - 1
      else - int (bits (nat (\<lceil>1 / q\<rceil> - 1))))"

definition redondeo_par :: "rat \<Rightarrow> int" where
  "redondeo_par q =
     (let f = \<lfloor>q\<rfloor>; r = q - of_int f
      in if r < 1 / 2 then f
         else if 1 / 2 < r then f + 1
         else if even f then f else f + 1)"

definition float64 :: "rat \<Rightarrow> rat" where
  "float64 q =
     (if q = 0 then 0
      else sgn q * of_int (redondeo_par (\<bar>q\<bar> / pot2 (exponente \<bar>q\<bar> - 52)))
           * pot2 (exponente \<bar>q\<bar> - 52))"

text \<open>
  The conversion \<open>int(f)\<close> truncates towards zero (the values converted here lie in the
  range of \<open>int\<close>).
\<close>

definition int_de_float :: "rat \<Rightarrow> int" where
  "int_de_float f = wrap64 ((if f < 0 then - 1 else 1) * \<lfloor>\<bar>f\<bar>\<rfloor>)"

text \<open>
  The scale factor \<open>float64(bounds.Dx()) / float64(ancho)\<close> and the source index
  \<open>int(float64(x) * scale)\<close>.
\<close>

definition escala :: "int \<Rightarrow> int \<Rightarrow> rat" where
  "escala d n = float64 (float64 (of_int d) / float64 (of_int n))"

definition indice_fuente :: "int \<Rightarrow> rat \<Rightarrow> int" where
  "indice_fuente x sc = int_de_float (float64 (float64 (of_int x) * sc))"

definition escalarFila :: "Imagen \<Rightarrow> rat \<Rightarrow> rat \<Rightarrow> Imagen \<Rightarrow> int \<Rightarrow> int list \<Rightarrow> Imagen" where
  "escalarFila src scaleX scaleY dst y xs =
     foldl (\<lambda>d x. Set_px d x y
                     (At src (int_add (X (RMin (Rect src))) (indice_fuente x scaleX))
                             (int_add (Y (RMin (Rect src))) (indice_fuente y scaleY))))
           dst xs"

definition escalarImagen :: "Imagen \<Rightarrow> int \<Rightarrow> int \<Rightarrow> error + Imagen" where
  "escalarImagen src ancho alto =
     (case NewRGBA (image_Rect 0 0 ancho alto) of
        Inl err \<Rightarrow> Inl err
      | Inr dst \<Rightarrow>
          Inr (foldl (\<lambda>d y. escalarFila src (escala (Dx (Rect src)) ancho)
                                (escala (Dy (Rect src)) alto) d y [0..ancho - 1])
                     dst [0..alto - 1]))"

section \<open>Rendering a page\<close>

text \<open>The grid of \<open>crearImagenTalonario\<close>: rows, cell width, cell height, cell origin.\<close>

definition filas :: "GeneradorTalonarios \<Rightarrow> Talonario \<Rightarrow> int" where
  "filas g t =
     int_quo (int_sub (int_add (int (length (Boletas t))) (BoletasPorFila (config g))) 1)
             (BoletasPorFila (config g))"

definition anchoBoleta :: "GeneradorTalonarios \<Rightarrow> int" where
  "anchoBoleta g =
     int_quo (int_sub (int_sub (AnchoTalonario (config g)) (MargenDerecho (config g)))
                      (MargenIzquierdo (config g)))
             (BoletasPorFila (config g))"

definition altoBoleta :: "GeneradorTalonarios \<Rightarrow> Talonario \<Rightarrow> int" where
  "altoBoleta g t =
     int_quo (int_sub (int_sub (AltoTalonario (config g)) (MargenSuperior (config g)))
                      (MargenInferior (config g)))
             (filas g t)"

definition origenX :: "GeneradorTalonarios \<Rightarrow> int \<Rightarrow> int \<Rightarrow> int" where
  "origenX g ancho i =
     int_add (int_mul (int_rem i (BoletasPorFila (config g))) ancho)
             (MargenIzquierdo (config g))"

definition origenY :: "GeneradorTalonarios \<Rightarrow> int \<Rightarrow> int \<Rightarrow> int" where
  "origenY g alto i =
     int_add (int_mul (int_quo i (BoletasPorFila (config g))) alto)
             (MargenSuperior (config g))"

fun dibujarBoletas ::
  "GeneradorTalonarios \<Rightarrow> int \<Rightarrow> int \<Rightarrow> (int \<times> Boleta) list \<Rightarrow> Imagen \<Rightarrow> error + Imagen" where
  "dibujarBoletas g ancho alto [] img = Inr img"
| "dibujarBoletas g ancho alto ((i, boleta) # resto) img =
     (if BoletasPorFila (config g) = 0 then Inl PanicDivision
      else case dibujarBoleta g img boleta (origenX g ancho i) (origenY g alto i) ancho alto of
             Inl err \<Rightarrow> Inl err
           | Inr img' \<Rightarrow> dibujarBoletas g ancho alto resto img')"

definition fondo :: "Entorno \<Rightarrow> GeneradorTalonarios \<Rightarrow> error + Imagen" where
  "fondo env g =
     (case NewRGBA (image_Rect 0 0 (AnchoTalonario (config g)) (AltoTalonario (config g))) of
        Inl err \<Rightarrow> Inl err
      | Inr img \<Rightarrow>
          (case imagenBase g of
             None \<Rightarrow> Inr (rellenar img (RGBA 0 0 0 255))
           | Some base \<Rightarrow>
               (case escalarImagen base (AnchoTalonario (config g)) (AltoTalonario (config g)) of
                  Inl err \<Rightarrow> Inl err
                | Inr imagenEscalada \<Rightarrow>
                    Inr (draw_Over env (rellenar img (RGBA 0 0 0 255)) imagenEscalada))))"

definition crearImagenTalonario ::
  "Entorno \<Rightarrow> GeneradorTalonarios \<Rightarrow> Talonario \<Rightarrow> error + Imagen" where
  "crearImagenTalonario env g t =
     (case fondo env g of
        Inl err \<Rightarrow> Inl err
      | Inr img \<Rightarrow>
          if BoletasPorFila (config g) = 0 then Inl PanicDivision
          else if filas g t = 0 then Inl PanicDivision
          else dibujarBoletas g (anchoBoleta g) (altoBoleta g t)
                 (zip (map int [0..<length (Boletas t)]) (Boletas t))
                 (dibujarLineaSuperior g img (MargenIzquierdo (config g))
                    (MargenSuperior (config g)) (ColorBorde (config g))))"

section \<open>The whole run\<close>

record Pagina =
  archivo :: string
  imagen :: Imagen
  talonario :: Talonario

definition nombreArchivo :: "int \<Rightarrow> string" where
  "nombreArchivo i = ''talonario_'' @ Sprintf_0d 3 i @ ''.png''"

definition guardarImagen :: "Entorno \<Rightarrow> GeneradorTalonarios \<Rightarrow> Imagen \<Rightarrow> int \<Rightarrow> bool" where
  "guardarImagen env g img i = escribirPNG env (CarpetaSalida (config g)) (nombreArchivo i) img"

text \<open>
  The loop of \<open>GenerarTodos\<close>, from page \<open>i\<close> on: \<open>for ; i <= CantidadPaginas; i++\<close>. The
  pages written so far are accumulated; \<open>None\<close> is the run that never returns.
\<close>

partial_function (option) generarDesde ::
  "Entorno \<Rightarrow> int \<Rightarrow> GeneradorTalonarios \<Rightarrow> nat \<Rightarrow> Pagina list
     \<Rightarrow> (error + Pagina list \<times> GeneradorTalonarios \<times> nat) option" where
  "generarDesde env i g k hechas =
     (if i \<le> CantidadPaginas (config g)
      then (case crearTalonario env g k i of
              None \<Rightarrow> None
            | Some (Inl err) \<Rightarrow> Some (Inl err)
            | Some (Inr (t, g', k')) \<Rightarrow>
                (case crearImagenTalonario env g' t of
                   Inl err \<Rightarrow> Some (Inl err)
                 | Inr img \<Rightarrow>
                     if guardarImagen env g' img i
                     then generarDesde env (int_add i 1) g' k'
                            (hechas @ [\<lparr>archivo = nombreArchivo i, imagen = img, talonario = t\<rparr>])
                     else Some (Inl (ErrGuardando i))))
      else Some (Inr (hechas, g, k)))"

definition GenerarTodos ::
  "Entorno \<Rightarrow> GeneradorTalonarios \<Rightarrow> nat
     \<Rightarrow> (error + Pagina list \<times> GeneradorTalonarios \<times> nat) option" where
  "GenerarTodos env g k = generarDesde env 1 g k []"

text \<open>The numbers of the tickets of a list of pages, in page order.\<close>

definition numeros_asignados :: "Pagina list \<Rightarrow> int list" where
  "numeros_asignados ps = concat (map (\<lambda>p. map Numero (Boletas (talonario p))) ps)"

section \<open>The configuration of \<open>main\<close> and a test environment\<close>

definition sin_glifos :: "Imagen \<Rightarrow> color \<Rightarrow> int \<Rightarrow> int \<Rightarrow> string \<Rightarrow> Imagen" where
  "sin_glifos img c x y s = img"

text \<open>The zero value of the field \<open>Fuente\<close>, which \<open>main\<close> leaves unset.\<close>

definition Face_nil :: Face where
  "Face_nil = \<lparr>avance_cero = 0, altura = 0, DrawString = sin_glifos\<rparr>"

definition config_main :: Config where
  "config_main =
     \<lparr>ImagenBase = ''Base.png'', BoletasPorFila = 1, NumeroMinimo = 0,
      NumeroMaximo = 9999, BoletasPorPagina = 10, CantidadPaginas = 500,
      CarpetaSalida = ''talonarios'', AnchoTalonario = 1080, AltoTalonario = 1920,
      MargenSuperior = 610, MargenInferior = 440, MargenIzquierdo = 50,
      MargenDerecho = 50, ColorTexto = RGBA 248 220 191 255,
      ColorBorde = RGBA 248 220 191 255, Fuente = Face_nil,
      RutaFuente = ''calibri-bold.ttf'', AnchoLineas = 5, OrientacionBoletas = 0\<rparr>"

text \<open>
  An environment in which the font file is missing (the built-in face is used), the
  base image decodes to one white pixel, the folder and every page can be written, and
  the raw draws count up from zero.
\<close>

definition entorno_prueba :: Entorno where
  "entorno_prueba =
     \<lparr>cargarFuente = (\<lambda>ruta. None),
      decodificarImagen =
        (\<lambda>ruta. Some \<lparr>Rect = image_Rect 0 0 1 1, Pix = (\<lambda>p. RGBA 255 255 255 255)\<rparr>),
      MkdirAll = (\<lambda>ruta. True),
      escribirPNG = (\<lambda>carpeta nombre img. True),
      glifos7x13 = sin_glifos,
      draw_Over = (\<lambda>dst src. dst),
      azar = int\<rparr>"

text \<open>
  The generator that the constructor returns for \<open>config_main\<close> in \<open>entorno_prueba\<close>.
\<close>

definition generador_main :: GeneradorTalonarios where
  "generador_main =
     \<lparr>config = config_main\<lparr>Fuente := Face7x13 entorno_prueba\<rparr>,
      numerosUsados = (\<lambda>n. False),
      imagenBase = Some \<lparr>Rect = image_Rect 0 0 1 1, Pix = (\<lambda>p. RGBA 255 255 255 255)\<rparr>,
      digitosFormato = 4\<rparr>"

text \<open>A black canvas of 8 by 6 pixels.\<close>

definition lienzo_prueba :: Imagen where
  "lienzo_prueba = \<lparr>Rect = image_Rect 0 0 8 6, Pix = (\<lambda>p. RGBA 0 0 0 255)\<rparr>"

text \<open>
  A small generator for the drawing functions: a canvas of 8 by 6, margins of 1,
  strokes of 2 pixels.
\<close>

definition generador_chico :: GeneradorTalonarios where
  "generador_chico =
     generador_main\<lparr>config := (config generador_main)
        \<lparr>AnchoTalonario := 8, AltoTalonario := 6, MargenSuperior := 1, MargenInferior := 1,
         MargenIzquierdo := 1, MargenDerecho := 1, AnchoLineas := 2\<rparr>\<rparr>"

text \<open>
  Coordinates and sizes below \<open>2^61\<close> in magnitude: sums of three of them fit in an
  \<open>int\<close>.
\<close>

definition pequeno :: "int \<Rightarrow> bool" where
  "pequeno v = (- (2 ^ 61) < v \<and> v < 2 ^ 61)"

text \<open>
  A run of three pages of two tickets over the range of \<open>main\<close>, and the generator that
  the constructor returns for it in \<open>entorno_prueba\<close>.
\<close>

definition config_tres :: Config where
  "config_tres = config_main\<lparr>BoletasPorPagina := 2, CantidadPaginas := 3\<rparr>"

definition generador_tres :: GeneradorTalonarios where
  "generador_tres = generador_main\<lparr>config := config_tres\<lparr>Fuente := Face7x13 entorno_prueba\<rparr>\<rparr>"

text \<open>
  A configuration whose range is empty (minimum 1, maximum 0) and whose product
  \<open>2 * 2^62\<close> does not fit in an \<open>int\<close>, and the generator that the constructor returns
  for it in \<open>entorno_prueba\<close>: the digit count is that of \<open>0\<close>.
\<close>

definition config_rango_vacio :: Config where
  "config_rango_vacio =
     config_main\<lparr>NumeroMinimo := 1, NumeroMaximo := 0, BoletasPorPagina := 2,
                  CantidadPaginas := 2 ^ 62\<rparr>"

definition generador_rango_vacio :: GeneradorTalonarios where
  "generador_rango_vacio =
     generador_main\<lparr>config := config_rango_vacio\<lparr>Fuente := Face7x13 entorno_prueba\<rparr>,
                     digitosFormato := 1\<rparr>"

text \<open>A source image of two columns and one row: the column 0 black, the column 1 white.\<close>

definition dos_columnas :: Imagen where
  "dos_columnas =
     \<lparr>Rect = image_Rect 0 0 2 1,
      Pix = (\<lambda>p. if fst p = 0 then RGBA 0 0 0 255 else RGBA 255 255 255 255)\<rparr>"

section \<open>Arithmetic facts\<close>

lemma wrap64_id: "is_int64 n \<Longrightarrow> wrap64 n = n"
  by (simp add: wrap64_def is_int64_def)

lemma is_int64_wrap64: "is_int64 (wrap64 n)"
proof -
  have "0 \<le> (n + 2 ^ 63) mod (2 ^ 64 :: int)" by simp
  moreover have "(n + 2 ^ 63) mod (2 ^ 64 :: int) < 2 ^ 64" by simp
  ultimately show ?thesis by (simp add: wrap64_def is_int64_def)
qed

lemma wrap64_wrap64_add: "wrap64 (wrap64 a + b) = wrap64 (a + b)"
  by (simp add: wrap64_def mod_simps ac_simps)

lemma wrap64_wrap64_diff: "wrap64 (wrap64 a - b) = wrap64 (a - b)"
  by (simp add: wrap64_def mod_simps algebra_simps)

lemma total_exacto:
  "is_int64 (mx - mn + 1) \<Longrightarrow> int_add (int_sub mx mn) 1 = mx - mn + 1"
  by (simp add: int_add_def int_sub_def wrap64_wrap64_add wrap64_id)

lemma producto_exacto: "is_int64 (a * b) \<Longrightarrow> int_mul a b = a * b"
  by (simp add: int_mul_def wrap64_id)

lemma trunc_quo_nonneg: "0 \<le> a \<Longrightarrow> 0 < b \<Longrightarrow> trunc_quo a b = a div b"
  by (cases "a = 0") (simp_all add: trunc_quo_def)

section \<open>Validation and construction: facts\<close>

lemma validarConfig_None_iff:
  "validarConfig g = None \<longleftrightarrow>
     int_mul (BoletasPorPagina (config g)) (CantidadPaginas (config g))
         \<le> int_add (int_sub (NumeroMaximo (config g)) (NumeroMinimo (config g))) 1
     \<and> 0 < BoletasPorPagina (config g) \<and> 0 < CantidadPaginas (config g)
     \<and> 0 < BoletasPorFila (config g)
     \<and> 0 \<le> MargenSuperior (config g) \<and> 0 \<le> MargenInferior (config g)
     \<and> 0 \<le> MargenIzquierdo (config g) \<and> 0 \<le> MargenDerecho (config g)"
  by (auto simp: validarConfig_def Let_def)

lemma validarConfig_Some_config: "validarConfig g = Some e \<Longrightarrow> es_error_de_config e"
  by (auto simp: validarConfig_def Let_def split: if_splits)

lemma config_generador_inicial [simp]: "config (generador_inicial cfg) = cfg"
  by (simp add: generador_inicial_def)

lemma NewGeneradorTalonarios_error_validacion:
  "validarConfig (generador_inicial cfg) = Some e \<Longrightarrow> NewGeneradorTalonarios env cfg = Inl e"
  by (simp add: NewGeneradorTalonarios_def Let_def)

lemma config_elegirFuente:
  "config (elegirFuente env g) = (config g)\<lparr>Fuente := Fuente (config (elegirFuente env g))\<rparr>"
  by (auto simp: elegirFuente_def ponerFuente_def cargarFuentePersonalizada_def
      split: option.splits)

lemma ImagenBase_elegirFuente [simp]:
  "ImagenBase (config (elegirFuente env g)) = ImagenBase (config g)"
  by (subst config_elegirFuente) simp

lemma CarpetaSalida_elegirFuente [simp]:
  "CarpetaSalida (config (elegirFuente env g)) = CarpetaSalida (config g)"
  by (subst config_elegirFuente) simp

lemma NewGeneradorTalonarios_ok:
  assumes "validarConfig (generador_inicial cfg) = None"
    and "ImagenBase cfg = [] \<or> decodificarImagen env (ImagenBase cfg) \<noteq> None"
    and "MkdirAll env (CarpetaSalida cfg)"
  shows "\<exists>g. NewGeneradorTalonarios env cfg = Inr g"
  using assms
  by (auto simp: NewGeneradorTalonarios_def Let_def elegirImagen_def cargarImagenBase_def
      crearCarpeta_def split: option.splits sum.splits)

text \<open>
  Claim C2, as amended. The constructor returns the configuration error of
  \<open>validarConfig\<close>, and no generator on which a number could be allocated, whenever
  \<open>BoletasPorPagina * CantidadPaginas\<close> exceeds \<open>NumeroMaximo - NumeroMinimo + 1\<close> and
  both fit in an \<open>int\<close>; it returns a configuration error on a count of tickets or
  pages that is not positive, on a number of tickets per row that is not positive and on
  a negative margin. With 10 tickets per page and the range 0 to 9999 it fails for 1001
  pages and succeeds for 500 (given tickets per row and margins that pass, a base image
  that decodes and a folder that can be created).
\<close>

theorem NewGeneradorTalonarios_rechaza:
  "(is_int64 (BoletasPorPagina cfg * CantidadPaginas cfg)
      \<and> is_int64 (NumeroMaximo cfg - NumeroMinimo cfg + 1)
      \<and> NumeroMaximo cfg - NumeroMinimo cfg + 1 < BoletasPorPagina cfg * CantidadPaginas cfg
    \<longrightarrow> NewGeneradorTalonarios env cfg
          = Inl (ErrNumerosInsuficientes (BoletasPorPagina cfg * CantidadPaginas cfg)
                   (NumeroMaximo cfg - NumeroMinimo cfg + 1)))
   \<and> (BoletasPorPagina cfg \<le> 0 \<or> CantidadPaginas cfg \<le> 0 \<or> BoletasPorFila cfg \<le> 0
        \<or> MargenSuperior cfg < 0 \<or> MargenInferior cfg < 0
        \<or> MargenIzquierdo cfg < 0 \<or> MargenDerecho cfg < 0
      \<longrightarrow> (\<exists>e. NewGeneradorTalonarios env cfg = Inl e \<and> es_error_de_config e))
   \<and> NewGeneradorTalonarios env
        (cfg\<lparr>BoletasPorPagina := 10, NumeroMinimo := 0, NumeroMaximo := 9999,
              CantidadPaginas := 1001\<rparr>)
       = Inl (ErrNumerosInsuficientes 10010 10000)
   \<and> (0 < BoletasPorFila cfg \<and> 0 \<le> MargenSuperior cfg \<and> 0 \<le> MargenInferior cfg
        \<and> 0 \<le> MargenIzquierdo cfg \<and> 0 \<le> MargenDerecho cfg
        \<and> (ImagenBase cfg = [] \<or> decodificarImagen env (ImagenBase cfg) \<noteq> None)
        \<and> MkdirAll env (CarpetaSalida cfg)
      \<longrightarrow> (\<exists>g. NewGeneradorTalonarios env
                  (cfg\<lparr>BoletasPorPagina := 10, NumeroMinimo := 0, NumeroMaximo := 9999,
                        CantidadPaginas := 500\<rparr>) = Inr g))"
proof (intro conjI impI)
  assume h: "is_int64 (BoletasPorPagina cfg * CantidadPaginas cfg)
      \<and> is_int64 (NumeroMaximo cfg - NumeroMinimo cfg + 1)
      \<and> NumeroMaximo cfg - NumeroMinimo cfg + 1 < BoletasPorPagina cfg * CantidadPaginas cfg"
  then have "validarConfig (generador_inicial cfg)
      = Some (ErrNumerosInsuficientes (BoletasPorPagina cfg * CantidadPaginas cfg)
                   (NumeroMaximo cfg - NumeroMinimo cfg + 1))"
    by (simp add: validarConfig_def Let_def total_exacto producto_exacto)
  then show "NewGeneradorTalonarios env cfg
          = Inl (ErrNumerosInsuficientes (BoletasPorPagina cfg * CantidadPaginas cfg)
                   (NumeroMaximo cfg - NumeroMinimo cfg + 1))"
    by (rule NewGeneradorTalonarios_error_validacion)
next
  assume h: "BoletasPorPagina cfg \<le> 0 \<or> CantidadPaginas cfg \<le> 0 \<or> BoletasPorFila cfg \<le> 0
        \<or> MargenSuperior cfg < 0 \<or> MargenInferior cfg < 0
        \<or> MargenIzquierdo cfg < 0 \<or> MargenDerecho cfg < 0"
  then have "validarConfig (generador_inicial cfg) \<noteq> None"
    by (auto simp: validarConfig_None_iff)
  then obtain e where e: "validarConfig (generador_inicial cfg) = Some e" by auto
  then show "\<exists>e. NewGeneradorTalonarios env cfg = Inl e \<and> es_error_de_config e"
    using NewGeneradorTalonarios_error_validacion validarConfig_Some_config by blast
next
  have "validarConfig (generador_inicial
          (cfg\<lparr>BoletasPorPagina := 10, NumeroMinimo := 0, NumeroMaximo := 9999,
                CantidadPaginas := 1001\<rparr>)) = Some (ErrNumerosInsuficientes 10010 10000)"
    by (simp add: validarConfig_def Let_def int_add_def int_sub_def int_mul_def wrap64_def)
  then show "NewGeneradorTalonarios env
        (cfg\<lparr>BoletasPorPagina := 10, NumeroMinimo := 0, NumeroMaximo := 9999,
              CantidadPaginas := 1001\<rparr>)
       = Inl (ErrNumerosInsuficientes 10010 10000)"
    by (rule NewGeneradorTalonarios_error_validacion)
next
  assume h: "0 < BoletasPorFila cfg \<and> 0 \<le> MargenSuperior cfg \<and> 0 \<le> MargenInferior cfg
        \<and> 0 \<le> MargenIzquierdo cfg \<and> 0 \<le> MargenDerecho cfg
        \<and> (ImagenBase cfg = [] \<or> decodificarImagen env (ImagenBase cfg) \<noteq> None)
        \<and> MkdirAll env (CarpetaSalida cfg)"
  then have "validarConfig (generador_inicial
          (cfg\<lparr>BoletasPorPagina := 10, NumeroMinimo := 0, NumeroMaximo := 9999,
                CantidadPaginas := 500\<rparr>)) = None"
    by (simp add: validarConfig_None_iff int_add_def int_sub_def int_mul_def wrap64_def)
  then show "\<exists>g. NewGeneradorTalonarios env
                  (cfg\<lparr>BoletasPorPagina := 10, NumeroMinimo := 0, NumeroMaximo := 9999,
                        CantidadPaginas := 500\<rparr>) = Inr g"
    using h by (intro NewGeneradorTalonarios_ok) auto
qed

theorem NewGeneradorTalonarios_rechaza_witness:
  "is_int64 (BoletasPorPagina (config_main\<lparr>CantidadPaginas := 1001\<rparr>)
             * CantidadPaginas (config_main\<lparr>CantidadPaginas := 1001\<rparr>))
   \<and> NewGeneradorTalonarios entorno_prueba (config_main\<lparr>CantidadPaginas := 1001\<rparr>)
       = Inl (ErrNumerosInsuficientes 10010 10000)
   \<and> BoletasPorFila (config_main\<lparr>BoletasPorFila := 0\<rparr>) \<le> 0
   \<and> isl (NewGeneradorTalonarios entorno_prueba (config_main\<lparr>BoletasPorFila := 0\<rparr>))
   \<and> \<not> isl (NewGeneradorTalonarios entorno_prueba
               (config_main\<lparr>BoletasPorPagina := 10, NumeroMinimo := 0, NumeroMaximo := 9999,
                             CantidadPaginas := 500\<rparr>))"
  using NewGeneradorTalonarios_rechaza [of "config_main\<lparr>CantidadPaginas := 1001\<rparr>" entorno_prueba]
    NewGeneradorTalonarios_rechaza [of "config_main\<lparr>BoletasPorFila := 0\<rparr>" entorno_prueba]
    NewGeneradorTalonarios_rechaza [of config_main entorno_prueba]
  by (auto simp: config_main_def is_int64_def entorno_prueba_def)

text \<open>
  Claim C2 as stated fails where the product overflows: two tickets per page and
  \<open>2^62\<close> pages ask for \<open>2^63\<close> numbers, the range 0 to 9 has ten, and the product
  wraps to \<open>-2^63\<close>, so the validation passes and the constructor returns a generator.
\<close>

theorem validacion_acepta_producto_desbordado:
  "(9::int) - 0 + 1 < 2 * 4611686018427387904
   \<and> \<not> isl (NewGeneradorTalonarios entorno_prueba
               (config_main\<lparr>BoletasPorPagina := 2, CantidadPaginas := 4611686018427387904,
                             NumeroMinimo := 0, NumeroMaximo := 9\<rparr>))"
proof -
  have "validarConfig (generador_inicial
          (config_main\<lparr>BoletasPorPagina := 2, CantidadPaginas := 4611686018427387904,
                        NumeroMinimo := 0, NumeroMaximo := 9\<rparr>)) = None"
    by (simp add: validarConfig_def Let_def config_main_def int_add_def int_sub_def
        int_mul_def wrap64_def)
  then have "\<exists>g. NewGeneradorTalonarios entorno_prueba
               (config_main\<lparr>BoletasPorPagina := 2, CantidadPaginas := 4611686018427387904,
                             NumeroMinimo := 0, NumeroMaximo := 9\<rparr>) = Inr g"
    by (rule NewGeneradorTalonarios_ok) (simp_all add: entorno_prueba_def)
  then show ?thesis by auto
qed

section \<open>What a validated configuration guarantees\<close>

lemma filas_exacto:
  assumes "0 < BoletasPorFila (config g)"
    and "is_int64 (int (length (Boletas t)) + BoletasPorFila (config g) - 1)"
  shows "filas g t = (int (length (Boletas t)) + BoletasPorFila (config g) - 1)
                       div BoletasPorFila (config g)"
proof -
  let ?n = "int (length (Boletas t))" and ?f = "BoletasPorFila (config g)"
  have a: "int_sub (int_add ?n ?f) 1 = ?n + ?f - 1"
    using assms(2) by (simp add: int_add_def int_sub_def wrap64_wrap64_diff wrap64_id)
  have nn: "0 \<le> ?n + ?f - 1" using assms(1) by simp
  have q: "trunc_quo (?n + ?f - 1) ?f = (?n + ?f - 1) div ?f"
    using nn assms(1) by (rule trunc_quo_nonneg)
  have "0 \<le> (?n + ?f - 1) div ?f" using nn assms(1) by (simp add: pos_imp_zdiv_nonneg_iff)
  moreover have "(?n + ?f - 1) div ?f \<le> ?n + ?f - 1"
    using zdiv_mono2 [of "?n + ?f - 1" 1 ?f] nn assms(1) by simp
  ultimately have "is_int64 ((?n + ?f - 1) div ?f)"
    using assms(2) by (simp add: is_int64_def)
  then show ?thesis by (simp add: filas_def a int_quo_def q wrap64_id)
qed

text \<open>
  Claim C10, as amended. A configuration that passes the validation, and whose total
  \<open>BoletasPorPagina * CantidadPaginas\<close>, range size \<open>NumeroMaximo - NumeroMinimo + 1\<close>
  and sum \<open>BoletasPorPagina + BoletasPorFila - 1\<close> fit in an \<open>int\<close>, has
  \<open>NumeroMinimo \<le> NumeroMaximo\<close>, gives \<open>rand.Intn\<close> a positive argument, and gives
  every page of \<open>BoletasPorPagina\<close> tickets at least one row.
\<close>

theorem validada_rango_y_filas:
  assumes "validarConfig g = None"
    and "is_int64 (BoletasPorPagina (config g) * CantidadPaginas (config g))"
    and "is_int64 (NumeroMaximo (config g) - NumeroMinimo (config g) + 1)"
    and "int (length (Boletas t)) = BoletasPorPagina (config g)"
    and "is_int64 (BoletasPorPagina (config g) + BoletasPorFila (config g) - 1)"
  shows "NumeroMinimo (config g) \<le> NumeroMaximo (config g)
         \<and> 0 < int_add (int_sub (NumeroMaximo (config g)) (NumeroMinimo (config g))) 1
         \<and> 1 \<le> filas g t"
proof -
  let ?B = "BoletasPorPagina (config g)" and ?C = "CantidadPaginas (config g)"
  let ?F = "BoletasPorFila (config g)"
  let ?T = "NumeroMaximo (config g) - NumeroMinimo (config g) + 1"
  from assms(1)
  have v: "int_mul ?B ?C
             \<le> int_add (int_sub (NumeroMaximo (config g)) (NumeroMinimo (config g))) 1"
    and B: "0 < ?B" and C: "0 < ?C" and F: "0 < ?F"
    by (simp_all add: validarConfig_None_iff)
  have T: "int_add (int_sub (NumeroMaximo (config g)) (NumeroMinimo (config g))) 1 = ?T"
    using assms(3) by (rule total_exacto)
  have "1 \<le> ?B * ?C" using B C by (simp add: int_one_le_iff_zero_less)
  moreover have "?B * ?C \<le> ?T" using v T assms(2) by (simp add: producto_exacto)
  ultimately have T1: "1 \<le> ?T" by linarith
  have fl: "filas g t = (?B + ?F - 1) div ?F"
    using filas_exacto [of g t] F assms(4,5) by simp
  have "?F \<le> ?B + ?F - 1" using B by simp
  then have "?F div ?F \<le> (?B + ?F - 1) div ?F" using F by (intro zdiv_mono1) simp_all
  then have "1 \<le> (?B + ?F - 1) div ?F" using F by simp
  with T T1 fl show ?thesis by simp
qed

theorem validada_rango_y_filas_witness:
  "validarConfig (generador_inicial config_main) = None
   \<and> NumeroMinimo (config (generador_inicial config_main))
       \<le> NumeroMaximo (config (generador_inicial config_main))
   \<and> 0 < int_add (int_sub (NumeroMaximo (config (generador_inicial config_main)))
                          (NumeroMinimo (config (generador_inicial config_main)))) 1
   \<and> 1 \<le> filas (generador_inicial config_main)
                \<lparr>ID = 1, Boletas = replicate 10 Boleta_cero\<rparr>"
proof -
  have v: "validarConfig (generador_inicial config_main) = None"
    by (simp add: validarConfig_def Let_def config_main_def int_add_def int_sub_def
        int_mul_def wrap64_def)
  show ?thesis
    using v validada_rango_y_filas [of "generador_inicial config_main"
        "\<lparr>ID = 1, Boletas = replicate 10 Boleta_cero\<rparr>", OF v]
    by (simp add: config_main_def is_int64_def)
qed

text \<open>
  Claim C10 as stated fails where the arithmetic of the validation or of the grid
  overflows. Two tickets per page and \<open>2^62\<close> pages with the range from 1 to 0 pass the
  validation, since the product wraps to \<open>-2^63\<close>: the minimum is above the maximum and
  \<open>rand.Intn\<close> panics on the argument 0. Ten tickets per page with \<open>2^63 - 1\<close> tickets per
  row pass it too: the row count is 0 and the cell height divides by zero.
\<close>

theorem validada_sin_rango_ni_filas:
  "validarConfig (generador_inicial
      (config_main\<lparr>BoletasPorPagina := 2, CantidadPaginas := 4611686018427387904,
                    NumeroMinimo := 1, NumeroMaximo := 0\<rparr>)) = None
   \<and> NumeroMaximo (config_main\<lparr>BoletasPorPagina := 2, CantidadPaginas := 4611686018427387904,
                                 NumeroMinimo := 1, NumeroMaximo := 0\<rparr>)
       < NumeroMinimo (config_main\<lparr>BoletasPorPagina := 2, CantidadPaginas := 4611686018427387904,
                                   NumeroMinimo := 1, NumeroMaximo := 0\<rparr>)
   \<and> generarNumeroAleatorio entorno_prueba
        (generador_inicial
          (config_main\<lparr>BoletasPorPagina := 2, CantidadPaginas := 4611686018427387904,
                        NumeroMinimo := 1, NumeroMaximo := 0\<rparr>)) 0 = Some (Inl PanicIntn)
   \<and> validarConfig (generador_inicial
        (config_main\<lparr>BoletasPorFila := 9223372036854775807\<rparr>)) = None
   \<and> filas (generador_inicial (config_main\<lparr>BoletasPorFila := 9223372036854775807\<rparr>))
        \<lparr>ID = 1, Boletas = replicate 10 Boleta_cero\<rparr> = 0
   \<and> crearImagenTalonario entorno_prueba
        (generador_inicial (config_main\<lparr>BoletasPorFila := 9223372036854775807\<rparr>))
        \<lparr>ID = 1, Boletas = replicate 10 Boleta_cero\<rparr> = Inl PanicDivision"
proof (intro conjI)
  show "crearImagenTalonario entorno_prueba
        (generador_inicial (config_main\<lparr>BoletasPorFila := 9223372036854775807\<rparr>))
        \<lparr>ID = 1, Boletas = replicate 10 Boleta_cero\<rparr> = Inl PanicDivision"
    apply (simp add: crearImagenTalonario_def fondo_def NewRGBA_def image_Rect_def Dx_def
        Dy_def Pt_def generador_inicial_def)
    apply (simp add: filas_def config_main_def int_add_def int_sub_def int_quo_def
        trunc_quo_def wrap64_def)
    done
qed (simp_all add: validarConfig_def Let_def config_main_def int_add_def int_sub_def
    int_mul_def wrap64_def generarNumeroAleatorio.simps filas_def int_quo_def trunc_quo_def)

lemma NewGeneradorTalonarios_main:
  "NewGeneradorTalonarios entorno_prueba config_main = Inr generador_main"
  by (simp add: NewGeneradorTalonarios_def validarConfig_def Let_def
      elegirImagen_def elegirFuente_def cargarImagenBase_def cargarFuentePersonalizada_def
      crearCarpeta_def ponerFuente_def int_add_def int_sub_def int_mul_def wrap64_def
      config_main_def entorno_prueba_def generador_inicial_def Itoa_def digitos.simps
      generador_main_def)

lemma NewGeneradorTalonarios_Inr:
  assumes "NewGeneradorTalonarios env cfg = Inr g"
  shows "digitosFormato g = int (length (Itoa (NumeroMaximo cfg)))"
    and "validarConfig (generador_inicial cfg) = None"
    and "numerosUsados g = (\<lambda>n. False)"
    and "config g = cfg\<lparr>Fuente := Fuente (config g)\<rparr>"
  using assms
  by (auto simp: NewGeneradorTalonarios_def Let_def elegirImagen_def elegirFuente_def
      cargarImagenBase_def cargarFuentePersonalizada_def crearCarpeta_def ponerFuente_def
      generador_inicial_def split: option.splits sum.splits if_splits)

section \<open>Formatting\<close>

lemma length_digitos_pos: "0 < length (digitos n)"
  by (subst digitos.simps) simp

lemma length_digitos_mono: "n \<le> m \<Longrightarrow> length (digitos n) \<le> length (digitos m)"
proof (induction m arbitrary: n rule: digitos.induct)
  case (1 m)
  show ?case
  proof (cases "m < 10")
    case True
    with "1.prems" have "n < 10" by simp
    with True show ?thesis by (simp add: digitos.simps)
  next
    case False
    show ?thesis
    proof (cases "n < 10")
      case True
      then have "length (digitos n) = 1" by (simp add: digitos.simps)
      moreover have "0 < length (digitos m)" by (rule length_digitos_pos)
      ultimately show ?thesis by linarith
    next
      case nb: False
      have "n div 10 \<le> m div 10" using "1.prems" by (rule div_le_mono)
      then have "length (digitos (n div 10)) \<le> length (digitos (m div 10))"
        using False by (intro "1.IH") simp_all
      then show ?thesis using False nb
        by (subst digitos.simps, subst (2) digitos.simps) simp
    qed
  qed
qed

lemma Sprintf_0d_nonneg:
  assumes "0 \<le> v" and "int (length (digitos (nat v))) \<le> wid"
  shows "Sprintf_0d wid v
           = replicate (nat wid - length (digitos (nat v))) CHR ''0'' @ digitos (nat v)"
    and "int (length (Sprintf_0d wid v)) = wid"
proof -
  let ?c = "replicate (nat wid - length (digitos (nat v))) CHR ''0'' @ digitos (nat v)"
  have a: "nat \<bar>v\<bar> = nat v" using assms(1) by simp
  have l: "length ?c = nat wid" using assms(2) by simp
  show "Sprintf_0d wid v = ?c"
    using assms(1) l by (simp add: Sprintf_0d_def Let_def a)
  then show "int (length (Sprintf_0d wid v)) = wid" using l assms(2) by simp
qed

text \<open>
  Claim C3, as amended. On a generator that the constructor returned, formatting a
  value \<open>v\<close> with \<open>0 \<le> v \<le> NumeroMaximo\<close> gives the decimal text of \<open>v\<close> with zeros in
  front, of exactly \<open>digitosFormato\<close> characters, the number of characters of the decimal
  text of the maximum; for the maximum 9999 that is 4, 7 gives \<open>0007\<close> and 9999 gives
  \<open>9999\<close>.
\<close>

theorem formatearNumero_relleno:
  "(NewGeneradorTalonarios env cfg = Inr g \<and> 0 \<le> v \<and> v \<le> NumeroMaximo cfg
     \<longrightarrow> formatearNumero g v
           = replicate (nat (digitosFormato g) - length (Itoa v)) CHR ''0'' @ Itoa v
         \<and> int (length (formatearNumero g v)) = digitosFormato g
         \<and> digitosFormato g = int (length (Itoa (NumeroMaximo cfg))))
   \<and> (NewGeneradorTalonarios env (cfg\<lparr>NumeroMaximo := 9999\<rparr>) = Inr g
     \<longrightarrow> digitosFormato g = 4 \<and> formatearNumero g 7 = ''0007''
         \<and> formatearNumero g 9999 = ''9999'')"
proof (intro conjI impI)
  assume h: "NewGeneradorTalonarios env cfg = Inr g \<and> 0 \<le> v \<and> v \<le> NumeroMaximo cfg"
  then have d: "digitosFormato g = int (length (Itoa (NumeroMaximo cfg)))"
    by (auto dest: NewGeneradorTalonarios_Inr(1))
  from h have "v \<le> NumeroMaximo cfg" by blast
  then have "nat v \<le> nat (NumeroMaximo cfg)" by (rule nat_mono)
  then have "length (digitos (nat v)) \<le> length (digitos (nat (NumeroMaximo cfg)))"
    by (rule length_digitos_mono)
  with h d have le: "int (length (digitos (nat v))) \<le> digitosFormato g"
    by (simp add: Itoa_def)
  from h have iv: "Itoa v = digitos (nat v)" by (simp add: Itoa_def)
  show "formatearNumero g v
           = replicate (nat (digitosFormato g) - length (Itoa v)) CHR ''0'' @ Itoa v"
    using Sprintf_0d_nonneg(1) [OF _ le] h by (simp add: formatearNumero_def iv)
  show "int (length (formatearNumero g v)) = digitosFormato g"
    using Sprintf_0d_nonneg(2) [OF _ le] h by (simp add: formatearNumero_def)
  show "digitosFormato g = int (length (Itoa (NumeroMaximo cfg)))" by (rule d)
next
  assume h: "NewGeneradorTalonarios env (cfg\<lparr>NumeroMaximo := 9999\<rparr>) = Inr g"
  then have d: "digitosFormato g = 4"
    by (auto dest: NewGeneradorTalonarios_Inr(1) simp: Itoa_def digitos.simps)
  then show "digitosFormato g = 4" .
  show "formatearNumero g 7 = ''0007''"
    by (simp add: formatearNumero_def d Sprintf_0d_def Let_def digitos.simps numeral_3_eq_3)
  show "formatearNumero g 9999 = ''9999''"
    by (simp add: formatearNumero_def d Sprintf_0d_def Let_def digitos.simps)
qed

theorem formatearNumero_relleno_witness:
  "NewGeneradorTalonarios entorno_prueba config_main = Inr generador_main
   \<and> (0::int) \<le> 42 \<and> 42 \<le> NumeroMaximo config_main
   \<and> formatearNumero generador_main 42
       = replicate (nat (digitosFormato generador_main) - length (Itoa 42)) CHR ''0'' @ Itoa 42
   \<and> int (length (formatearNumero generador_main 42)) = digitosFormato generador_main
   \<and> digitosFormato generador_main = 4
   \<and> formatearNumero generador_main 7 = ''0007''
   \<and> formatearNumero generador_main 9999 = ''9999''"
proof -
  have c: "config_main\<lparr>NumeroMaximo := 9999\<rparr> = config_main"
    by (simp add: config_main_def)
  have m: "(42::int) \<le> NumeroMaximo config_main" by (simp add: config_main_def)
  have z: "(0::int) \<le> 42" by simp
  show ?thesis
    using formatearNumero_relleno [of entorno_prueba config_main generador_main 42, unfolded c]
      NewGeneradorTalonarios_main m z
    by blast
qed

text \<open>
  Claim C3 as stated fails on a negative value, which a range with a negative minimum
  holds: for the range from -5 to 9 the constructor succeeds with the width 1, and -5 is
  formatted as the two characters \<open>-5\<close>.
\<close>

theorem formatearNumero_negativo:
  "\<not> isl (NewGeneradorTalonarios entorno_prueba
            (config_main\<lparr>NumeroMinimo := - 5, NumeroMaximo := 9, CantidadPaginas := 1\<rparr>))
   \<and> digitosFormato (projr (NewGeneradorTalonarios entorno_prueba
        (config_main\<lparr>NumeroMinimo := - 5, NumeroMaximo := 9, CantidadPaginas := 1\<rparr>))) = 1
   \<and> formatearNumero (projr (NewGeneradorTalonarios entorno_prueba
        (config_main\<lparr>NumeroMinimo := - 5, NumeroMaximo := 9, CantidadPaginas := 1\<rparr>))) (- 5)
       = ''-5''
   \<and> length (formatearNumero (projr (NewGeneradorTalonarios entorno_prueba
        (config_main\<lparr>NumeroMinimo := - 5, NumeroMaximo := 9, CantidadPaginas := 1\<rparr>))) (- 5))
       = 2"
proof -
  have "NewGeneradorTalonarios entorno_prueba
          (config_main\<lparr>NumeroMinimo := - 5, NumeroMaximo := 9, CantidadPaginas := 1\<rparr>)
        = Inr (generador_main
                \<lparr>config := (config generador_main)
                     \<lparr>NumeroMinimo := - 5, NumeroMaximo := 9, CantidadPaginas := 1\<rparr>,
                 digitosFormato := 1\<rparr>)"
    by (simp add: NewGeneradorTalonarios_def validarConfig_def Let_def
        elegirImagen_def elegirFuente_def cargarImagenBase_def cargarFuentePersonalizada_def
        crearCarpeta_def ponerFuente_def int_add_def int_sub_def int_mul_def wrap64_def
        config_main_def entorno_prueba_def generador_inicial_def Itoa_def digitos.simps
        generador_main_def)
  then show ?thesis
    by (simp add: formatearNumero_def Sprintf_0d_def Let_def digitos.simps)
qed

section \<open>The grid of a page\<close>

lemma techo_div:
  fixes n f :: int
  assumes "0 < f"
  shows "\<lceil>real_of_int n / real_of_int f\<rceil> = (n + f - 1) div f"
proof -
  have c: "\<lceil>real_of_int n / real_of_int f\<rceil> = - (- n div f)"
    by (rule ceiling_divide_eq_div)
  have m: "- n div f = (if n mod f = 0 then - (n div f) else - (n div f) - 1)"
    using assms by (simp add: zdiv_zminus1_eq_if)
  have d: "n = f * (n div f) + n mod f" by simp
  show ?thesis
  proof (cases "n mod f = 0")
    case True
    have "(n + f - 1) div f = n div f"
    proof (rule int_div_pos_eq)
      show "n + f - 1 = f * (n div f) + (f - 1)" using d True by linarith
    qed (use assms in simp_all)
    then show ?thesis using c m True by simp
  next
    case False
    have "0 \<le> n mod f" using assms by simp
    with False have r: "0 < n mod f" by linarith
    have "(n + f - 1) div f = n div f + 1"
    proof (rule int_div_pos_eq)
      show "n + f - 1 = f * (n div f + 1) + (n mod f - 1)"
        using d by (simp add: algebra_simps)
      show "0 \<le> n mod f - 1" using r by simp
      show "n mod f - 1 < f" using assms pos_mod_bound [of f n] by linarith
    qed
    then show ?thesis using c m False by simp
  qed
qed

lemma int_sub_conmuta: "int_sub (int_sub a b) c = int_sub (int_sub a c) b"
  by (simp add: int_sub_def wrap64_wrap64_diff algebra_simps)

lemma trunc_quo_nonneg_rem: "0 \<le> a \<Longrightarrow> 0 < b \<Longrightarrow> int_rem a b = a mod b"
  by (simp add: int_rem_def trunc_quo_nonneg minus_mult_div_eq_mod)

lemma int_quo_nonneg: "0 \<le> a \<Longrightarrow> is_int64 a \<Longrightarrow> 0 < b \<Longrightarrow> int_quo a b = a div b"
proof -
  assume a: "0 \<le> a" "is_int64 a" "0 < b"
  have "0 \<le> a div b" using a by (simp add: pos_imp_zdiv_nonneg_iff)
  moreover have "a div b \<le> a" using zdiv_mono2 [of a 1 b] a by simp
  ultimately have "is_int64 (a div b)" using a(2) by (simp add: is_int64_def)
  then show ?thesis using a by (simp add: int_quo_def trunc_quo_nonneg wrap64_id)
qed

text \<open>
  Claim C4, as amended. On a generator whose configuration passes the validation, for a
  page whose ticket count plus \<open>BoletasPorFila - 1\<close> fits in an \<open>int\<close> and an index \<open>i\<close>
  of one of its tickets: the row count is the ceiling of the ticket count over the
  tickets per row and is at least 1; the cell width is the canvas width less the two
  side margins, divided by the tickets per row, and the cell height the canvas height
  less the top and bottom margins, divided by the row count, in the program's
  \<open>int\<close> arithmetic with its truncating division; the origin of ticket \<open>i\<close> is
  \<open>(i mod BoletasPorFila) * cellWidth + MargenIzquierdo\<close> and
  \<open>(i div BoletasPorFila) * cellHeight + MargenSuperior\<close>. For the canvas 1080 by 1920,
  one ticket per row, ten tickets and the margins 610, 440, 50, 50 the rows are 10, the
  cell is 980 by 87, and the bottom edge of the last row exceeds the canvas height less
  the bottom margin by no more than the remainder of the division.
\<close>

theorem geometria_de_pagina:
  "(validarConfig g = None \<and> i < length (Boletas t)
      \<and> is_int64 (int (length (Boletas t)) + BoletasPorFila (config g) - 1)
    \<longrightarrow> filas g t
          = \<lceil>real (length (Boletas t)) / real_of_int (BoletasPorFila (config g))\<rceil>
        \<and> 1 \<le> filas g t
        \<and> anchoBoleta g
          = int_quo (int_sub (int_sub (AnchoTalonario (config g)) (MargenIzquierdo (config g)))
                             (MargenDerecho (config g)))
                    (BoletasPorFila (config g))
        \<and> altoBoleta g t
          = int_quo (int_sub (int_sub (AltoTalonario (config g)) (MargenSuperior (config g)))
                             (MargenInferior (config g)))
                    (filas g t)
        \<and> origenX g (anchoBoleta g) (int i)
          = int_add (int_mul (int i mod BoletasPorFila (config g)) (anchoBoleta g))
                    (MargenIzquierdo (config g))
        \<and> origenY g (altoBoleta g t) (int i)
          = int_add (int_mul (int i div BoletasPorFila (config g)) (altoBoleta g t))
                    (MargenSuperior (config g)))
   \<and> (AnchoTalonario (config g) = 1080 \<and> AltoTalonario (config g) = 1920
      \<and> BoletasPorFila (config g) = 1 \<and> length (Boletas t) = 10
      \<and> MargenSuperior (config g) = 610 \<and> MargenInferior (config g) = 440
      \<and> MargenIzquierdo (config g) = 50 \<and> MargenDerecho (config g) = 50
    \<longrightarrow> filas g t = 10 \<and> anchoBoleta g = 980 \<and> altoBoleta g t = 87
        \<and> origenY g (altoBoleta g t) 9 + altoBoleta g t - (1920 - 440)
            \<le> (1920 - 610 - 440) mod 10)"
proof (intro conjI impI)
  assume h: "validarConfig g = None \<and> i < length (Boletas t)
      \<and> is_int64 (int (length (Boletas t)) + BoletasPorFila (config g) - 1)"
  let ?n = "int (length (Boletas t))" and ?f = "BoletasPorFila (config g)"
  from h have f: "0 < ?f" by (simp add: validarConfig_None_iff)
  from h have il: "int i < ?n" by simp
  then have n: "1 \<le> ?n" by linarith
  from h have r: "is_int64 (?n + ?f - 1)" by blast
  have fl: "filas g t = (?n + ?f - 1) div ?f"
    using f r by (rule filas_exacto)
  show "filas g t = \<lceil>real (length (Boletas t)) / real_of_int ?f\<rceil>"
    using techo_div [OF f, of ?n] fl by simp
  have "?f \<le> ?n + ?f - 1" using n by linarith
  then have "?f div ?f \<le> (?n + ?f - 1) div ?f" using f by (intro zdiv_mono1) simp_all
  then show "1 \<le> filas g t" using f fl by simp
  show "anchoBoleta g
          = int_quo (int_sub (int_sub (AnchoTalonario (config g)) (MargenIzquierdo (config g)))
                             (MargenDerecho (config g))) ?f"
    by (simp add: anchoBoleta_def int_sub_conmuta)
  show "altoBoleta g t
          = int_quo (int_sub (int_sub (AltoTalonario (config g)) (MargenSuperior (config g)))
                             (MargenInferior (config g)))
                    (filas g t)"
    by (simp add: altoBoleta_def)
  show "origenX g (anchoBoleta g) (int i)
          = int_add (int_mul (int i mod ?f) (anchoBoleta g)) (MargenIzquierdo (config g))"
    using f by (simp add: origenX_def trunc_quo_nonneg_rem)
  have "is_int64 (int i)" using il f h by (simp add: is_int64_def)
  then have "int_quo (int i) ?f = int i div ?f" using f by (intro int_quo_nonneg) simp_all
  then show "origenY g (altoBoleta g t) (int i)
          = int_add (int_mul (int i div ?f) (altoBoleta g t)) (MargenSuperior (config g))"
    by (simp add: origenY_def)
next
  assume h: "AnchoTalonario (config g) = 1080 \<and> AltoTalonario (config g) = 1920
      \<and> BoletasPorFila (config g) = 1 \<and> length (Boletas t) = 10
      \<and> MargenSuperior (config g) = 610 \<and> MargenInferior (config g) = 440
      \<and> MargenIzquierdo (config g) = 50 \<and> MargenDerecho (config g) = 50"
  then have a: "filas g t = 10"
    by (simp add: filas_def int_add_def int_sub_def int_quo_def trunc_quo_def wrap64_def)
  then show "filas g t = 10" .
  from h show b: "anchoBoleta g = 980"
    by (simp add: anchoBoleta_def int_add_def int_sub_def int_quo_def trunc_quo_def wrap64_def)
  from h a show c: "altoBoleta g t = 87"
    by (simp add: altoBoleta_def int_add_def int_sub_def int_quo_def trunc_quo_def wrap64_def)
  from h c show "origenY g (altoBoleta g t) 9 + altoBoleta g t - (1920 - 440)
            \<le> (1920 - 610 - 440) mod 10"
    by (simp add: origenY_def int_add_def int_mul_def int_quo_def trunc_quo_def wrap64_def)
qed

theorem geometria_de_pagina_witness:
  "validarConfig generador_main = None
   \<and> filas generador_main \<lparr>ID = 1, Boletas = replicate 10 Boleta_cero\<rparr> = 10
   \<and> anchoBoleta generador_main = 980
   \<and> altoBoleta generador_main \<lparr>ID = 1, Boletas = replicate 10 Boleta_cero\<rparr> = 87
   \<and> origenX generador_main 980 9 = 50
   \<and> origenY generador_main 87 9 = 1393"
proof -
  let ?t = "\<lparr>ID = 1, Boletas = replicate 10 Boleta_cero\<rparr>"
  have v: "validarConfig generador_main = None"
    by (simp add: validarConfig_def Let_def generador_main_def config_main_def int_add_def
        int_sub_def int_mul_def wrap64_def)
  have c: "AnchoTalonario (config generador_main) = 1080 \<and> AltoTalonario (config generador_main) = 1920
      \<and> BoletasPorFila (config generador_main) = 1 \<and> length (Boletas ?t) = 10
      \<and> MargenSuperior (config generador_main) = 610 \<and> MargenInferior (config generador_main) = 440
      \<and> MargenIzquierdo (config generador_main) = 50 \<and> MargenDerecho (config generador_main) = 50"
    by (simp add: generador_main_def config_main_def)
  have i: "(9::nat) < length (Boletas ?t)
      \<and> is_int64 (int (length (Boletas ?t)) + BoletasPorFila (config generador_main) - 1)"
    by (simp add: generador_main_def config_main_def is_int64_def)
  from geometria_de_pagina [of generador_main 9 ?t] v c i
  have a: "filas generador_main ?t = 10" "anchoBoleta generador_main = 980"
      "altoBoleta generador_main ?t = 87"
    and x: "origenX generador_main (anchoBoleta generador_main) (int 9)
          = int_add (int_mul (int 9 mod BoletasPorFila (config generador_main)) (anchoBoleta generador_main))
                    (MargenIzquierdo (config generador_main))"
    and y: "origenY generador_main (altoBoleta generador_main ?t) (int 9)
          = int_add (int_mul (int 9 div BoletasPorFila (config generador_main)) (altoBoleta generador_main ?t))
                    (MargenSuperior (config generador_main))"
    by blast+
  from x y a c have "origenX generador_main 980 9 = 50" "origenY generador_main 87 9 = 1393"
    by (simp_all add: int_add_def int_mul_def wrap64_def)
  with v a show ?thesis by simp
qed

text \<open>
  Claim C4 as stated fails where the sum in the row count overflows: with \<open>2^63 - 1\<close>
  tickets per row, which the validation accepts, a page of two tickets gets the row count
  -1, and the ceiling of 2 over \<open>2^63 - 1\<close> is 1.
\<close>

theorem filas_desbordadas:
  "validarConfig (generador_inicial
      (config_main\<lparr>BoletasPorFila := 9223372036854775807, BoletasPorPagina := 2\<rparr>)) = None
   \<and> filas (generador_inicial
        (config_main\<lparr>BoletasPorFila := 9223372036854775807, BoletasPorPagina := 2\<rparr>))
        \<lparr>ID = 1, Boletas = [Boleta_cero, Boleta_cero]\<rparr> = - 1
   \<and> \<lceil>real (length (Boletas \<lparr>ID = 1, Boletas = [Boleta_cero, Boleta_cero]\<rparr>))
        / real_of_int (BoletasPorFila
            (config_main\<lparr>BoletasPorFila := 9223372036854775807, BoletasPorPagina := 2\<rparr>))\<rceil>
      = (1::int)"
  by (simp add: validarConfig_def Let_def config_main_def int_add_def int_sub_def
      int_mul_def wrap64_def filas_def int_quo_def trunc_quo_def)

section \<open>The text anchor of a ticket\<close>

text \<open>
  Claim C8. \<open>dibujarBoleta\<close> draws the border of the cell and then the text of the ticket
  with \<open>dibujarTexto\<close> at the horizontal anchor \<open>x + anchoCaracter\<close> when the
  orientation is 0 (left), \<open>x + ancho/2 - anchoCaracter*digitosFormato/2\<close> when it is 1
  (centre), and \<open>x + ancho/BoletasPorFila - anchoCaracter*(digitosFormato+1)\<close> when it is
  2 (right), where \<open>anchoCaracter\<close> is the measured advance of the character \<open>0\<close>; the
  operations are those of the program's \<open>int\<close>. The division by \<open>BoletasPorFila\<close> is
  the one that a zero value, which the validation excludes, would turn into a panic.
\<close>

theorem dibujarBoleta_ancla_texto:
  "(OrientacionBoletas (config g) = 0
     \<longrightarrow> dibujarBoleta g img b x y ancho alto
         = Inr (dibujarTexto g (dibujarRectangulo g img x y ancho alto (ColorBorde (config g)))
                  (Formateado b)
                  (int_add x (avance_cero (Fuente (config g))))
                  (int_add y (int_quo alto 2)) (ColorTexto (config g))))
   \<and> (OrientacionBoletas (config g) = 1
     \<longrightarrow> dibujarBoleta g img b x y ancho alto
         = Inr (dibujarTexto g (dibujarRectangulo g img x y ancho alto (ColorBorde (config g)))
                  (Formateado b)
                  (int_sub (int_add x (int_quo ancho 2))
                           (int_quo (int_mul (avance_cero (Fuente (config g)))
                                             (digitosFormato g)) 2))
                  (int_add y (int_quo alto 2)) (ColorTexto (config g))))
   \<and> (OrientacionBoletas (config g) = 2 \<and> BoletasPorFila (config g) \<noteq> 0
     \<longrightarrow> dibujarBoleta g img b x y ancho alto
         = Inr (dibujarTexto g (dibujarRectangulo g img x y ancho alto (ColorBorde (config g)))
                  (Formateado b)
                  (int_sub (int_add x (int_quo ancho (BoletasPorFila (config g))))
                           (int_mul (avance_cero (Fuente (config g)))
                                    (int_add (digitosFormato g) 1)))
                  (int_add y (int_quo alto 2)) (ColorTexto (config g))))"
  by (simp add: dibujarBoleta_def Let_def)

theorem dibujarBoleta_ancla_texto_witness:
  "dibujarBoleta generador_main lienzo_prueba \<lparr>Numero = 7, Formateado = ''0007''\<rparr> 50 610 980 87
     = Inr (dibujarTexto generador_main
              (dibujarRectangulo generador_main lienzo_prueba 50 610 980 87
                 (RGBA 248 220 191 255))
              ''0007'' 57 653 (RGBA 248 220 191 255))
   \<and> dibujarBoleta (generador_main\<lparr>config := (config generador_main)\<lparr>OrientacionBoletas := 1\<rparr>\<rparr>)
        lienzo_prueba \<lparr>Numero = 7, Formateado = ''0007''\<rparr> 50 610 980 87
     = Inr (dibujarTexto
              (generador_main\<lparr>config := (config generador_main)\<lparr>OrientacionBoletas := 1\<rparr>\<rparr>)
              (dibujarRectangulo
                 (generador_main\<lparr>config := (config generador_main)\<lparr>OrientacionBoletas := 1\<rparr>\<rparr>)
                 lienzo_prueba 50 610 980 87 (RGBA 248 220 191 255))
              ''0007'' 526 653 (RGBA 248 220 191 255))
   \<and> dibujarBoleta (generador_main\<lparr>config := (config generador_main)\<lparr>OrientacionBoletas := 2\<rparr>\<rparr>)
        lienzo_prueba \<lparr>Numero = 7, Formateado = ''0007''\<rparr> 50 610 980 87
     = Inr (dibujarTexto
              (generador_main\<lparr>config := (config generador_main)\<lparr>OrientacionBoletas := 2\<rparr>\<rparr>)
              (dibujarRectangulo
                 (generador_main\<lparr>config := (config generador_main)\<lparr>OrientacionBoletas := 2\<rparr>\<rparr>)
                 lienzo_prueba 50 610 980 87 (RGBA 248 220 191 255))
              ''0007'' 995 653 (RGBA 248 220 191 255))"
  using dibujarBoleta_ancla_texto [of generador_main lienzo_prueba
          "\<lparr>Numero = 7, Formateado = ''0007''\<rparr>" 50 610 980 87]
    dibujarBoleta_ancla_texto
      [of "generador_main\<lparr>config := (config generador_main)\<lparr>OrientacionBoletas := 1\<rparr>\<rparr>"
          lienzo_prueba "\<lparr>Numero = 7, Formateado = ''0007''\<rparr>" 50 610 980 87]
    dibujarBoleta_ancla_texto
      [of "generador_main\<lparr>config := (config generador_main)\<lparr>OrientacionBoletas := 2\<rparr>\<rparr>"
          lienzo_prueba "\<lparr>Numero = 7, Formateado = ''0007''\<rparr>" 50 610 980 87]
  by (simp add: generador_main_def config_main_def Face7x13_def int_add_def int_sub_def
      int_mul_def int_quo_def trunc_quo_def wrap64_def)

section \<open>Borders and rule\<close>

lemma Rect_Set_px [simp]: "Rect (Set_px img x y c) = Rect img"
  by (simp add: Set_px_def)

lemma Pix_Set_px:
  "Pix (Set_px img x y c) p = (if In_rect x y (Rect img) \<and> p = (x, y) then c else Pix img p)"
  by (simp add: Set_px_def)

text \<open>
  A loop whose every step keeps the rectangle and paints a set of points with one
  colour keeps the rectangle and paints the union of the sets.
\<close>

lemma foldl_pinta:
  assumes "\<And>im t. t \<in> set ts \<Longrightarrow>
             Rect (f im t) = Rect im
             \<and> (\<forall>p. Pix (f im t) p = (if cub (Rect im) t p then col else Pix im p))"
  shows "Rect (foldl f img ts) = Rect img
         \<and> (\<forall>p. Pix (foldl f img ts) p
                  = (if \<exists>t\<in>set ts. cub (Rect img) t p then col else Pix img p))"
  using assms
proof (induction ts arbitrary: img)
  case Nil
  then show ?case by simp
next
  case (Cons t ts)
  have "t \<in> set (t # ts)" by simp
  from Cons.prems [OF this, of img]
  have s: "Rect (f img t) = Rect img"
    and q: "\<And>p. Pix (f img t) p = (if cub (Rect img) t p then col else Pix img p)"
    by blast+
  have ih: "Rect (foldl f (f img t) ts) = Rect (f img t)
         \<and> (\<forall>p. Pix (foldl f (f img t) ts) p
                  = (if \<exists>u\<in>set ts. cub (Rect (f img t)) u p then col else Pix (f img t) p))"
    by (rule Cons.IH) (simp add: Cons.prems)
  show ?case using ih s q by auto
qed

lemma trazoLinea_pinta:
  "Rect (trazoLinea img px y col ks) = Rect img
   \<and> (\<forall>p. Pix (trazoLinea img px y col ks) p
           = (if \<exists>k\<in>set ks. In_rect px (int_add y k) (Rect img) \<and> p = (px, int_add y k)
              then col else Pix img p))"
  unfolding trazoLinea_def
  by (rule foldl_pinta) (auto simp: Pix_Set_px In_rect_def)

lemma trazoInferior_pinta:
  "Rect (trazoInferior img px y alto col ks) = Rect img
   \<and> (\<forall>p. Pix (trazoInferior img px y alto col ks) p
           = (if \<exists>k\<in>set ks. In_rect px (int_sub (int_sub (int_add y alto) 1) k) (Rect img)
                              \<and> p = (px, int_sub (int_sub (int_add y alto) 1) k)
              then col else Pix img p))"
  unfolding trazoInferior_def
  by (rule foldl_pinta) (auto simp: Pix_Set_px In_rect_def)

lemma trazoIzquierdo_pinta:
  "Rect (trazoIzquierdo img x py col ks) = Rect img
   \<and> (\<forall>p. Pix (trazoIzquierdo img x py col ks) p
           = (if \<exists>k\<in>set ks. In_rect (int_add x k) py (Rect img) \<and> p = (int_add x k, py)
              then col else Pix img p))"
  unfolding trazoIzquierdo_def
  by (rule foldl_pinta) (auto simp: Pix_Set_px In_rect_def)

lemma trazoDerecho_pinta:
  "Rect (trazoDerecho img x ancho py col ks) = Rect img
   \<and> (\<forall>p. Pix (trazoDerecho img x ancho py col ks) p
           = (if \<exists>k\<in>set ks. In_rect (int_sub (int_sub (int_add x ancho) 1) k) py (Rect img)
                              \<and> p = (int_sub (int_sub (int_add x ancho) 1) k, py)
              then col else Pix img p))"
  unfolding trazoDerecho_def
  by (rule foldl_pinta) (auto simp: Pix_Set_px In_rect_def)

lemma bex_par:
  "(\<exists>i\<in>S. \<exists>k\<in>T. P (a i k) (b i k) \<and> p = (a i k, b i k))
     \<longleftrightarrow> (P (fst p) (snd p) \<and> (\<exists>i\<in>S. \<exists>k\<in>T. p = (a i k, b i k)))"
  by (cases p) fastforce

lemma en_puntos_linea:
  "p \<in> set (puntos_linea x y largo grosor)
     \<longleftrightarrow> (\<exists>i\<in>set [0..largo - 1]. \<exists>k\<in>set [0..grosor - 1]. p = (int_add x i, int_add y k))"
  unfolding puntos_linea_def by auto

lemma en_puntos_inferior:
  "p \<in> set (puntos_inferior x y ancho alto grosor)
     \<longleftrightarrow> (\<exists>i\<in>set [0..ancho - 1]. \<exists>k\<in>set [0..grosor - 1].
            p = (int_add x i, int_sub (int_sub (int_add y alto) 1) k))"
  unfolding puntos_inferior_def by auto

lemma en_puntos_izquierdo:
  "p \<in> set (puntos_izquierdo x y alto grosor)
     \<longleftrightarrow> (\<exists>i\<in>set [0..alto - 1]. \<exists>k\<in>set [0..grosor - 1]. p = (int_add x k, int_add y i))"
  unfolding puntos_izquierdo_def by auto

lemma en_puntos_derecho:
  "p \<in> set (puntos_derecho x y ancho alto grosor)
     \<longleftrightarrow> (\<exists>i\<in>set [0..alto - 1]. \<exists>k\<in>set [0..grosor - 1].
            p = (int_sub (int_sub (int_add x ancho) 1) k, int_add y i))"
  unfolding puntos_derecho_def by auto

lemma dibujarLineaSuperior_pinta:
  "Rect (dibujarLineaSuperior g img x y col) = Rect img
   \<and> (\<forall>p. Pix (dibujarLineaSuperior g img x y col) p
           = (if In_rect (fst p) (snd p) (Rect img)
                 \<and> p \<in> set (puntos_linea x y
                       (int_sub (int_sub (AnchoTalonario (config g)) (MargenIzquierdo (config g)))
                                (MargenDerecho (config g)))
                       (AnchoLineas (config g)))
              then col else Pix img p))"
proof -
  let ?L = "AnchoLineas (config g)"
  let ?n = "int_sub (int_sub (AnchoTalonario (config g)) (MargenIzquierdo (config g)))
                                (MargenDerecho (config g))"
  have "Rect (dibujarLineaSuperior g img x y col) = Rect img
     \<and> (\<forall>p. Pix (dibujarLineaSuperior g img x y col) p
           = (if \<exists>i\<in>set [0..?n - 1]. \<exists>k\<in>set [0..?L - 1].
                    In_rect (int_add x i) (int_add y k) (Rect img) \<and> p = (int_add x i, int_add y k)
              then col else Pix img p))"
    unfolding dibujarLineaSuperior_def
    by (rule foldl_pinta) (use trazoLinea_pinta in \<open>auto simp: In_rect_def\<close>)
  then show ?thesis
    unfolding en_puntos_linea
      bex_par [where P = "\<lambda>u v. In_rect u v (Rect img)" and a = "\<lambda>i k. int_add x i"
                 and b = "\<lambda>i k. int_add y k"]
    by simp
qed

lemma dibujarRectangulo_pinta:
  "Rect (dibujarRectangulo g img x y ancho alto col) = Rect img
   \<and> (\<forall>p. Pix (dibujarRectangulo g img x y ancho alto col) p
           = (if In_rect (fst p) (snd p) (Rect img)
                 \<and> p \<in> set (puntos_rectangulo x y ancho alto (AnchoLineas (config g)))
              then col else Pix img p))"
proof -
  let ?L = "AnchoLineas (config g)"
  let ?R = "Rect img"
  let ?img1 = "foldl (\<lambda>im i.
                 if X (RMax (Rect im)) \<le> int_add x i then im
                 else trazoInferior im (int_add x i) y alto col [0..?L - 1])
              img [0..ancho - 1]"
  have a: "Rect ?img1 = ?R
     \<and> (\<forall>p. Pix ?img1 p
           = (if \<exists>i\<in>set [0..ancho - 1]. \<exists>k\<in>set [0..?L - 1].
                    In_rect (int_add x i) (int_sub (int_sub (int_add y alto) 1) k) ?R
                    \<and> p = (int_add x i, int_sub (int_sub (int_add y alto) 1) k)
              then col else Pix img p))"
    by (rule foldl_pinta) (use trazoInferior_pinta in \<open>auto simp: In_rect_def\<close>)
  have b: "Rect (dibujarRectangulo g img x y ancho alto col) = Rect ?img1
     \<and> (\<forall>p. Pix (dibujarRectangulo g img x y ancho alto col) p
           = (if \<exists>i\<in>set [0..alto - 1].
                    (\<exists>k\<in>set [0..?L - 1]. In_rect (int_add x k) (int_add y i) (Rect ?img1)
                         \<and> p = (int_add x k, int_add y i))
                  \<or> (\<exists>k\<in>set [0..?L - 1].
                         In_rect (int_sub (int_sub (int_add x ancho) 1) k) (int_add y i) (Rect ?img1)
                         \<and> p = (int_sub (int_sub (int_add x ancho) 1) k, int_add y i))
              then col else Pix ?img1 p))"
    unfolding dibujarRectangulo_def
    by (rule foldl_pinta)
       (use trazoIzquierdo_pinta trazoDerecho_pinta in \<open>auto simp: In_rect_def\<close>)
  from a have r1: "Rect ?img1 = ?R" by blast
  show ?thesis
  proof (intro conjI allI)
    show "Rect (dibujarRectangulo g img x y ancho alto col) = Rect img"
      using b r1 by simp
  next
    fix p
    have inf: "(\<exists>i\<in>set [0..ancho - 1]. \<exists>k\<in>set [0..?L - 1].
                    In_rect (int_add x i) (int_sub (int_sub (int_add y alto) 1) k) ?R
                    \<and> p = (int_add x i, int_sub (int_sub (int_add y alto) 1) k))
          \<longleftrightarrow> (In_rect (fst p) (snd p) ?R \<and> p \<in> set (puntos_inferior x y ancho alto ?L))"
      unfolding en_puntos_inferior by (rule bex_par)
    have izq: "(\<exists>i\<in>set [0..alto - 1]. \<exists>k\<in>set [0..?L - 1].
                    In_rect (int_add x k) (int_add y i) ?R \<and> p = (int_add x k, int_add y i))
          \<longleftrightarrow> (In_rect (fst p) (snd p) ?R \<and> p \<in> set (puntos_izquierdo x y alto ?L))"
      unfolding en_puntos_izquierdo by (rule bex_par)
    have der: "(\<exists>i\<in>set [0..alto - 1]. \<exists>k\<in>set [0..?L - 1].
                    In_rect (int_sub (int_sub (int_add x ancho) 1) k) (int_add y i) ?R
                    \<and> p = (int_sub (int_sub (int_add x ancho) 1) k, int_add y i))
          \<longleftrightarrow> (In_rect (fst p) (snd p) ?R \<and> p \<in> set (puntos_derecho x y ancho alto ?L))"
      unfolding en_puntos_derecho by (rule bex_par)
    have lados: "(\<exists>i\<in>set [0..alto - 1].
                    (\<exists>k\<in>set [0..?L - 1]. In_rect (int_add x k) (int_add y i) ?R
                         \<and> p = (int_add x k, int_add y i))
                  \<or> (\<exists>k\<in>set [0..?L - 1].
                         In_rect (int_sub (int_sub (int_add x ancho) 1) k) (int_add y i) ?R
                         \<and> p = (int_sub (int_sub (int_add x ancho) 1) k, int_add y i)))
          \<longleftrightarrow> (In_rect (fst p) (snd p) ?R
               \<and> (p \<in> set (puntos_izquierdo x y alto ?L)
                    \<or> p \<in> set (puntos_derecho x y ancho alto ?L)))"
      using izq der by blast
    from a have pa: "Pix ?img1 p
           = (if In_rect (fst p) (snd p) ?R \<and> p \<in> set (puntos_inferior x y ancho alto ?L)
              then col else Pix img p)"
      unfolding inf [symmetric] by blast
    from b have pb: "Pix (dibujarRectangulo g img x y ancho alto col) p
           = (if In_rect (fst p) (snd p) ?R
               \<and> (p \<in> set (puntos_izquierdo x y alto ?L)
                    \<or> p \<in> set (puntos_derecho x y ancho alto ?L))
              then col else Pix ?img1 p)"
      unfolding r1 lados [symmetric] by blast
    show "Pix (dibujarRectangulo g img x y ancho alto col) p
           = (if In_rect (fst p) (snd p) (Rect img)
                 \<and> p \<in> set (puntos_rectangulo x y ancho alto (AnchoLineas (config g)))
              then col else Pix img p)"
      unfolding pb pa puntos_rectangulo_def by auto
  qed
qed

text \<open>
  Claim C6. \<open>dibujarRectangulo\<close> and \<open>dibujarLineaSuperior\<close> are total: they have no
  error return and no operation that panics, since every write goes through \<open>Set\<close>,
  which ignores a point outside the image. For every image and all coordinates, sizes
  and stroke widths, both keep the rectangle of the image; a pixel outside the image
  is not written; a pixel that the strokes do not address keeps its colour; and a pixel
  of the image that the strokes address gets the stroke colour, whatever part of the
  strokes falls outside.
\<close>

theorem dibujo_recortado:
  "Rect (dibujarRectangulo g img x y ancho alto col) = Rect img
   \<and> Rect (dibujarLineaSuperior g img x y col) = Rect img
   \<and> (\<forall>p. \<not> In_rect (fst p) (snd p) (Rect img)
          \<longrightarrow> Pix (dibujarRectangulo g img x y ancho alto col) p = Pix img p
            \<and> Pix (dibujarLineaSuperior g img x y col) p = Pix img p)
   \<and> (\<forall>p. p \<notin> set (puntos_rectangulo x y ancho alto (AnchoLineas (config g)))
          \<longrightarrow> Pix (dibujarRectangulo g img x y ancho alto col) p = Pix img p)
   \<and> (\<forall>p. p \<notin> set (puntos_linea x y
                       (int_sub (int_sub (AnchoTalonario (config g)) (MargenIzquierdo (config g)))
                                (MargenDerecho (config g)))
                       (AnchoLineas (config g)))
          \<longrightarrow> Pix (dibujarLineaSuperior g img x y col) p = Pix img p)
   \<and> (\<forall>p. In_rect (fst p) (snd p) (Rect img)
          \<and> p \<in> set (puntos_rectangulo x y ancho alto (AnchoLineas (config g)))
          \<longrightarrow> Pix (dibujarRectangulo g img x y ancho alto col) p = col)
   \<and> (\<forall>p. In_rect (fst p) (snd p) (Rect img)
          \<and> p \<in> set (puntos_linea x y
                       (int_sub (int_sub (AnchoTalonario (config g)) (MargenIzquierdo (config g)))
                                (MargenDerecho (config g)))
                       (AnchoLineas (config g)))
          \<longrightarrow> Pix (dibujarLineaSuperior g img x y col) p = col)"
  using dibujarRectangulo_pinta [of g img x y ancho alto col]
    dibujarLineaSuperior_pinta [of g img x y col]
  by simp

theorem dibujo_recortado_witness:
  "Rect (dibujarRectangulo generador_chico lienzo_prueba 5 3 6 6 (RGBA 255 255 255 255))
     = Rect lienzo_prueba
   \<and> Rect (dibujarLineaSuperior generador_chico lienzo_prueba 5 3 (RGBA 255 255 255 255))
     = Rect lienzo_prueba
   \<and> Pix (dibujarRectangulo generador_chico lienzo_prueba 5 3 6 6 (RGBA 255 255 255 255)) (9, 4)
     = Pix lienzo_prueba (9, 4)
   \<and> Pix (dibujarLineaSuperior generador_chico lienzo_prueba 5 3 (RGBA 255 255 255 255)) (9, 4)
     = Pix lienzo_prueba (9, 4)
   \<and> Pix (dibujarRectangulo generador_chico lienzo_prueba 5 3 6 6 (RGBA 255 255 255 255)) (7, 4)
     = Pix lienzo_prueba (7, 4)
   \<and> Pix (dibujarLineaSuperior generador_chico lienzo_prueba 5 3 (RGBA 255 255 255 255)) (4, 3)
     = Pix lienzo_prueba (4, 3)
   \<and> Pix (dibujarRectangulo generador_chico lienzo_prueba 5 3 6 6 (RGBA 255 255 255 255)) (5, 4)
     = RGBA 255 255 255 255
   \<and> Pix (dibujarLineaSuperior generador_chico lienzo_prueba 5 3 (RGBA 255 255 255 255)) (7, 4)
     = RGBA 255 255 255 255"
proof -
  let ?c = "RGBA 255 255 255 255"
  note t = dibujo_recortado [of generador_chico lienzo_prueba 5 3 6 6 ?c]
  have L: "AnchoLineas (config generador_chico) = 2"
    and n: "int_sub (int_sub (AnchoTalonario (config generador_chico))
                             (MargenIzquierdo (config generador_chico)))
                    (MargenDerecho (config generador_chico)) = 6"
    by (simp_all add: generador_chico_def int_sub_def wrap64_def)
  have fuera: "\<not> In_rect (fst (9, 4)) (snd (9, 4)) (Rect lienzo_prueba)"
    by (simp add: In_rect_def lienzo_prueba_def image_Rect_def Pt_def)
  have dentro: "In_rect (fst (5, 4)) (snd (5, 4)) (Rect lienzo_prueba)"
      "In_rect (fst (7, 4)) (snd (7, 4)) (Rect lienzo_prueba)"
    by (simp_all add: In_rect_def lienzo_prueba_def image_Rect_def Pt_def)
  have r: "(7, 4) \<notin> set (puntos_rectangulo 5 3 6 6 2)"
      "(5, 4) \<in> set (puntos_rectangulo 5 3 6 6 2)"
    by (simp_all add: puntos_rectangulo_def puntos_inferior_def puntos_izquierdo_def
        puntos_derecho_def upto.simps int_add_def int_sub_def wrap64_def)
  have l: "(4, 3) \<notin> set (puntos_linea 5 3 6 2)" "(7, 4) \<in> set (puntos_linea 5 3 6 2)"
    by (simp_all add: puntos_linea_def upto.simps int_add_def wrap64_def)
  from t fuera dentro r l show ?thesis unfolding L n by blast
qed

section \<open>The strokes of a cell border\<close>

lemma int_add_exacto: "is_int64 (a + b) \<Longrightarrow> int_add a b = a + b"
  by (simp add: int_add_def wrap64_id)

lemma int_sub_exacto: "is_int64 (a - b) \<Longrightarrow> int_sub a b = a - b"
  by (simp add: int_sub_def wrap64_id)

lemma en_puntos_inferior_exacto:
  assumes "pequeno x" "pequeno y" "pequeno ancho" "pequeno alto" "pequeno grosor"
  shows "(px, py) \<in> set (puntos_inferior x y ancho alto grosor)
           \<longleftrightarrow> (x \<le> px \<and> px < x + ancho \<and> y + alto - grosor \<le> py \<and> py < y + alto)"
proof
  assume "(px, py) \<in> set (puntos_inferior x y ancho alto grosor)"
  then obtain i k where i: "0 \<le> i" "i < ancho" and k: "0 \<le> k" "k < grosor"
    and p: "px = int_add x i" "py = int_sub (int_sub (int_add y alto) 1) k"
    unfolding en_puntos_inferior by auto
  have "int_add x i = x + i"
    using assms i by (intro int_add_exacto) (simp add: is_int64_def pequeno_def)
  moreover have "int_add y alto = y + alto"
    using assms by (intro int_add_exacto) (simp add: is_int64_def pequeno_def)
  moreover have "int_sub (y + alto) 1 = y + alto - 1"
    using assms by (intro int_sub_exacto) (simp add: is_int64_def pequeno_def)
  moreover have "int_sub (y + alto - 1) k = y + alto - 1 - k"
    using assms k by (intro int_sub_exacto) (simp add: is_int64_def pequeno_def)
  ultimately show "x \<le> px \<and> px < x + ancho \<and> y + alto - grosor \<le> py \<and> py < y + alto"
    using p i k by simp
next
  assume h: "x \<le> px \<and> px < x + ancho \<and> y + alto - grosor \<le> py \<and> py < y + alto"
  let ?i = "px - x" and ?k = "y + alto - 1 - py"
  have "int_add x ?i = px"
    using assms h by (subst int_add_exacto) (simp_all add: is_int64_def pequeno_def)
  moreover have "int_add y alto = y + alto"
    using assms by (intro int_add_exacto) (simp add: is_int64_def pequeno_def)
  moreover have "int_sub (y + alto) 1 = y + alto - 1"
    using assms by (intro int_sub_exacto) (simp add: is_int64_def pequeno_def)
  moreover have "int_sub (y + alto - 1) ?k = py"
    using assms h by (subst int_sub_exacto) (simp_all add: is_int64_def pequeno_def)
  moreover have "?i \<in> set [0..ancho - 1]" "?k \<in> set [0..grosor - 1]" using h by simp_all
  ultimately show "(px, py) \<in> set (puntos_inferior x y ancho alto grosor)"
    unfolding en_puntos_inferior by (metis (no_types, lifting))
qed

lemma en_puntos_izquierdo_exacto:
  assumes "pequeno x" "pequeno y" "pequeno alto" "pequeno grosor"
  shows "(px, py) \<in> set (puntos_izquierdo x y alto grosor)
           \<longleftrightarrow> (x \<le> px \<and> px < x + grosor \<and> y \<le> py \<and> py < y + alto)"
proof
  assume "(px, py) \<in> set (puntos_izquierdo x y alto grosor)"
  then obtain i k where i: "0 \<le> i" "i < alto" and k: "0 \<le> k" "k < grosor"
    and p: "px = int_add x k" "py = int_add y i"
    unfolding en_puntos_izquierdo by auto
  have "int_add x k = x + k"
    using assms k by (intro int_add_exacto) (simp add: is_int64_def pequeno_def)
  moreover have "int_add y i = y + i"
    using assms i by (intro int_add_exacto) (simp add: is_int64_def pequeno_def)
  ultimately show "x \<le> px \<and> px < x + grosor \<and> y \<le> py \<and> py < y + alto"
    using p i k by simp
next
  assume h: "x \<le> px \<and> px < x + grosor \<and> y \<le> py \<and> py < y + alto"
  let ?i = "py - y" and ?k = "px - x"
  have "int_add x ?k = px"
    using assms h by (subst int_add_exacto) (simp_all add: is_int64_def pequeno_def)
  moreover have "int_add y ?i = py"
    using assms h by (subst int_add_exacto) (simp_all add: is_int64_def pequeno_def)
  moreover have "?i \<in> set [0..alto - 1]" "?k \<in> set [0..grosor - 1]" using h by simp_all
  ultimately show "(px, py) \<in> set (puntos_izquierdo x y alto grosor)"
    unfolding en_puntos_izquierdo by (metis (no_types, lifting))
qed

lemma en_puntos_derecho_exacto:
  assumes "pequeno x" "pequeno y" "pequeno ancho" "pequeno alto" "pequeno grosor"
  shows "(px, py) \<in> set (puntos_derecho x y ancho alto grosor)
           \<longleftrightarrow> (x + ancho - grosor \<le> px \<and> px < x + ancho \<and> y \<le> py \<and> py < y + alto)"
proof
  assume "(px, py) \<in> set (puntos_derecho x y ancho alto grosor)"
  then obtain i k where i: "0 \<le> i" "i < alto" and k: "0 \<le> k" "k < grosor"
    and p: "px = int_sub (int_sub (int_add x ancho) 1) k" "py = int_add y i"
    unfolding en_puntos_derecho by auto
  have "int_add x ancho = x + ancho"
    using assms by (intro int_add_exacto) (simp add: is_int64_def pequeno_def)
  moreover have "int_sub (x + ancho) 1 = x + ancho - 1"
    using assms by (intro int_sub_exacto) (simp add: is_int64_def pequeno_def)
  moreover have "int_sub (x + ancho - 1) k = x + ancho - 1 - k"
    using assms k by (intro int_sub_exacto) (simp add: is_int64_def pequeno_def)
  moreover have "int_add y i = y + i"
    using assms i by (intro int_add_exacto) (simp add: is_int64_def pequeno_def)
  ultimately show "x + ancho - grosor \<le> px \<and> px < x + ancho \<and> y \<le> py \<and> py < y + alto"
    using p i k by simp
next
  assume h: "x + ancho - grosor \<le> px \<and> px < x + ancho \<and> y \<le> py \<and> py < y + alto"
  let ?i = "py - y" and ?k = "x + ancho - 1 - px"
  have "int_add x ancho = x + ancho"
    using assms by (intro int_add_exacto) (simp add: is_int64_def pequeno_def)
  moreover have "int_sub (x + ancho) 1 = x + ancho - 1"
    using assms by (intro int_sub_exacto) (simp add: is_int64_def pequeno_def)
  moreover have "int_sub (x + ancho - 1) ?k = px"
    using assms h by (subst int_sub_exacto) (simp_all add: is_int64_def pequeno_def)
  moreover have "int_add y ?i = py"
    using assms h by (subst int_add_exacto) (simp_all add: is_int64_def pequeno_def)
  moreover have "?i \<in> set [0..alto - 1]" "?k \<in> set [0..grosor - 1]" using h by simp_all
  ultimately show "(px, py) \<in> set (puntos_derecho x y ancho alto grosor)"
    unfolding en_puntos_derecho by (metis (no_types, lifting))
qed

text \<open>
  Claim C5, as amended. For coordinates, sizes and a stroke width below \<open>2^61\<close> in
  magnitude, \<open>dibujarRectangulo\<close> paints, of the pixels of the image, exactly those of
  three strokes of the width \<open>AnchoLineas\<close>: along the bottom edge of the cell, along
  its left edge and along its right edge; a pixel of a stroke outside the image is
  skipped and every other pixel keeps its colour. It draws no stroke along the top edge
  (the top of the grid is the rule of \<open>dibujarLineaSuperior\<close>).
\<close>

theorem dibujarRectangulo_tres_trazos:
  assumes "pequeno x" and "pequeno y" and "pequeno ancho" and "pequeno alto"
    and "pequeno (AnchoLineas (config g))"
  shows "Rect (dibujarRectangulo g img x y ancho alto col) = Rect img
    \<and> Pix (dibujarRectangulo g img x y ancho alto col) (px, py)
      = (if In_rect px py (Rect img)
            \<and> (x \<le> px \<and> px < x + ancho
                 \<and> y + alto - AnchoLineas (config g) \<le> py \<and> py < y + alto
               \<or> x \<le> px \<and> px < x + AnchoLineas (config g) \<and> y \<le> py \<and> py < y + alto
               \<or> x + ancho - AnchoLineas (config g) \<le> px \<and> px < x + ancho
                 \<and> y \<le> py \<and> py < y + alto)
         then col else Pix img (px, py))"
proof -
  have "(px, py) \<in> set (puntos_rectangulo x y ancho alto (AnchoLineas (config g)))
     \<longleftrightarrow> (x \<le> px \<and> px < x + ancho
                 \<and> y + alto - AnchoLineas (config g) \<le> py \<and> py < y + alto
               \<or> x \<le> px \<and> px < x + AnchoLineas (config g) \<and> y \<le> py \<and> py < y + alto
               \<or> x + ancho - AnchoLineas (config g) \<le> px \<and> px < x + ancho
                 \<and> y \<le> py \<and> py < y + alto)"
    using assms
    by (simp add: puntos_rectangulo_def en_puntos_inferior_exacto en_puntos_izquierdo_exacto
        en_puntos_derecho_exacto)
  then show ?thesis using dibujarRectangulo_pinta [of g img x y ancho alto col] by simp
qed

theorem dibujarRectangulo_tres_trazos_witness:
  "pequeno 1 \<and> pequeno 5 \<and> pequeno 4
   \<and> Rect (dibujarRectangulo generador_chico lienzo_prueba 1 1 5 4 (RGBA 255 255 255 255))
      = Rect lienzo_prueba
   \<and> Pix (dibujarRectangulo generador_chico lienzo_prueba 1 1 5 4 (RGBA 255 255 255 255)) (2, 2)
      = RGBA 255 255 255 255
   \<and> Pix (dibujarRectangulo generador_chico lienzo_prueba 1 1 5 4 (RGBA 255 255 255 255)) (3, 2)
      = RGBA 0 0 0 255"
  using dibujarRectangulo_tres_trazos [of 1 1 5 4 generador_chico lienzo_prueba
      "RGBA 255 255 255 255" 2 2]
    dibujarRectangulo_tres_trazos [of 1 1 5 4 generador_chico lienzo_prueba
      "RGBA 255 255 255 255" 3 2]
  by (simp add: pequeno_def In_rect_def lienzo_prueba_def image_Rect_def Pt_def
      generador_chico_def)

text \<open>
  Claim C5 as stated fails on the top edge: on the black canvas of 8 by 6 the border
  of the cell at (1, 1) of width 5 and height 4, drawn in white with strokes of one
  pixel, leaves the pixel (3, 1) of the top edge black; the pixel (3, 4) of the bottom
  edge is white.
\<close>

theorem dibujarRectangulo_sin_trazo_superior:
  "In_rect 3 1 (Rect lienzo_prueba)
   \<and> Pix (dibujarRectangulo
            (generador_main\<lparr>config := (config generador_main)\<lparr>AnchoLineas := 1\<rparr>\<rparr>)
            lienzo_prueba 1 1 5 4 (RGBA 255 255 255 255)) (3, 1) = RGBA 0 0 0 255
   \<and> Pix (dibujarRectangulo
            (generador_main\<lparr>config := (config generador_main)\<lparr>AnchoLineas := 1\<rparr>\<rparr>)
            lienzo_prueba 1 1 5 4 (RGBA 255 255 255 255)) (3, 4) = RGBA 255 255 255 255"
  by (simp add: dibujarRectangulo_def trazoInferior_def trazoIzquierdo_def trazoDerecho_def
      upto.simps Set_px_def In_rect_def int_add_def int_sub_def wrap64_def lienzo_prueba_def
      image_Rect_def Pt_def generador_main_def)

section \<open>The allocation loop\<close>

lemma generarNumeroAleatorio_paso:
  assumes "0 < int_add (int_sub (NumeroMaximo (config g)) (NumeroMinimo (config g))) 1"
  shows "generarNumeroAleatorio env g k =
           (if \<not> numerosUsados g (sorteo env g k)
            then Some (Inr (sorteo env g k,
                            g\<lparr>numerosUsados := (numerosUsados g)(sorteo env g k := True)\<rparr>,
                            Suc k))
            else generarNumeroAleatorio env g (Suc k))"
  using assms by (subst generarNumeroAleatorio.simps) (simp add: Let_def sorteo_def)

lemma generarNumeroAleatorio_panic:
  assumes "int_add (int_sub (NumeroMaximo (config g)) (NumeroMinimo (config g))) 1 \<le> 0"
  shows "generarNumeroAleatorio env g k = Some (Inl PanicIntn)"
  using assms by (subst generarNumeroAleatorio.simps) (simp add: Let_def)

text \<open>The loop returns at the first position from \<open>k\<close> on whose number is unused.\<close>

lemma generarNumeroAleatorio_primero:
  assumes n: "0 < int_add (int_sub (NumeroMaximo (config g)) (NumeroMinimo (config g))) 1"
    and j: "k \<le> j" "\<not> numerosUsados g (sorteo env g j)"
    and antes: "\<forall>i. k \<le> i \<and> i < j \<longrightarrow> numerosUsados g (sorteo env g i)"
  shows "generarNumeroAleatorio env g k =
           Some (Inr (sorteo env g j,
                      g\<lparr>numerosUsados := (numerosUsados g)(sorteo env g j := True)\<rparr>,
                      Suc j))"
  using j antes
proof (induction "j - k" arbitrary: k)
  case 0
  then have "k = j" by simp
  then show ?case using "0.prems" by (subst generarNumeroAleatorio_paso [OF n]) simp
next
  case (Suc d)
  then have lt: "k < j" by simp
  then have u: "numerosUsados g (sorteo env g k)" using Suc.prems by simp
  have "generarNumeroAleatorio env g (Suc k) =
           Some (Inr (sorteo env g j,
                      g\<lparr>numerosUsados := (numerosUsados g)(sorteo env g j := True)\<rparr>,
                      Suc j))"
    using Suc.hyps Suc.prems lt by (intro Suc.hyps(1)) auto
  then show ?case using u by (subst generarNumeroAleatorio_paso [OF n]) simp
qed

lemma generarNumeroAleatorio_termina:
  assumes n: "0 < int_add (int_sub (NumeroMaximo (config g)) (NumeroMinimo (config g))) 1"
    and j: "k \<le> j" "\<not> numerosUsados g (sorteo env g j)"
  shows "\<exists>m. k \<le> m \<and> m \<le> j \<and> \<not> numerosUsados g (sorteo env g m)
           \<and> (\<forall>i. k \<le> i \<and> i < m \<longrightarrow> numerosUsados g (sorteo env g i))
           \<and> generarNumeroAleatorio env g k =
               Some (Inr (sorteo env g m,
                          g\<lparr>numerosUsados := (numerosUsados g)(sorteo env g m := True)\<rparr>,
                          Suc m))"
proof -
  define m where "m = (LEAST i. k \<le> i \<and> \<not> numerosUsados g (sorteo env g i))"
  have a: "k \<le> m \<and> \<not> numerosUsados g (sorteo env g m)"
    unfolding m_def using j by (intro LeastI [of "\<lambda>i. k \<le> i \<and> \<not> numerosUsados g (sorteo env g i)" j]) simp
  have b: "m \<le> j" unfolding m_def using j by (intro Least_le) simp
  have c: "\<forall>i. k \<le> i \<and> i < m \<longrightarrow> numerosUsados g (sorteo env g i)"
    unfolding m_def using not_less_Least by blast
  show ?thesis
    using a b c generarNumeroAleatorio_primero [OF n, of k m env] by blast
qed

text \<open>When every number from position \<open>k\<close> on is used, the loop never returns.\<close>

lemma generarNumeroAleatorio_no_termina:
  assumes n: "0 < int_add (int_sub (NumeroMaximo (config g)) (NumeroMinimo (config g))) 1"
    and u: "\<forall>j\<ge>k. numerosUsados g (sorteo env g j)"
  shows "generarNumeroAleatorio env g k = None"
proof (rule ccontr)
  assume "generarNumeroAleatorio env g k \<noteq> None"
  then obtain y where y: "generarNumeroAleatorio env g k = Some y" by auto
  have "env = env \<and> g = g \<and> k \<le> k \<longrightarrow> False"
  proof (rule generarNumeroAleatorio.raw_induct
      [where P = "\<lambda>e' g' k' y'. e' = env \<and> g' = g \<and> k \<le> k' \<longrightarrow> False", OF _ y])
    fix f e' g' k' y'
    assume ih: "\<And>e g'' k'' y''. f e g'' k'' = Some y''
                  \<Longrightarrow> e = env \<and> g'' = g \<and> k \<le> k'' \<longrightarrow> False"
      and cuerpo: "(let n = int_add (int_sub (NumeroMaximo (config g')) (NumeroMinimo (config g'))) 1
             in if n \<le> 0 then Some (Inl PanicIntn)
                else let numero = int_add (azar e' k' mod n) (NumeroMinimo (config g'))
                     in if \<not> numerosUsados g' numero
                        then Some (Inr (numero,
                                        g'\<lparr>numerosUsados := (numerosUsados g')(numero := True)\<rparr>,
                                        Suc k'))
                        else f e' g' (Suc k')) = Some y'"
    show "e' = env \<and> g' = g \<and> k \<le> k' \<longrightarrow> False"
    proof
      assume h: "e' = env \<and> g' = g \<and> k \<le> k'"
      then have "numerosUsados g (sorteo env g k')" using u by simp
      with cuerpo h n have "f env g (Suc k') = Some y'"
        by (simp add: Let_def sorteo_def)
      from ih [OF this] h show False by simp
    qed
  qed
  then show False by simp
qed

lemma sorteo_en_rango:
  assumes "is_int64 (NumeroMinimo (config g))" and "is_int64 (NumeroMaximo (config g))"
    and "is_int64 (NumeroMaximo (config g) - NumeroMinimo (config g) + 1)"
    and "0 < NumeroMaximo (config g) - NumeroMinimo (config g) + 1"
  shows "sorteo env g k = NumeroMinimo (config g)
           + azar env k mod (NumeroMaximo (config g) - NumeroMinimo (config g) + 1)"
    and "NumeroMinimo (config g) \<le> sorteo env g k"
    and "sorteo env g k \<le> NumeroMaximo (config g)"
proof -
  let ?mn = "NumeroMinimo (config g)" and ?mx = "NumeroMaximo (config g)"
  let ?r = "azar env k mod (?mx - ?mn + 1)"
  have r: "0 \<le> ?r" "?r < ?mx - ?mn + 1"
    using assms(4) by (rule pos_mod_sign, rule pos_mod_bound)
  then have i: "is_int64 (?r + ?mn)" using assms(1,2) by (simp add: is_int64_def)
  have t: "int_add (int_sub ?mx ?mn) 1 = ?mx - ?mn + 1"
    using assms(3) by (rule total_exacto)
  have "sorteo env g k = int_add ?r ?mn" by (simp only: sorteo_def t)
  also have "\<dots> = ?r + ?mn" using i by (simp add: int_add_def wrap64_id)
  finally have s: "sorteo env g k = ?mn + ?r" by simp
  then show "sorteo env g k = ?mn + ?r" .
  show "?mn \<le> sorteo env g k" "sorteo env g k \<le> ?mx" using s r by simp_all
qed

lemma hay_numero_libre:
  fixes mn mx :: int
  assumes "finite U" and "int (card U) < mx - mn + 1"
  shows "\<exists>v. mn \<le> v \<and> v \<le> mx \<and> v \<notin> U"
proof (rule ccontr)
  assume "\<not> (\<exists>v. mn \<le> v \<and> v \<le> mx \<and> v \<notin> U)"
  then have "{mn..mx} \<subseteq> U" by auto
  then have "card {mn..mx} \<le> card U" using assms(1) by (rule card_mono [rotated])
  then show False using assms(2) by simp
qed

text \<open>
  Claim C7, as amended. When fewer numbers are used than the range size
  \<open>NumeroMaximo - NumeroMinimo + 1\<close>, which fits in an \<open>int\<close>: some number of the range
  is unused; \<open>generarNumeroAleatorio\<close> returns when the random source, from its position
  on, draws an unused number at some time, and then it returns the first unused draw,
  which lies in the range, and marks it used; that is so in particular when every
  number of the range is drawn again at some time; and when the source never draws an
  unused number again, the call never returns.
\<close>

theorem generarNumeroAleatorio_termina_con_sorteo_libre:
  assumes "is_int64 (NumeroMinimo (config g))" and "is_int64 (NumeroMaximo (config g))"
    and "is_int64 (NumeroMaximo (config g) - NumeroMinimo (config g) + 1)"
    and "finite {v. numerosUsados g v}"
    and "int (card {v. numerosUsados g v})
           < NumeroMaximo (config g) - NumeroMinimo (config g) + 1"
  shows "(\<exists>v. NumeroMinimo (config g) \<le> v \<and> v \<le> NumeroMaximo (config g)
              \<and> \<not> numerosUsados g v)
    \<and> ((\<exists>j\<ge>k. \<not> numerosUsados g (sorteo env g j))
        \<longrightarrow> (\<exists>m\<ge>k. generarNumeroAleatorio env g k
                        = Some (Inr (sorteo env g m,
                             g\<lparr>numerosUsados := (numerosUsados g)(sorteo env g m := True)\<rparr>,
                             Suc m))
                  \<and> \<not> numerosUsados g (sorteo env g m)
                  \<and> (\<forall>i. k \<le> i \<and> i < m \<longrightarrow> numerosUsados g (sorteo env g i))
                  \<and> NumeroMinimo (config g) \<le> sorteo env g m
                  \<and> sorteo env g m \<le> NumeroMaximo (config g)))
    \<and> ((\<forall>v. NumeroMinimo (config g) \<le> v \<and> v \<le> NumeroMaximo (config g)
              \<longrightarrow> (\<exists>j\<ge>k. sorteo env g j = v))
        \<longrightarrow> (\<exists>j\<ge>k. \<not> numerosUsados g (sorteo env g j)))
    \<and> ((\<forall>j\<ge>k. numerosUsados g (sorteo env g j))
        \<longrightarrow> generarNumeroAleatorio env g k = None)"
proof -
  let ?mn = "NumeroMinimo (config g)" and ?mx = "NumeroMaximo (config g)"
  have pos: "0 < ?mx - ?mn + 1" using assms(5) by linarith
  then have n: "0 < int_add (int_sub ?mx ?mn) 1" using assms(3) by (simp add: total_exacto)
  have libre: "\<exists>v. ?mn \<le> v \<and> v \<le> ?mx \<and> \<not> numerosUsados g v"
    using hay_numero_libre [OF assms(4,5)] by simp
  have termina: "\<exists>m\<ge>k. generarNumeroAleatorio env g k
                        = Some (Inr (sorteo env g m,
                             g\<lparr>numerosUsados := (numerosUsados g)(sorteo env g m := True)\<rparr>,
                             Suc m))
                  \<and> \<not> numerosUsados g (sorteo env g m)
                  \<and> (\<forall>i. k \<le> i \<and> i < m \<longrightarrow> numerosUsados g (sorteo env g i))
                  \<and> ?mn \<le> sorteo env g m \<and> sorteo env g m \<le> ?mx"
    if "\<exists>j\<ge>k. \<not> numerosUsados g (sorteo env g j)"
  proof -
    from that obtain j where "k \<le> j" "\<not> numerosUsados g (sorteo env g j)" by blast
    from generarNumeroAleatorio_termina [OF n this]
    obtain m where "k \<le> m" "\<not> numerosUsados g (sorteo env g m)"
      "\<forall>i. k \<le> i \<and> i < m \<longrightarrow> numerosUsados g (sorteo env g i)"
      "generarNumeroAleatorio env g k =
               Some (Inr (sorteo env g m,
                          g\<lparr>numerosUsados := (numerosUsados g)(sorteo env g m := True)\<rparr>,
                          Suc m))"
      by blast
    then show ?thesis
      using sorteo_en_rango(2,3) [OF assms(1,2,3) pos, of env m] by blast
  qed
  have justo: "\<exists>j\<ge>k. \<not> numerosUsados g (sorteo env g j)"
    if "\<forall>v. ?mn \<le> v \<and> v \<le> ?mx \<longrightarrow> (\<exists>j\<ge>k. sorteo env g j = v)"
    using that libre by metis
  have nunca: "generarNumeroAleatorio env g k = None"
    if "\<forall>j\<ge>k. numerosUsados g (sorteo env g j)"
    using that by (rule generarNumeroAleatorio_no_termina [OF n])
  from libre termina justo nunca show ?thesis by blast
qed

theorem generarNumeroAleatorio_termina_con_sorteo_libre_witness:
  "finite {v. numerosUsados (generador_main\<lparr>numerosUsados := (\<lambda>v. v = 0)\<rparr>) v}
   \<and> int (card {v. numerosUsados (generador_main\<lparr>numerosUsados := (\<lambda>v. v = 0)\<rparr>) v})
       < NumeroMaximo (config (generador_main\<lparr>numerosUsados := (\<lambda>v. v = 0)\<rparr>))
         - NumeroMinimo (config (generador_main\<lparr>numerosUsados := (\<lambda>v. v = 0)\<rparr>)) + 1
   \<and> \<not> numerosUsados (generador_main\<lparr>numerosUsados := (\<lambda>v. v = 0)\<rparr>)
         (sorteo entorno_prueba (generador_main\<lparr>numerosUsados := (\<lambda>v. v = 0)\<rparr>) 1)
   \<and> generarNumeroAleatorio entorno_prueba (generador_main\<lparr>numerosUsados := (\<lambda>v. v = 0)\<rparr>) 0
       \<noteq> None"
proof -
  let ?g = "generador_main\<lparr>numerosUsados := (\<lambda>v. v = 0)\<rparr>"
  have c: "config ?g = config_main\<lparr>Fuente := Face7x13 entorno_prueba\<rparr>"
    by (simp add: generador_main_def)
  have h: "is_int64 (NumeroMinimo (config ?g))" "is_int64 (NumeroMaximo (config ?g))"
     "is_int64 (NumeroMaximo (config ?g) - NumeroMinimo (config ?g) + 1)"
     "finite {v. numerosUsados ?g v}"
     "int (card {v. numerosUsados ?g v}) < NumeroMaximo (config ?g) - NumeroMinimo (config ?g) + 1"
    by (simp_all add: c config_main_def is_int64_def)
  have s: "(1::nat) \<ge> 0 \<and> \<not> numerosUsados ?g (sorteo entorno_prueba ?g 1)"
    by (simp add: sorteo_def c config_main_def entorno_prueba_def int_add_def int_sub_def wrap64_def)
  then have e: "\<exists>j\<ge>0. \<not> numerosUsados ?g (sorteo entorno_prueba ?g j)" by blast
  from generarNumeroAleatorio_termina_con_sorteo_libre [OF h, of 0 entorno_prueba] e
  have "generarNumeroAleatorio entorno_prueba ?g 0 \<noteq> None" by auto
  with h s show ?thesis by simp
qed

text \<open>
  Claim C7 as stated fails for a random source that keeps drawing a used number: with
  the range from 0 to 1, the number 0 used and every draw 0, one number is used of two
  and the loop never returns.
\<close>

theorem generarNumeroAleatorio_sorteo_constante:
  "finite {v. numerosUsados
        (generador_main\<lparr>config := (config generador_main)\<lparr>NumeroMinimo := 0, NumeroMaximo := 1\<rparr>,
                        numerosUsados := (\<lambda>v. v = 0)\<rparr>) v}
   \<and> int (card {v. numerosUsados
        (generador_main\<lparr>config := (config generador_main)\<lparr>NumeroMinimo := 0, NumeroMaximo := 1\<rparr>,
                        numerosUsados := (\<lambda>v. v = 0)\<rparr>) v}) < 1 - 0 + 1
   \<and> generarNumeroAleatorio (entorno_prueba\<lparr>azar := (\<lambda>k. 0)\<rparr>)
        (generador_main\<lparr>config := (config generador_main)\<lparr>NumeroMinimo := 0, NumeroMaximo := 1\<rparr>,
                        numerosUsados := (\<lambda>v. v = 0)\<rparr>) 0 = None"
proof -
  let ?g = "generador_main\<lparr>config := (config generador_main)\<lparr>NumeroMinimo := 0, NumeroMaximo := 1\<rparr>,
                        numerosUsados := (\<lambda>v. v = 0)\<rparr>"
  have n: "0 < int_add (int_sub (NumeroMaximo (config ?g)) (NumeroMinimo (config ?g))) 1"
    by (simp add: int_add_def int_sub_def wrap64_def)
  have "\<forall>j\<ge>0. numerosUsados ?g (sorteo (entorno_prueba\<lparr>azar := (\<lambda>k. 0)\<rparr>) ?g j)"
    by (simp add: sorteo_def int_add_def int_sub_def wrap64_def)
  then have "generarNumeroAleatorio (entorno_prueba\<lparr>azar := (\<lambda>k. 0)\<rparr>) ?g 0 = None"
    by (rule generarNumeroAleatorio_no_termina [OF n])
  then show ?thesis by simp
qed

section \<open>The whole run\<close>

text \<open>What a returned allocation says.\<close>

lemma generarNumeroAleatorio_Inr:
  assumes "generarNumeroAleatorio env g k = Some (Inr (numero, g', k'))"
  shows "0 < int_add (int_sub (NumeroMaximo (config g)) (NumeroMinimo (config g))) 1"
    and "\<exists>m\<ge>k. k' = Suc m \<and> numero = sorteo env g m"
    and "\<not> numerosUsados g numero"
    and "g' = g\<lparr>numerosUsados := (numerosUsados g)(numero := True)\<rparr>"
proof -
  show n: "0 < int_add (int_sub (NumeroMaximo (config g)) (NumeroMinimo (config g))) 1"
  proof (rule ccontr)
    assume "\<not> ?thesis"
    then have "generarNumeroAleatorio env g k = Some (Inl PanicIntn)"
      by (intro generarNumeroAleatorio_panic) simp
    with assms show False by simp
  qed
  have "\<exists>j\<ge>k. \<not> numerosUsados g (sorteo env g j)"
  proof (rule ccontr)
    assume "\<not> ?thesis"
    then have "generarNumeroAleatorio env g k = None"
      by (intro generarNumeroAleatorio_no_termina [OF n]) simp
    with assms show False by simp
  qed
  then obtain j where "k \<le> j" "\<not> numerosUsados g (sorteo env g j)" by blast
  from generarNumeroAleatorio_termina [OF n this] assms
  obtain m where m: "k \<le> m" "\<not> numerosUsados g (sorteo env g m)"
    "numero = sorteo env g m" "k' = Suc m"
    "g' = g\<lparr>numerosUsados := (numerosUsados g)(sorteo env g m := True)\<rparr>"
    by auto
  then show "\<exists>m\<ge>k. k' = Suc m \<and> numero = sorteo env g m" by blast
  from m show "\<not> numerosUsados g numero" by simp
  from m show "g' = g\<lparr>numerosUsados := (numerosUsados g)(numero := True)\<rparr>" by simp
qed

text \<open>
  Filling the tickets at the distinct indices \<open>is\<close>: when the loop returns, the slice
  has its length, the other indices are untouched, the numbers stored are new,
  pairwise distinct and now used, and the set of used numbers has grown by exactly
  them.
\<close>

lemma llenarBoletas_Inr:
  assumes "llenarBoletas env is g k bs = Some (Inr (bs', g', k'))"
    and "distinct is" and "\<forall>i\<in>set is. i < length bs"
  shows "length bs' = length bs
    \<and> (\<forall>i. i \<notin> set is \<longrightarrow> bs' ! i = bs ! i)
    \<and> (\<forall>i\<in>set is. \<not> numerosUsados g (Numero (bs' ! i))
                    \<and> (\<exists>m. Numero (bs' ! i) = sorteo env g m)
                    \<and> Formateado (bs' ! i) = formatearNumero g (Numero (bs' ! i)))
    \<and> (\<forall>i\<in>set is. \<forall>j\<in>set is. i \<noteq> j \<longrightarrow> Numero (bs' ! i) \<noteq> Numero (bs' ! j))
    \<and> (\<forall>v. numerosUsados g' v
              \<longleftrightarrow> numerosUsados g v \<or> (\<exists>i\<in>set is. v = Numero (bs' ! i)))
    \<and> config g' = config g \<and> digitosFormato g' = digitosFormato g
    \<and> imagenBase g' = imagenBase g \<and> k \<le> k'"
  using assms
proof (induction "is" arbitrary: g k bs)
  case Nil
  then show ?case by simp
next
  case (Cons i rest)
  from Cons.prems(1) obtain numero g1 k1
    where a: "generarNumeroAleatorio env g k = Some (Inr (numero, g1, k1))"
      and r: "llenarBoletas env rest g1 k1
                (bs[i := \<lparr>Numero = numero, Formateado = formatearNumero g1 numero\<rparr>])
              = Some (Inr (bs', g', k'))"
    by (auto split: option.splits sum.splits)
  note A = generarNumeroAleatorio_Inr [OF a]
  let ?b = "\<lparr>Numero = numero, Formateado = formatearNumero g1 numero\<rparr>"
  have g1: "config g1 = config g" "digitosFormato g1 = digitosFormato g"
    "imagenBase g1 = imagenBase g"
    "\<And>v. numerosUsados g1 v \<longleftrightarrow> numerosUsados g v \<or> v = numero"
    using A(4) by simp_all
  have f1: "formatearNumero g1 numero = formatearNumero g numero"
    by (simp add: formatearNumero_def g1)
  have s1: "\<And>m. sorteo env g1 m = sorteo env g m" by (simp add: sorteo_def g1)
  from Cons.prems have d: "i \<notin> set rest" "distinct rest" "i < length bs"
    "\<forall>j\<in>set rest. j < length (bs[i := ?b])" by simp_all
  note IH = Cons.IH [OF r d(2) d(4)]
  from IH d have bi: "bs' ! i = ?b" by simp
  from A(2) obtain m where m: "k \<le> m" "k1 = Suc m" "numero = sorteo env g m" by blast
  show ?case
  proof (intro conjI)
    show "length bs' = length bs" using IH by simp
    show "\<forall>j. j \<notin> set (i # rest) \<longrightarrow> bs' ! j = bs ! j" using IH by simp
    show "\<forall>j\<in>set (i # rest). \<not> numerosUsados g (Numero (bs' ! j))
                    \<and> (\<exists>m. Numero (bs' ! j) = sorteo env g m)
                    \<and> Formateado (bs' ! j) = formatearNumero g (Numero (bs' ! j))"
    proof
      fix j assume "j \<in> set (i # rest)"
      then consider "j = i" | "j \<in> set rest" by auto
      then show "\<not> numerosUsados g (Numero (bs' ! j))
                    \<and> (\<exists>m. Numero (bs' ! j) = sorteo env g m)
                    \<and> Formateado (bs' ! j) = formatearNumero g (Numero (bs' ! j))"
      proof cases
        case 1
        then show ?thesis using bi A(3) m f1 by auto
      next
        case 2
        with IH have "\<not> numerosUsados g1 (Numero (bs' ! j))"
          "\<exists>m. Numero (bs' ! j) = sorteo env g1 m"
          "Formateado (bs' ! j) = formatearNumero g1 (Numero (bs' ! j))" by blast+
        then show ?thesis using g1 s1 by (simp add: formatearNumero_def)
      qed
    qed
    show "\<forall>a\<in>set (i # rest). \<forall>b\<in>set (i # rest).
            a \<noteq> b \<longrightarrow> Numero (bs' ! a) \<noteq> Numero (bs' ! b)"
    proof (intro ballI impI)
      fix a b assume ab: "a \<in> set (i # rest)" "b \<in> set (i # rest)" "a \<noteq> b"
      have nuevo: "Numero (bs' ! c) \<noteq> numero" if "c \<in> set rest" for c
      proof -
        from IH that have "\<not> numerosUsados g1 (Numero (bs' ! c))" by blast
        then show ?thesis using g1(4) by blast
      qed
      from IH have dr: "\<forall>a\<in>set rest. \<forall>b\<in>set rest. a \<noteq> b
                          \<longrightarrow> Numero (bs' ! a) \<noteq> Numero (bs' ! b)" by blast
      show "Numero (bs' ! a) \<noteq> Numero (bs' ! b)"
      proof (cases "a = i")
        case True
        with ab have "b \<in> set rest" by auto
        from nuevo [OF this] True bi show ?thesis by simp
      next
        case False
        with ab have ar: "a \<in> set rest" by auto
        show ?thesis
        proof (cases "b = i")
          case True
          from nuevo [OF ar] True bi show ?thesis by simp
        next
          case False
          with ab have "b \<in> set rest" by auto
          with ar dr ab(3) show ?thesis by blast
        qed
      qed
    qed
    show "\<forall>v. numerosUsados g' v
              \<longleftrightarrow> numerosUsados g v \<or> (\<exists>j\<in>set (i # rest). v = Numero (bs' ! j))"
    proof
      fix v
      from IH have "numerosUsados g' v
              \<longleftrightarrow> numerosUsados g1 v \<or> (\<exists>j\<in>set rest. v = Numero (bs' ! j))" by blast
      then show "numerosUsados g' v
              \<longleftrightarrow> numerosUsados g v \<or> (\<exists>j\<in>set (i # rest). v = Numero (bs' ! j))"
        using g1(4) bi by auto
    qed
    show "config g' = config g" using IH g1 by simp
    show "digitosFormato g' = digitosFormato g" using IH g1 by simp
    show "imagenBase g' = imagenBase g" using IH g1 by simp
    show "k \<le> k'" using IH m by simp
  qed
qed

lemma llenarBoletas_termina:
  assumes "is_int64 (NumeroMinimo (config g))" and "is_int64 (NumeroMaximo (config g))"
    and "is_int64 (NumeroMaximo (config g) - NumeroMinimo (config g) + 1)"
    and "finite {v. numerosUsados g v}"
    and "int (card {v. numerosUsados g v}) + int (length is)
           \<le> NumeroMaximo (config g) - NumeroMinimo (config g) + 1"
    and "\<forall>k v. NumeroMinimo (config g) \<le> v \<and> v \<le> NumeroMaximo (config g)
            \<longrightarrow> (\<exists>j\<ge>k. sorteo env g j = v)"
  shows "\<exists>bs' g' k'. llenarBoletas env is g k bs = Some (Inr (bs', g', k'))
           \<and> finite {v. numerosUsados g' v}
           \<and> card {v. numerosUsados g' v} = card {v. numerosUsados g v} + length is"
  using assms
proof (induction "is" arbitrary: g k bs)
  case Nil
  then show ?case by simp
next
  case (Cons i rest)
  let ?mn = "NumeroMinimo (config g)" and ?mx = "NumeroMaximo (config g)"
  let ?U = "{v. numerosUsados g v}"
  have c: "int (card ?U) < ?mx - ?mn + 1" using Cons.prems(5) by simp
  then have "0 < ?mx - ?mn + 1" by linarith
  then have n: "0 < int_add (int_sub ?mx ?mn) 1"
    using Cons.prems(3) by (simp add: total_exacto)
  from hay_numero_libre [OF Cons.prems(4) c]
  obtain v where v: "?mn \<le> v" "v \<le> ?mx" "\<not> numerosUsados g v" by auto
  with Cons.prems(6) obtain j where j: "k \<le> j" "sorteo env g j = v" by blast
  with v have "\<not> numerosUsados g (sorteo env g j)" by simp
  from generarNumeroAleatorio_termina [OF n j(1) this]
  obtain m where m: "\<not> numerosUsados g (sorteo env g m)"
    and a: "generarNumeroAleatorio env g k =
               Some (Inr (sorteo env g m,
                          g\<lparr>numerosUsados := (numerosUsados g)(sorteo env g m := True)\<rparr>,
                          Suc m))"
    by blast
  let ?g1 = "g\<lparr>numerosUsados := (numerosUsados g)(sorteo env g m := True)\<rparr>"
  have u1: "{v. numerosUsados ?g1 v} = insert (sorteo env g m) ?U" by auto
  have f1: "finite {v. numerosUsados ?g1 v}" unfolding u1 using Cons.prems(4) by simp
  have c1: "card {v. numerosUsados ?g1 v} = Suc (card ?U)"
    unfolding u1 using Cons.prems(4) m by simp
  have s1: "\<And>j. sorteo env ?g1 j = sorteo env g j" by (simp add: sorteo_def)
  have "\<exists>bs' g' k'. llenarBoletas env rest ?g1 (Suc m)
            (bs[i := \<lparr>Numero = sorteo env g m,
                      Formateado = formatearNumero ?g1 (sorteo env g m)\<rparr>])
          = Some (Inr (bs', g', k'))
           \<and> finite {v. numerosUsados g' v}
           \<and> card {v. numerosUsados g' v} = card {v. numerosUsados ?g1 v} + length rest"
    using Cons.prems f1 c1 by (intro Cons.IH) (simp_all add: s1)
  then show ?case using a c1 by auto
qed

lemma crearTalonario_Inr:
  assumes "crearTalonario env g k ident = Some (Inr (t, g', k'))"
  shows "ID t = ident"
    and "int (length (Boletas t)) = BoletasPorPagina (config g)"
    and "distinct (map Numero (Boletas t))"
    and "\<forall>b\<in>set (Boletas t). \<not> numerosUsados g (Numero b) \<and> numerosUsados g' (Numero b)
            \<and> (\<exists>m. Numero b = sorteo env g m)
            \<and> Formateado b = formatearNumero g (Numero b)"
    and "\<forall>v. numerosUsados g' v
              \<longleftrightarrow> numerosUsados g v \<or> v \<in> set (map Numero (Boletas t))"
    and "config g' = config g" and "digitosFormato g' = digitosFormato g"
    and "imagenBase g' = imagenBase g" and "k \<le> k'"
proof -
  let ?n = "nat (BoletasPorPagina (config g))"
  from assms have B: "0 \<le> BoletasPorPagina (config g)"
    by (auto simp: crearTalonario_def split: if_splits)
  from assms B obtain bs where
    l: "llenarBoletas env [0..<?n] g k (replicate ?n Boleta_cero) = Some (Inr (bs, g', k'))"
    and t: "t = \<lparr>ID = ident, Boletas = bs\<rparr>"
    by (auto simp: crearTalonario_def split: if_splits option.splits sum.splits)
  have L: "length bs = length (replicate ?n Boleta_cero)
    \<and> (\<forall>i. i \<notin> set [0..<?n] \<longrightarrow> bs ! i = replicate ?n Boleta_cero ! i)
    \<and> (\<forall>i\<in>set [0..<?n]. \<not> numerosUsados g (Numero (bs ! i))
                    \<and> (\<exists>m. Numero (bs ! i) = sorteo env g m)
                    \<and> Formateado (bs ! i) = formatearNumero g (Numero (bs ! i)))
    \<and> (\<forall>i\<in>set [0..<?n]. \<forall>j\<in>set [0..<?n]. i \<noteq> j \<longrightarrow> Numero (bs ! i) \<noteq> Numero (bs ! j))
    \<and> (\<forall>v. numerosUsados g' v
              \<longleftrightarrow> numerosUsados g v \<or> (\<exists>i\<in>set [0..<?n]. v = Numero (bs ! i)))
    \<and> config g' = config g \<and> digitosFormato g' = digitosFormato g
    \<and> imagenBase g' = imagenBase g \<and> k \<le> k'"
    by (rule llenarBoletas_Inr [OF l]) simp_all
  then have len: "length bs = ?n" by simp
  show "ID t = ident" using t by simp
  show "int (length (Boletas t)) = BoletasPorPagina (config g)" using t len B by simp
  have idx: "\<And>i. i < length bs \<longleftrightarrow> i \<in> set [0..<?n]" using len by simp
  show "distinct (map Numero (Boletas t))"
    unfolding t using L len by (auto simp: distinct_conv_nth)
  have mem: "v \<in> set (map Numero bs) \<longleftrightarrow> (\<exists>i\<in>set [0..<?n]. v = Numero (bs ! i))" for v
  proof -
    have "v \<in> set (map Numero bs) \<longleftrightarrow> (\<exists>i<length (map Numero bs). map Numero bs ! i = v)"
      by (rule in_set_conv_nth)
    also have "\<dots> \<longleftrightarrow> (\<exists>i<?n. Numero (bs ! i) = v)" using len by auto
    also have "\<dots> \<longleftrightarrow> (\<exists>i\<in>set [0..<?n]. v = Numero (bs ! i))" by auto
    finally show ?thesis .
  qed
  have usados: "\<forall>v. numerosUsados g' v
              \<longleftrightarrow> numerosUsados g v \<or> v \<in> set (map Numero (Boletas t))"
    unfolding t using L mem by simp
  then show "\<forall>v. numerosUsados g' v
              \<longleftrightarrow> numerosUsados g v \<or> v \<in> set (map Numero (Boletas t))" .
  show "\<forall>b\<in>set (Boletas t). \<not> numerosUsados g (Numero b) \<and> numerosUsados g' (Numero b)
            \<and> (\<exists>m. Numero b = sorteo env g m)
            \<and> Formateado b = formatearNumero g (Numero b)"
  proof
    fix b assume "b \<in> set (Boletas t)"
    then obtain i where i: "i < length bs" "b = bs ! i" unfolding t by (auto simp: in_set_conv_nth)
    then have "i \<in> set [0..<?n]" using len by simp
    with L i have "\<not> numerosUsados g (Numero b)" "\<exists>m. Numero b = sorteo env g m"
      "Formateado b = formatearNumero g (Numero b)" by blast+
    moreover have "numerosUsados g' (Numero b)"
      using usados \<open>b \<in> set (Boletas t)\<close> by auto
    ultimately show "\<not> numerosUsados g (Numero b) \<and> numerosUsados g' (Numero b)
            \<and> (\<exists>m. Numero b = sorteo env g m)
            \<and> Formateado b = formatearNumero g (Numero b)" by blast
  qed
  show "config g' = config g" "digitosFormato g' = digitosFormato g"
    "imagenBase g' = imagenBase g" "k \<le> k'" using L by simp_all
qed

lemma crearTalonario_termina:
  assumes "0 \<le> BoletasPorPagina (config g)"
    and "is_int64 (NumeroMinimo (config g))" and "is_int64 (NumeroMaximo (config g))"
    and "is_int64 (NumeroMaximo (config g) - NumeroMinimo (config g) + 1)"
    and "finite {v. numerosUsados g v}"
    and "int (card {v. numerosUsados g v}) + BoletasPorPagina (config g)
           \<le> NumeroMaximo (config g) - NumeroMinimo (config g) + 1"
    and "\<forall>k v. NumeroMinimo (config g) \<le> v \<and> v \<le> NumeroMaximo (config g)
            \<longrightarrow> (\<exists>j\<ge>k. sorteo env g j = v)"
  shows "\<exists>t g' k'. crearTalonario env g k ident = Some (Inr (t, g', k'))
           \<and> finite {v. numerosUsados g' v}
           \<and> int (card {v. numerosUsados g' v})
               = int (card {v. numerosUsados g v}) + BoletasPorPagina (config g)"
proof -
  let ?n = "nat (BoletasPorPagina (config g))"
  have "int (card {v. numerosUsados g v}) + int (length [0..<?n])
           \<le> NumeroMaximo (config g) - NumeroMinimo (config g) + 1"
    using assms(1,6) by simp
  from llenarBoletas_termina [OF assms(2,3,4,5) this assms(7), of k "replicate ?n Boleta_cero"]
  obtain bs g' k' where
    "llenarBoletas env [0..<?n] g k (replicate ?n Boleta_cero) = Some (Inr (bs, g', k'))"
    "finite {v. numerosUsados g' v}"
    "card {v. numerosUsados g' v} = card {v. numerosUsados g v} + length [0..<?n]"
    by blast
  then show ?thesis using assms(1) by (simp add: crearTalonario_def)
qed

text \<open>Rendering: where no division panics and the canvas can be allocated.\<close>

lemma dibujarBoletas_Inr:
  assumes "BoletasPorFila (config g) \<noteq> 0"
  shows "\<exists>img'. dibujarBoletas g ancho alto xs img = Inr img'"
proof (induction xs arbitrary: img)
  case Nil
  then show ?case by simp
next
  case (Cons x xs)
  obtain i b where x: "x = (i, b)" by (cases x)
  have "\<exists>img1. dibujarBoleta g img b (origenX g ancho i) (origenY g alto i) ancho alto = Inr img1"
    using assms by (simp add: dibujarBoleta_def Let_def)
  then show ?case using assms Cons.IH x by auto
qed

lemma fondo_Inr:
  assumes "NewRGBA (image_Rect 0 0 (AnchoTalonario (config g)) (AltoTalonario (config g)))
             = Inr lienzo"
  shows "\<exists>img. fondo env g = Inr img"
  using assms by (auto simp: fondo_def escalarImagen_def split: option.splits)

lemma crearImagenTalonario_Inr:
  assumes "NewRGBA (image_Rect 0 0 (AnchoTalonario (config g)) (AltoTalonario (config g)))
             = Inr lienzo"
    and "BoletasPorFila (config g) \<noteq> 0" and "filas g t \<noteq> 0"
  shows "\<exists>img. crearImagenTalonario env g t = Inr img"
proof -
  from fondo_Inr [OF assms(1)] obtain img where "fondo env g = Inr img" by blast
  then show ?thesis
    using assms(2,3) dibujarBoletas_Inr [OF assms(2)]
    by (simp add: crearImagenTalonario_def)
qed

lemma numeros_asignados_simps [simp]:
  "numeros_asignados [] = []"
  "numeros_asignados (p # ps) = map Numero (Boletas (talonario p)) @ numeros_asignados ps"
  "numeros_asignados (ps @ qs) = numeros_asignados ps @ numeros_asignados qs"
  by (simp_all add: numeros_asignados_def)

lemma sorteo_config: "config g' = config g \<Longrightarrow> sorteo env g' m = sorteo env g m"
  by (simp add: sorteo_def)

text \<open>
  The loop of the run, when it returns: it has added one page for every index from
  \<open>i\<close> to \<open>CantidadPaginas\<close>, each with \<open>BoletasPorPagina\<close> tickets, whose numbers are
  pairwise distinct, were unused before and are draws of the random source.
\<close>

lemma generarDesde_Inr:
  assumes "generarDesde env i g k hechas = Some (Inr (ps, g', k'))"
    and "CantidadPaginas (config g) < 2 ^ 63 - 1" and "is_int64 i"
    and "i \<le> CantidadPaginas (config g) + 1"
  shows "\<exists>nuevas. ps = hechas @ nuevas
           \<and> int (length nuevas) = CantidadPaginas (config g) + 1 - i
           \<and> (\<forall>p\<in>set nuevas. int (length (Boletas (talonario p))) = BoletasPorPagina (config g))
           \<and> distinct (numeros_asignados nuevas)
           \<and> (\<forall>v\<in>set (numeros_asignados nuevas).
                  \<not> numerosUsados g v \<and> numerosUsados g' v \<and> (\<exists>m. v = sorteo env g m))
           \<and> config g' = config g
           \<and> (\<forall>v. numerosUsados g v \<longrightarrow> numerosUsados g' v)"
proof -
  let ?Q = "\<lambda>env i g hechas ps g'. \<exists>nuevas. ps = hechas @ nuevas
           \<and> int (length nuevas) = CantidadPaginas (config g) + 1 - i
           \<and> (\<forall>p\<in>set nuevas. int (length (Boletas (talonario p))) = BoletasPorPagina (config g))
           \<and> distinct (numeros_asignados nuevas)
           \<and> (\<forall>v\<in>set (numeros_asignados nuevas).
                  \<not> numerosUsados g v \<and> numerosUsados g' v \<and> (\<exists>m. v = sorteo env g m))
           \<and> config g' = config g
           \<and> (\<forall>v. numerosUsados g v \<longrightarrow> numerosUsados g' v)"
  let ?Pr = "\<lambda>env i g (k::nat) hechas y. \<forall>ps g' (k'::nat). y = Inr (ps, g', k')
              \<longrightarrow> CantidadPaginas (config g) < 2 ^ 63 - 1 \<and> is_int64 i
                  \<and> i \<le> CantidadPaginas (config g) + 1
              \<longrightarrow> ?Q env i g hechas ps g'"
  define y0 where "y0 = (Inr (ps, g', k') :: error + Pagina list \<times> GeneradorTalonarios \<times> nat)"
  have y0: "generarDesde env i g k hechas = Some y0" using assms(1) by (simp add: y0_def)
  have "?Pr env i g k hechas y0"
  proof (rule generarDesde.raw_induct [where P = ?Pr, OF _ y0])
    fix f env i g k hechas y
    assume ih: "\<And>env i g k hechas y. f env i g k hechas = Some y \<Longrightarrow> ?Pr env i g k hechas y"
      and cuerpo: "(if i \<le> CantidadPaginas (config g)
      then (case crearTalonario env g k i of
              None \<Rightarrow> None
            | Some (Inl err) \<Rightarrow> Some (Inl err)
            | Some (Inr (t, g', k')) \<Rightarrow>
                (case crearImagenTalonario env g' t of
                   Inl err \<Rightarrow> Some (Inl err)
                 | Inr img \<Rightarrow>
                     if guardarImagen env g' img i
                     then f env (int_add i 1) g' k'
                            (hechas @ [\<lparr>archivo = nombreArchivo i, imagen = img, talonario = t\<rparr>])
                     else Some (Inl (ErrGuardando i))))
      else Some (Inr (hechas, g, k))) = Some y"
    show "?Pr env i g k hechas y"
    proof (intro allI impI)
      fix ps g' k'
      assume y: "y = Inr (ps, g', k')"
        and h: "CantidadPaginas (config g) < 2 ^ 63 - 1 \<and> is_int64 i
                  \<and> i \<le> CantidadPaginas (config g) + 1"
      show "?Q env i g hechas ps g'"
      proof (cases "i \<le> CantidadPaginas (config g)")
        case False
        with cuerpo y have "ps = hechas" "g' = g" by simp_all
        moreover from False h have "i = CantidadPaginas (config g) + 1" by simp
        ultimately show ?thesis by simp
      next
        case True
        with cuerpo y obtain t g1 k1 img where
          ct: "crearTalonario env g k i = Some (Inr (t, g1, k1))"
          and ci: "crearImagenTalonario env g1 t = Inr img"
          and rec: "f env (int_add i 1) g1 k1
                      (hechas @ [\<lparr>archivo = nombreArchivo i, imagen = img, talonario = t\<rparr>])
                    = Some y"
          by (auto split: option.splits sum.splits if_splits)
        note T = crearTalonario_Inr [OF ct]
        let ?p = "\<lparr>archivo = nombreArchivo i, imagen = img, talonario = t\<rparr>"
        have i1: "int_add i 1 = i + 1"
          using h True by (intro int_add_exacto) (simp add: is_int64_def)
        have h1: "CantidadPaginas (config g1) < 2 ^ 63 - 1 \<and> is_int64 (int_add i 1)
                  \<and> int_add i 1 \<le> CantidadPaginas (config g1) + 1"
          using h True T(6) by (simp add: i1 is_int64_def)
        from ih [OF rec] y h1 have "?Q env (int_add i 1) g1 (hechas @ [?p]) ps g'" by blast
        then obtain nuevas where N: "ps = (hechas @ [?p]) @ nuevas"
           "int (length nuevas) = CantidadPaginas (config g1) + 1 - int_add i 1"
           "\<forall>p\<in>set nuevas. int (length (Boletas (talonario p))) = BoletasPorPagina (config g1)"
           "distinct (numeros_asignados nuevas)"
           "\<forall>v\<in>set (numeros_asignados nuevas).
                  \<not> numerosUsados g1 v \<and> numerosUsados g' v \<and> (\<exists>m. v = sorteo env g1 m)"
           "config g' = config g1"
           "\<forall>v. numerosUsados g1 v \<longrightarrow> numerosUsados g' v"
          by blast
        have sub: "\<And>v. numerosUsados g v \<Longrightarrow> numerosUsados g1 v" using T(5) by simp
        have a: "ps = hechas @ (?p # nuevas)" using N(1) by simp
        have b: "int (length (?p # nuevas)) = CantidadPaginas (config g) + 1 - i"
          using N(2) T(6) i1 by simp
        have c: "\<forall>p\<in>set (?p # nuevas).
                   int (length (Boletas (talonario p))) = BoletasPorPagina (config g)"
          using N(3) T(2,6) by simp
        have disj: "set (map Numero (Boletas t)) \<inter> set (numeros_asignados nuevas) = {}"
        proof -
          have "\<And>v. v \<in> set (map Numero (Boletas t)) \<Longrightarrow> numerosUsados g1 v"
            using T(5) by simp
          then show ?thesis using N(5) by blast
        qed
        have d: "distinct (numeros_asignados (?p # nuevas))"
          using T(3) N(4) disj by simp
        have e: "\<forall>v\<in>set (numeros_asignados (?p # nuevas)).
                  \<not> numerosUsados g v \<and> numerosUsados g' v \<and> (\<exists>m. v = sorteo env g m)"
        proof
          fix v assume "v \<in> set (numeros_asignados (?p # nuevas))"
          then consider "v \<in> set (map Numero (Boletas t))"
            | "v \<in> set (numeros_asignados nuevas)" by auto
          then show "\<not> numerosUsados g v \<and> numerosUsados g' v \<and> (\<exists>m. v = sorteo env g m)"
          proof cases
            case 1
            then obtain bb where "bb \<in> set (Boletas t)" "v = Numero bb" by auto
            with T(4) N(7) show ?thesis by blast
          next
            case 2
            with N(5) have "\<not> numerosUsados g1 v" "numerosUsados g' v"
              "\<exists>m. v = sorteo env g1 m" by blast+
            then show ?thesis using sub sorteo_config [OF T(6)] by metis
          qed
        qed
        have f': "config g' = config g" using N(6) T(6) by simp
        have g'': "\<forall>v. numerosUsados g v \<longrightarrow> numerosUsados g' v" using sub N(7) by blast
        from a b c d e f' g'' show ?thesis by blast
      qed
    qed
  qed
  then show ?thesis using assms(2,3,4) unfolding y0_def by blast
qed

text \<open>
  The run returns all its pages when the pages still to make fit in what is left of the
  range, every number of the range is drawn again and again, the canvas can be
  allocated and every page can be written.
\<close>

lemma generarDesde_termina:
  assumes "0 < BoletasPorPagina (config g)" and "0 < BoletasPorFila (config g)"
    and "is_int64 (BoletasPorPagina (config g) + BoletasPorFila (config g) - 1)"
    and "is_int64 (NumeroMinimo (config g))" and "is_int64 (NumeroMaximo (config g))"
    and "is_int64 (NumeroMaximo (config g) - NumeroMinimo (config g) + 1)"
    and "CantidadPaginas (config g) < 2 ^ 63 - 1"
    and "NewRGBA (image_Rect 0 0 (AnchoTalonario (config g)) (AltoTalonario (config g)))
           = Inr lienzo"
    and "\<forall>nombre img. escribirPNG env (CarpetaSalida (config g)) nombre img"
    and "\<forall>k v. NumeroMinimo (config g) \<le> v \<and> v \<le> NumeroMaximo (config g)
            \<longrightarrow> (\<exists>j\<ge>k. sorteo env g j = v)"
    and "is_int64 i" and "i \<le> CantidadPaginas (config g) + 1"
    and "finite {v. numerosUsados g v}"
    and "int (card {v. numerosUsados g v})
           + BoletasPorPagina (config g) * (CantidadPaginas (config g) + 1 - i)
         \<le> NumeroMaximo (config g) - NumeroMinimo (config g) + 1"
  shows "\<exists>ps g' k'. generarDesde env i g k hechas = Some (Inr (ps, g', k'))"
  using assms
proof (induction "nat (CantidadPaginas (config g) + 1 - i)" arbitrary: i g k hechas)
  case 0
  then have "\<not> i \<le> CantidadPaginas (config g)" by simp
  then show ?case by (subst generarDesde.simps) simp
next
  case (Suc n)
  let ?B = "BoletasPorPagina (config g)" and ?C = "CantidadPaginas (config g)"
  let ?F = "BoletasPorFila (config g)"
  from Suc.hyps(2) have iC: "i \<le> ?C" by simp
  then have r: "1 \<le> ?C + 1 - i" by simp
  have "?B * 1 \<le> ?B * (?C + 1 - i)" using Suc.prems(1) r by (intro mult_left_mono) simp_all
  then have cap1: "int (card {v. numerosUsados g v}) + ?B
           \<le> NumeroMaximo (config g) - NumeroMinimo (config g) + 1"
    using Suc.prems(14) by simp
  have B0: "0 \<le> ?B" using Suc.prems(1) by simp
  from crearTalonario_termina [OF B0 Suc.prems(4,5,6,13) cap1 Suc.prems(10), of k i]
  obtain t g1 k1 where ct: "crearTalonario env g k i = Some (Inr (t, g1, k1))"
    and f1: "finite {v. numerosUsados g1 v}"
    and c1: "int (card {v. numerosUsados g1 v}) = int (card {v. numerosUsados g v}) + ?B"
    by blast
  note T = crearTalonario_Inr [OF ct]
  have cfg: "config g1 = config g" by (rule T(6))
  have "is_int64 (int (length (Boletas t)) + BoletasPorFila (config g1) - 1)"
    using T(2) Suc.prems(3) cfg by simp
  then have "filas g1 t = (int (length (Boletas t)) + BoletasPorFila (config g1) - 1)
                       div BoletasPorFila (config g1)"
    using Suc.prems(2) cfg by (intro filas_exacto) simp_all
  then have fl: "filas g1 t = (?B + ?F - 1) div ?F" using T(2) cfg by simp
  have "?F \<le> ?B + ?F - 1" using Suc.prems(1) by simp
  then have "?F div ?F \<le> (?B + ?F - 1) div ?F"
    using Suc.prems(2) by (intro zdiv_mono1) simp_all
  then have f0: "filas g1 t \<noteq> 0" using Suc.prems(2) fl by simp
  have "\<exists>img. crearImagenTalonario env g1 t = Inr img"
    using Suc.prems(8,2) f0 cfg by (intro crearImagenTalonario_Inr [where lienzo = lienzo]) simp_all
  then obtain img where ci: "crearImagenTalonario env g1 t = Inr img" by blast
  have gu: "guardarImagen env g1 img i" using Suc.prems(9) cfg by (simp add: guardarImagen_def)
  have i1: "int_add i 1 = i + 1"
    using Suc.prems(7,11) iC by (intro int_add_exacto) (simp add: is_int64_def)
  let ?h1 = "hechas @ [\<lparr>archivo = nombreArchivo i, imagen = img, talonario = t\<rparr>]"
  have "\<exists>ps g' k'. generarDesde env (i + 1) g1 k1 ?h1 = Some (Inr (ps, g', k'))"
  proof (rule Suc.hyps(1))
    show "n = nat (CantidadPaginas (config g1) + 1 - (i + 1))" using Suc.hyps(2) cfg by simp
    show "is_int64 (i + 1)" using Suc.prems(7,11) iC by (simp add: is_int64_def)
    show "i + 1 \<le> CantidadPaginas (config g1) + 1" using iC cfg by simp
    show "finite {v. numerosUsados g1 v}" by (rule f1)
    show "int (card {v. numerosUsados g1 v})
           + BoletasPorPagina (config g1) * (CantidadPaginas (config g1) + 1 - (i + 1))
         \<le> NumeroMaximo (config g1) - NumeroMinimo (config g1) + 1"
      using Suc.prems(14) c1 cfg by (simp add: algebra_simps)
    show "\<forall>k v. NumeroMinimo (config g1) \<le> v \<and> v \<le> NumeroMaximo (config g1)
            \<longrightarrow> (\<exists>j\<ge>k. sorteo env g1 j = v)"
      using Suc.prems(10) cfg by (simp add: sorteo_config [OF cfg])
  qed (use Suc.prems cfg in simp_all)
  then show ?case
    using iC ct ci gu i1 by (subst generarDesde.simps) simp
qed

lemma validada_total_positivo:
  assumes "validarConfig g = None"
    and "is_int64 (BoletasPorPagina (config g) * CantidadPaginas (config g))"
    and "is_int64 (NumeroMaximo (config g) - NumeroMinimo (config g) + 1)"
  shows "BoletasPorPagina (config g) * CantidadPaginas (config g)
           \<le> NumeroMaximo (config g) - NumeroMinimo (config g) + 1"
    and "0 < NumeroMaximo (config g) - NumeroMinimo (config g) + 1"
proof -
  let ?B = "BoletasPorPagina (config g)" and ?C = "CantidadPaginas (config g)"
  let ?T = "NumeroMaximo (config g) - NumeroMinimo (config g) + 1"
  from assms(1)
  have v: "int_mul ?B ?C
             \<le> int_add (int_sub (NumeroMaximo (config g)) (NumeroMinimo (config g))) 1"
    and B: "0 < ?B" and C: "0 < ?C"
    by (simp_all add: validarConfig_None_iff)
  have T: "int_add (int_sub (NumeroMaximo (config g)) (NumeroMinimo (config g))) 1 = ?T"
    using assms(3) by (rule total_exacto)
  show le: "?B * ?C \<le> ?T" using v T assms(2) by (simp add: producto_exacto)
  have "1 \<le> ?B * ?C" using B C by (simp add: int_one_le_iff_zero_less)
  with le show "0 < ?T" by linarith
qed

text \<open>The constructor changes no field of the configuration but the font.\<close>

lemma length_numeros_asignados:
  assumes "\<forall>p\<in>set ps. int (length (Boletas (talonario p))) = b"
  shows "int (length (numeros_asignados ps)) = b * int (length ps)"
  using assms by (induction ps) (simp_all add: algebra_simps)

lemma NewGeneradorTalonarios_campos:
  assumes "NewGeneradorTalonarios env cfg = Inr g"
  shows "NumeroMinimo (config g) = NumeroMinimo cfg"
    and "NumeroMaximo (config g) = NumeroMaximo cfg"
    and "BoletasPorPagina (config g) = BoletasPorPagina cfg"
    and "CantidadPaginas (config g) = CantidadPaginas cfg"
    and "BoletasPorFila (config g) = BoletasPorFila cfg"
    and "AnchoTalonario (config g) = AnchoTalonario cfg"
    and "AltoTalonario (config g) = AltoTalonario cfg"
    and "CarpetaSalida (config g) = CarpetaSalida cfg"
    and "validarConfig g = None"
    and "numerosUsados g = (\<lambda>n. False)"
proof -
  note c = NewGeneradorTalonarios_Inr(4) [OF assms]
  show "NumeroMinimo (config g) = NumeroMinimo cfg" by (subst c) simp
  show "NumeroMaximo (config g) = NumeroMaximo cfg" by (subst c) simp
  show "BoletasPorPagina (config g) = BoletasPorPagina cfg" by (subst c) simp
  show "CantidadPaginas (config g) = CantidadPaginas cfg" by (subst c) simp
  show "BoletasPorFila (config g) = BoletasPorFila cfg" by (subst c) simp
  show "AnchoTalonario (config g) = AnchoTalonario cfg" by (subst c) simp
  show "AltoTalonario (config g) = AltoTalonario cfg" by (subst c) simp
  show "CarpetaSalida (config g) = CarpetaSalida cfg" by (subst c) simp
  have m: "MargenSuperior (config g) = MargenSuperior cfg"
    "MargenInferior (config g) = MargenInferior cfg"
    "MargenIzquierdo (config g) = MargenIzquierdo cfg"
    "MargenDerecho (config g) = MargenDerecho cfg"
    "NumeroMinimo (config g) = NumeroMinimo cfg"
    "NumeroMaximo (config g) = NumeroMaximo cfg"
    "BoletasPorPagina (config g) = BoletasPorPagina cfg"
    "CantidadPaginas (config g) = CantidadPaginas cfg"
    "BoletasPorFila (config g) = BoletasPorFila cfg"
    by (subst c, simp)+
  have "validarConfig g = validarConfig (generador_inicial cfg)"
    by (simp add: validarConfig_def m)
  then show "validarConfig g = None" using NewGeneradorTalonarios_Inr(2) [OF assms] by simp
  show "numerosUsados g = (\<lambda>n. False)" by (rule NewGeneradorTalonarios_Inr(3) [OF assms])
qed

text \<open>
  Claim C1, as amended. Let the constructor return a generator for a configuration
  whose bounds, whose count \<open>NumeroMaximo - NumeroMinimo + 1\<close> and whose product
  \<open>BoletasPorPagina * CantidadPaginas\<close> fit in an \<open>int\<close>, with less than \<open>2^63 - 1\<close>
  pages. Then every run of \<open>GenerarTodos\<close> that returns without an error has made exactly
  \<open>CantidadPaginas\<close> pages of \<open>BoletasPorPagina\<close> tickets each, and the
  \<open>BoletasPorPagina * CantidadPaginas\<close> numbers of these tickets are pairwise distinct
  and lie between \<open>NumeroMinimo\<close> and \<open>NumeroMaximo\<close>. The run does return without an
  error when moreover the row count fits in an \<open>int\<close>, the canvas can be allocated,
  every page can be written, and the random source reaches every offset of the range
  again after every position.
\<close>

theorem GenerarTodos_paginas:
  assumes g: "NewGeneradorTalonarios env cfg = Inr g"
    and mn: "is_int64 (NumeroMinimo cfg)" and mx: "is_int64 (NumeroMaximo cfg)"
    and T: "is_int64 (NumeroMaximo cfg - NumeroMinimo cfg + 1)"
    and BC: "is_int64 (BoletasPorPagina cfg * CantidadPaginas cfg)"
    and C: "CantidadPaginas cfg < 2 ^ 63 - 1"
  shows "(\<forall>ps g' k'. GenerarTodos env g k = Some (Inr (ps, g', k')) \<longrightarrow>
           int (length ps) = CantidadPaginas cfg
           \<and> (\<forall>p\<in>set ps. int (length (Boletas (talonario p))) = BoletasPorPagina cfg)
           \<and> int (length (numeros_asignados ps)) = BoletasPorPagina cfg * CantidadPaginas cfg
           \<and> distinct (numeros_asignados ps)
           \<and> (\<forall>v\<in>set (numeros_asignados ps). NumeroMinimo cfg \<le> v \<and> v \<le> NumeroMaximo cfg))
       \<and> (is_int64 (BoletasPorPagina cfg + BoletasPorFila cfg - 1)
         \<and> \<not> isl (NewRGBA (image_Rect 0 0 (AnchoTalonario cfg) (AltoTalonario cfg)))
         \<and> (\<forall>nombre img. escribirPNG env (CarpetaSalida cfg) nombre img)
         \<and> (\<forall>k r. 0 \<le> r \<and> r < NumeroMaximo cfg - NumeroMinimo cfg + 1
                \<longrightarrow> (\<exists>j\<ge>k. azar env j mod (NumeroMaximo cfg - NumeroMinimo cfg + 1) = r))
         \<longrightarrow> (\<exists>ps g' k'. GenerarTodos env g k = Some (Inr (ps, g', k'))))"
proof (rule conjI)
  note c = NewGeneradorTalonarios_campos [OF g]
  have v: "validarConfig g = None" by (rule c(9))
  have mn': "is_int64 (NumeroMinimo (config g))" and mx': "is_int64 (NumeroMaximo (config g))"
    and T': "is_int64 (NumeroMaximo (config g) - NumeroMinimo (config g) + 1)"
    and BC': "is_int64 (BoletasPorPagina (config g) * CantidadPaginas (config g))"
    and C': "CantidadPaginas (config g) < 2 ^ 63 - 1"
    using mn mx T BC C by (simp_all add: c)
  note tp = validada_total_positivo [OF v BC' T']
  from v have B0: "0 < BoletasPorPagina (config g)" and C0: "0 < CantidadPaginas (config g)"
    and F0: "0 < BoletasPorFila (config g)"
    by (simp_all add: validarConfig_None_iff)
  note rango = sorteo_en_rango [OF mn' mx' T' tp(2)]
  show "\<forall>ps g' k'. GenerarTodos env g k = Some (Inr (ps, g', k')) \<longrightarrow>
           int (length ps) = CantidadPaginas cfg
           \<and> (\<forall>p\<in>set ps. int (length (Boletas (talonario p))) = BoletasPorPagina cfg)
           \<and> int (length (numeros_asignados ps)) = BoletasPorPagina cfg * CantidadPaginas cfg
           \<and> distinct (numeros_asignados ps)
           \<and> (\<forall>v\<in>set (numeros_asignados ps). NumeroMinimo cfg \<le> v \<and> v \<le> NumeroMaximo cfg)"
  proof (intro allI impI)
    fix ps g' k'
    assume "GenerarTodos env g k = Some (Inr (ps, g', k'))"
    then have r: "generarDesde env 1 g k [] = Some (Inr (ps, g', k'))"
      by (simp add: GenerarTodos_def)
    have i1: "is_int64 1" by (simp add: is_int64_def)
    have le: "1 \<le> CantidadPaginas (config g) + 1" using C0 by simp
    from generarDesde_Inr [OF r C' i1 le]
    have n: "int (length ps) = CantidadPaginas (config g)"
      and b: "\<forall>p\<in>set ps. int (length (Boletas (talonario p))) = BoletasPorPagina (config g)"
      and d: "distinct (numeros_asignados ps)"
      and s: "\<forall>v\<in>set (numeros_asignados ps). \<exists>m. v = sorteo env g m"
      by auto
    have l: "int (length (numeros_asignados ps))
               = BoletasPorPagina (config g) * int (length ps)"
      using b by (rule length_numeros_asignados)
    have "\<forall>v\<in>set (numeros_asignados ps).
            NumeroMinimo (config g) \<le> v \<and> v \<le> NumeroMaximo (config g)"
    proof
      fix v
      assume "v \<in> set (numeros_asignados ps)"
      with s obtain m where "v = sorteo env g m" by blast
      then show "NumeroMinimo (config g) \<le> v \<and> v \<le> NumeroMaximo (config g)"
        using rango(2) [of env m] rango(3) [of env m] by simp
    qed
    then show "int (length ps) = CantidadPaginas cfg
           \<and> (\<forall>p\<in>set ps. int (length (Boletas (talonario p))) = BoletasPorPagina cfg)
           \<and> int (length (numeros_asignados ps)) = BoletasPorPagina cfg * CantidadPaginas cfg
           \<and> distinct (numeros_asignados ps)
           \<and> (\<forall>v\<in>set (numeros_asignados ps). NumeroMinimo cfg \<le> v \<and> v \<le> NumeroMaximo cfg)"
      using n b d l by (simp add: c)
  qed
  show "is_int64 (BoletasPorPagina cfg + BoletasPorFila cfg - 1)
         \<and> \<not> isl (NewRGBA (image_Rect 0 0 (AnchoTalonario cfg) (AltoTalonario cfg)))
         \<and> (\<forall>nombre img. escribirPNG env (CarpetaSalida cfg) nombre img)
         \<and> (\<forall>k r. 0 \<le> r \<and> r < NumeroMaximo cfg - NumeroMinimo cfg + 1
                \<longrightarrow> (\<exists>j\<ge>k. azar env j mod (NumeroMaximo cfg - NumeroMinimo cfg + 1) = r))
         \<longrightarrow> (\<exists>ps g' k'. GenerarTodos env g k = Some (Inr (ps, g', k')))"
  proof (intro impI, elim conjE)
    assume BF: "is_int64 (BoletasPorPagina cfg + BoletasPorFila cfg - 1)"
      and L: "\<not> isl (NewRGBA (image_Rect 0 0 (AnchoTalonario cfg) (AltoTalonario cfg)))"
      and W: "\<forall>nombre img. escribirPNG env (CarpetaSalida cfg) nombre img"
      and A: "\<forall>k r. 0 \<le> r \<and> r < NumeroMaximo cfg - NumeroMinimo cfg + 1
                \<longrightarrow> (\<exists>j\<ge>k. azar env j mod (NumeroMaximo cfg - NumeroMinimo cfg + 1) = r)"
    from L obtain lienzo
      where L': "NewRGBA (image_Rect 0 0 (AnchoTalonario (config g)) (AltoTalonario (config g)))
                   = Inr lienzo"
      by (cases "NewRGBA (image_Rect 0 0 (AnchoTalonario cfg) (AltoTalonario cfg))")
         (simp_all add: c)
    have BF': "is_int64 (BoletasPorPagina (config g) + BoletasPorFila (config g) - 1)"
      using BF by (simp add: c)
    have W': "\<forall>nombre img. escribirPNG env (CarpetaSalida (config g)) nombre img"
      using W by (simp add: c)
    have J: "\<forall>k v. NumeroMinimo (config g) \<le> v \<and> v \<le> NumeroMaximo (config g)
               \<longrightarrow> (\<exists>j\<ge>k. sorteo env g j = v)"
    proof (intro allI impI)
      fix k v
      assume h: "NumeroMinimo (config g) \<le> v \<and> v \<le> NumeroMaximo (config g)"
      let ?r = "v - NumeroMinimo cfg"
      from h have "0 \<le> ?r \<and> ?r < NumeroMaximo cfg - NumeroMinimo cfg + 1" by (simp add: c)
      with A obtain j where j: "k \<le> j"
        and a: "azar env j mod (NumeroMaximo cfg - NumeroMinimo cfg + 1) = ?r"
        by blast
      have "sorteo env g j = v" using rango(1) [of env j] a by (simp add: c)
      with j show "\<exists>j\<ge>k. sorteo env g j = v" by blast
    qed
    have i1: "is_int64 1" by (simp add: is_int64_def)
    have le: "1 \<le> CantidadPaginas (config g) + 1" using C0 by simp
    have u: "{v. numerosUsados g v} = {}" by (simp add: c(10))
    have fin: "finite {v. numerosUsados g v}" by (simp add: u)
    have cap: "int (card {v. numerosUsados g v})
           + BoletasPorPagina (config g) * (CantidadPaginas (config g) + 1 - 1)
         \<le> NumeroMaximo (config g) - NumeroMinimo (config g) + 1"
      using tp(1) by (simp add: u)
    from generarDesde_termina [OF B0 F0 BF' mn' mx' T' C' L' W' J i1 le fin cap]
    show "\<exists>ps g' k'. GenerarTodos env g k = Some (Inr (ps, g', k'))"
      by (simp add: GenerarTodos_def)
  qed
qed

theorem GenerarTodos_paginas_witness:
  "NewGeneradorTalonarios entorno_prueba config_tres = Inr generador_tres
   \<and> is_int64 (NumeroMinimo config_tres) \<and> is_int64 (NumeroMaximo config_tres)
   \<and> is_int64 (NumeroMaximo config_tres - NumeroMinimo config_tres + 1)
   \<and> is_int64 (BoletasPorPagina config_tres * CantidadPaginas config_tres)
   \<and> CantidadPaginas config_tres < 2 ^ 63 - 1
   \<and> (\<exists>ps g' k'. GenerarTodos entorno_prueba generador_tres 0 = Some (Inr (ps, g', k'))
         \<and> int (length ps) = 3
         \<and> (\<forall>p\<in>set ps. int (length (Boletas (talonario p))) = 2)
         \<and> int (length (numeros_asignados ps)) = 6
         \<and> distinct (numeros_asignados ps)
         \<and> (\<forall>v\<in>set (numeros_asignados ps). 0 \<le> v \<and> v \<le> 9999))"
proof -
  have n: "NewGeneradorTalonarios entorno_prueba config_tres = Inr generador_tres"
    by (simp add: NewGeneradorTalonarios_def validarConfig_def Let_def
        elegirImagen_def elegirFuente_def cargarImagenBase_def cargarFuentePersonalizada_def
        crearCarpeta_def ponerFuente_def int_add_def int_sub_def int_mul_def wrap64_def
        config_main_def entorno_prueba_def generador_inicial_def Itoa_def digitos.simps
        generador_main_def generador_tres_def config_tres_def)
  have h: "is_int64 (NumeroMinimo config_tres)" "is_int64 (NumeroMaximo config_tres)"
    "is_int64 (NumeroMaximo config_tres - NumeroMinimo config_tres + 1)"
    "is_int64 (BoletasPorPagina config_tres * CantidadPaginas config_tres)"
    "CantidadPaginas config_tres < 2 ^ 63 - 1"
    by (simp_all add: config_tres_def config_main_def is_int64_def)
  have f: "NumeroMinimo config_tres = 0" "NumeroMaximo config_tres = 9999"
    "BoletasPorPagina config_tres = 2" "CantidadPaginas config_tres = 3"
    "BoletasPorFila config_tres = 1" "AnchoTalonario config_tres = 1080"
    "AltoTalonario config_tres = 1920"
    by (simp_all add: config_tres_def config_main_def)
  have bf: "is_int64 (BoletasPorPagina config_tres + BoletasPorFila config_tres - 1)"
    by (simp add: f is_int64_def)
  have l: "\<not> isl (NewRGBA (image_Rect 0 0 (AnchoTalonario config_tres)
                              (AltoTalonario config_tres)))"
    by (simp add: f NewRGBA_def image_Rect_def Dx_def Dy_def Pt_def int_sub_def wrap64_def)
  have w: "\<forall>nombre img. escribirPNG entorno_prueba (CarpetaSalida config_tres) nombre img"
    by (simp add: entorno_prueba_def)
  have a: "\<forall>k r. 0 \<le> r \<and> r < NumeroMaximo config_tres - NumeroMinimo config_tres + 1
             \<longrightarrow> (\<exists>j\<ge>k. azar entorno_prueba j
                          mod (NumeroMaximo config_tres - NumeroMinimo config_tres + 1) = r)"
  proof (intro allI impI)
    fix k :: nat and r :: int
    assume r: "0 \<le> r \<and> r < NumeroMaximo config_tres - NumeroMinimo config_tres + 1"
    let ?j = "nat r + 10000 * k"
    have "k \<le> ?j" by simp
    moreover have "int ?j mod 10000 = r" using r by (simp add: f)
    ultimately show "\<exists>j\<ge>k. azar entorno_prueba j
                          mod (NumeroMaximo config_tres - NumeroMinimo config_tres + 1) = r"
      by (intro exI [of _ ?j]) (simp add: f entorno_prueba_def)
  qed
  from GenerarTodos_paginas [OF n h, of 0, THEN conjunct2] bf l w a
  obtain ps g' k'
    where r: "GenerarTodos entorno_prueba generador_tres 0 = Some (Inr (ps, g', k'))"
    by blast
  from GenerarTodos_paginas [OF n h, of 0, THEN conjunct1] r
  have "int (length ps) = 3
         \<and> (\<forall>p\<in>set ps. int (length (Boletas (talonario p))) = 2)
         \<and> int (length (numeros_asignados ps)) = 6
         \<and> distinct (numeros_asignados ps)
         \<and> (\<forall>v\<in>set (numeros_asignados ps). 0 \<le> v \<and> v \<le> 9999)"
    by (simp add: f)
  with r n h show ?thesis by blast
qed

text \<open>
  Claim C1 as stated fails for a configuration that passes the validation only because
  the product overflows: with the minimum 1, the maximum 0, 2 tickets on each of \<open>2^62\<close>
  pages, the constructor returns a generator, and \<open>GenerarTodos\<close> makes no page: the first
  allocation calls \<open>rand.Intn(0)\<close>, which panics.
\<close>

theorem GenerarTodos_rango_vacio:
  "NewGeneradorTalonarios entorno_prueba config_rango_vacio = Inr generador_rango_vacio
   \<and> GenerarTodos entorno_prueba generador_rango_vacio 0 = Some (Inl PanicIntn)"
proof
  show "NewGeneradorTalonarios entorno_prueba config_rango_vacio = Inr generador_rango_vacio"
    by (simp add: NewGeneradorTalonarios_def validarConfig_def Let_def
        elegirImagen_def elegirFuente_def cargarImagenBase_def cargarFuentePersonalizada_def
        crearCarpeta_def ponerFuente_def int_add_def int_sub_def int_mul_def wrap64_def
        config_main_def entorno_prueba_def generador_inicial_def Itoa_def digitos.simps
        generador_main_def generador_rango_vacio_def config_rango_vacio_def)
  have p: "generarNumeroAleatorio entorno_prueba generador_rango_vacio 0 = Some (Inl PanicIntn)"
    by (rule generarNumeroAleatorio_panic)
       (simp add: generador_rango_vacio_def config_rango_vacio_def generador_main_def
          config_main_def int_add_def int_sub_def wrap64_def)
  have b: "BoletasPorPagina (config generador_rango_vacio) = 2"
    "CantidadPaginas (config generador_rango_vacio) = 2 ^ 62"
    by (simp_all add: generador_rango_vacio_def config_rango_vacio_def generador_main_def
        config_main_def)
  have "crearTalonario entorno_prueba generador_rango_vacio 0 1 = Some (Inl PanicIntn)"
    by (simp add: crearTalonario_def b p upt_conv_Cons)
  then show "GenerarTodos entorno_prueba generador_rango_vacio 0 = Some (Inl PanicIntn)"
    unfolding GenerarTodos_def by (subst generarDesde.simps) (simp add: b)
qed

section \<open>Scaling in binary64\<close>

text \<open>The bit length of a positive number, and the exponent of a positive rational.\<close>

lemma bits_cota: "0 < n \<Longrightarrow> 2 ^ (bits n - 1) \<le> n \<and> n < 2 ^ bits n"
proof (induction n rule: bits.induct)
  case (1 n)
  show ?case
  proof (cases "n div 2 = 0")
    case True
    with "1.prems" have "n = 1" by (simp add: div_eq_0_iff)
    then show ?thesis by (simp add: bits.simps)
  next
    case False
    then have p: "0 < n div 2" by simp
    have n0: "n \<noteq> 0" using "1.prems" by simp
    from "1.IH" [OF n0 p]
    have ih: "2 ^ (bits (n div 2) - 1) \<le> n div 2" "n div 2 < 2 ^ bits (n div 2)" by simp_all
    have b: "bits n = Suc (bits (n div 2))" using n0 by (subst bits.simps) simp
    have "0 < bits (n div 2)" using False by (subst bits.simps) simp
    then obtain m where m: "bits (n div 2) = Suc m" by (cases "bits (n div 2)") auto
    define K :: nat where "K = 2 ^ m"
    from ih have "K \<le> n div 2" "n div 2 < 2 * K" by (simp_all add: m K_def)
    then have "2 * K \<le> n \<and> n < 2 * (2 * K)" by arith
    then show ?thesis by (simp add: b m K_def)
  qed
qed

lemma pot2_power_int: "pot2 e = power_int 2 e"
  by (simp add: pot2_def power_int_def field_simps)

lemma pot2_pos [simp]: "0 < pot2 e"
  by (simp add: pot2_def)

lemma pot2_suma: "pot2 (a + b) = pot2 a * pot2 b"
  by (simp add: pot2_power_int power_int_add)

lemma pot2_nat: "pot2 (int k) = 2 ^ k"
  by (simp add: pot2_def)

lemma exponente_cota:
  assumes "0 < q"
  shows "pot2 (exponente q) \<le> q" and "q < pot2 (exponente q + 1)"
proof -
  have "pot2 (exponente q) \<le> q \<and> q < pot2 (exponente q + 1)"
  proof (cases "1 \<le> q")
    case True
    define m where "m = nat \<lfloor>q\<rfloor>"
    have f1: "1 \<le> \<lfloor>q\<rfloor>" using True by simp
    then have m0: "0 < m" by (simp add: m_def)
    have "of_int \<lfloor>q\<rfloor> \<le> q" "q < of_int \<lfloor>q\<rfloor> + 1" by linarith+
    then have mq: "of_nat m \<le> q" "q < of_nat m + 1"
      using f1 by (simp_all add: m_def)
    note b = bits_cota [OF m0]
    from b have b0: "0 < bits m" using m0 by (cases "bits m") auto
    have e: "exponente q = int (bits m - 1)" using True b0 by (simp add: exponente_def m_def)
    have e1: "exponente q + 1 = int (bits m)" using e b0 by simp
    have "(2::rat) ^ (bits m - 1) = of_nat (2 ^ (bits m - 1))" by simp
    also have "\<dots> \<le> of_nat m" using b by (intro of_nat_mono) simp
    finally have "(2::rat) ^ (bits m - 1) \<le> of_nat m" .
    with mq(1) have "(2::rat) ^ (bits m - 1) \<le> q" by linarith
    then have l: "pot2 (exponente q) \<le> q" unfolding e pot2_nat .
    have "Suc m \<le> 2 ^ bits m" using b by simp
    then have "(of_nat (Suc m) :: rat) \<le> of_nat (2 ^ bits m)" by (rule of_nat_mono)
    then have "of_nat m + 1 \<le> (2::rat) ^ bits m" by simp
    with mq(2) have "q < 2 ^ bits m" by linarith
    then have "q < pot2 (exponente q + 1)" unfolding e1 pot2_nat .
    with l show ?thesis by simp
  next
    case False
    then have q1: "q < 1" by simp
    define c where "c = \<lceil>1 / q\<rceil>"
    define m where "m = nat (c - 1)"
    have inv: "1 < 1 / q" using assms q1 by simp
    then have c2: "2 \<le> c" unfolding c_def by linarith
    then have m0: "0 < m" by (simp add: m_def)
    have cq: "of_int c - 1 < 1 / q" "1 / q \<le> of_int c" unfolding c_def by linarith+
    have mc: "of_nat m = (of_int c :: rat) - 1" using c2 by (simp add: m_def)
    note b = bits_cota [OF m0]
    from b have b0: "0 < bits m" using m0 by (cases "bits m") auto
    have e: "exponente q = - int (bits m)" using False by (simp add: exponente_def m_def c_def)
    have p: "pot2 (exponente q) = 1 / 2 ^ bits m" using b0 by (simp add: e pot2_def)
    have p1: "pot2 (exponente q + 1) = 1 / 2 ^ (bits m - 1)"
    proof -
      from b0 obtain j where j: "bits m = Suc j" by (cases "bits m") auto
      have "exponente q + 1 = - int j" by (simp add: e j)
      moreover have "pot2 (- int j) = 1 / 2 ^ j" by (cases "j = 0") (simp_all add: pot2_def)
      ultimately show ?thesis by (simp add: j)
    qed
    have "Suc m \<le> 2 ^ bits m" using b by simp
    then have "(of_nat (Suc m) :: rat) \<le> of_nat (2 ^ bits m)" by (rule of_nat_mono)
    then have "of_nat m + 1 \<le> (2::rat) ^ bits m" by simp
    with cq(2) mc have "1 / q \<le> 2 ^ bits m" by linarith
    then have l: "1 / 2 ^ bits m \<le> q" using assms by (simp add: field_simps)
    have "(of_nat (2 ^ (bits m - 1)) :: rat) \<le> of_nat m" using b by (intro of_nat_mono) simp
    then have "(2::rat) ^ (bits m - 1) \<le> of_nat m" by simp
    with cq(1) mc have "2 ^ (bits m - 1) < 1 / q" by linarith
    then have "q < 1 / 2 ^ (bits m - 1)" using assms by (simp add: field_simps)
    with l show ?thesis by (simp add: p p1)
  qed
  then show "pot2 (exponente q) \<le> q" and "q < pot2 (exponente q + 1)" by simp_all
qed

text \<open>
  Rounding to an integer errs by at most a half, so that \<open>float64\<close> errs by at most
  \<open>2^-53\<close> of its argument; the integers below \<open>2^53\<close> are not rounded.
\<close>

lemma pot2_mono: "a \<le> b \<Longrightarrow> pot2 a \<le> pot2 b"
proof -
  assume "a \<le> b"
  then have "pot2 (b - a) = 2 ^ nat (b - a)" by (simp add: pot2_def)
  then have "1 \<le> pot2 (b - a)" by simp
  moreover have "pot2 b = pot2 a * pot2 (b - a)" using pot2_suma [of a "b - a"] by simp
  ultimately show ?thesis using pot2_pos [of a] by simp
qed

lemma redondeo_par_cota: "\<bar>of_int (redondeo_par q) - q\<bar> \<le> 1 / 2"
proof -
  define f where "f = \<lfloor>q\<rfloor>"
  define r where "r = q - of_int f"
  have r: "0 \<le> r" "r < 1" unfolding r_def f_def by linarith+
  have q: "q = of_int f + r" by (simp add: r_def)
  have d: "redondeo_par q
             = (if r < 1 / 2 then f else if 1 / 2 < r then f + 1
                else if even f then f else f + 1)"
    by (simp add: redondeo_par_def Let_def f_def r_def)
  consider "redondeo_par q = f" "r \<le> 1 / 2" | "redondeo_par q = f + 1" "1 / 2 \<le> r"
    unfolding d by (cases "r < 1 / 2"; cases "1 / 2 < r"; cases "even f") simp_all
  then show ?thesis
  proof cases
    case 1
    then show ?thesis using r unfolding q by simp
  next
    case 2
    then show ?thesis using r unfolding q by simp
  qed
qed

lemma redondeo_par_entero [simp]: "redondeo_par (of_int z) = z"
  by (simp add: redondeo_par_def)

lemma float64_positivo:
  assumes "0 < q"
  shows "float64 q = of_int (redondeo_par (q / pot2 (exponente q - 52)))
                       * pot2 (exponente q - 52)"
  using assms by (simp add: float64_def)

lemma float64_error:
  assumes "0 \<le> q"
  shows "\<bar>float64 q - q\<bar> \<le> q / 2 ^ 53"
proof (cases "q = 0")
  case True
  then show ?thesis by (simp add: float64_def)
next
  case False
  with assms have q: "0 < q" by simp
  define p where "p = pot2 (exponente q - 52)"
  define s where "s = q / p"
  have p0: "0 < p" by (simp add: p_def)
  have qs: "q = s * p" using p0 by (simp add: s_def)
  have f: "float64 q = of_int (redondeo_par s) * p"
    using float64_positivo [OF q] by (simp add: p_def s_def)
  have "float64 q - q = (of_int (redondeo_par s) - s) * p"
    by (simp add: f algebra_simps) (simp add: qs)
  then have "\<bar>float64 q - q\<bar> = \<bar>of_int (redondeo_par s) - s\<bar> * p"
    using p0 by (simp add: abs_mult)
  also have "\<dots> \<le> (1 / 2) * p"
    using redondeo_par_cota [of s] p0 by (intro mult_right_mono) simp_all
  finally have a: "\<bar>float64 q - q\<bar> \<le> p / 2" by simp
  have "pot2 (exponente q) = pot2 (exponente q - 52) * pot2 52"
    using pot2_suma [of "exponente q - 52" 52] by simp
  moreover have "pot2 52 = 2 ^ 52" by (simp add: pot2_def)
  ultimately have "p = pot2 (exponente q) / 2 ^ 52" by (simp add: p_def)
  then have "p / 2 = pot2 (exponente q) / 2 ^ 53" by simp
  also have "\<dots> \<le> q / 2 ^ 53"
    using exponente_cota(1) [OF q] by (intro divide_right_mono) simp_all
  finally show ?thesis using a by linarith
qed

lemma float64_nonneg: "0 \<le> q \<Longrightarrow> 0 \<le> float64 q"
proof -
  assume q: "0 \<le> q"
  have "q / 2 ^ 53 \<le> q" using q by (simp add: field_simps)
  with float64_error [OF q] show ?thesis by linarith
qed

lemma float64_entero:
  assumes "0 \<le> m" and "m < 2 ^ 53"
  shows "float64 (of_int m) = of_int m"
proof (cases "m = 0")
  case True
  then show ?thesis by (simp add: float64_def)
next
  case False
  with assms have m: "0 < m" by simp
  define q :: rat where "q = of_int m"
  have q: "0 < q" "1 \<le> q" using m by (simp_all add: q_def)
  define e where "e = exponente q"
  have e0: "0 \<le> e"
  proof -
    have "0 < nat \<lfloor>q\<rfloor>" using m by (simp add: q_def)
    then have "0 < bits (nat \<lfloor>q\<rfloor>)" by (subst bits.simps) simp
    then show ?thesis using q(2) by (simp add: e_def exponente_def)
  qed
  have e52: "e \<le> 52"
  proof (rule ccontr)
    assume "\<not> e \<le> 52"
    then have "53 \<le> e" by simp
    then have "pot2 53 \<le> pot2 e" by (rule pot2_mono)
    moreover have "pot2 53 = 2 ^ 53" by (simp add: pot2_def)
    moreover have "pot2 e \<le> q" unfolding e_def by (rule exponente_cota(1) [OF q(1)])
    moreover have "q < 2 ^ 53" using assms(2) unfolding q_def
      by (metis of_int_less_iff of_int_numeral of_int_power)
    ultimately show False by linarith
  qed
  define k where "k = nat (52 - e)"
  have p: "pot2 (e - 52) = 1 / 2 ^ k" using e52 by (cases "e = 52") (simp_all add: pot2_def k_def)
  have "q / pot2 (e - 52) = of_int (m * 2 ^ k)" by (simp add: p q_def)
  then have "redondeo_par (q / pot2 (e - 52)) = m * 2 ^ k" by (simp only: redondeo_par_entero)
  then have "float64 q = of_int (m * 2 ^ k) * (1 / 2 ^ k)"
    using float64_positivo [OF q(1)] by (simp add: e_def [symmetric] p)
  then show ?thesis by (simp add: q_def)
qed

text \<open>
  The source index \<open>int(float64(x) * (float64(d) / float64(n)))\<close> of a destination index
  \<open>x < n\<close>: it lies in the source, and it is the quotient of \<open>x * d\<close> by \<open>n\<close>, or one
  less where \<open>n\<close> divides \<open>x * d\<close>.
\<close>

lemma indice_fuente_cota:
  assumes d: "0 < d" and n: "0 < n" and x: "0 \<le> x" "x < n" and dn: "d * n < 2 ^ 51"
  shows "0 \<le> indice_fuente x (escala d n)"
    and "indice_fuente x (escala d n) < d"
    and "indice_fuente x (escala d n) = x * d div n
         \<or> x * d mod n = 0 \<and> indice_fuente x (escala d n) = x * d div n - 1"
proof -
  define u :: rat where "u = 1 / 2 ^ 53"
  define r0 :: rat where "r0 = of_int d / of_int n"
  define sc where "sc = float64 r0"
  define p where "p = of_int x * sc"
  define fp where "fp = float64 p"
  define E :: rat where "E = of_int x * r0"
  define k where "k = x * d div n"
  define rm where "rm = x * d mod n"
  have "d * 1 \<le> d * n" using d n by (intro mult_left_mono) simp_all
  then have d51: "d < 2 ^ 51" using dn by simp
  have "1 * n \<le> d * n" using d n by (intro mult_right_mono) simp_all
  then have n51: "n < 2 ^ 51" using dn by simp
  have fd: "float64 (of_int d) = of_int d" using d d51 by (intro float64_entero) simp_all
  have fn: "float64 (of_int n) = of_int n" using n n51 by (intro float64_entero) simp_all
  have fx: "float64 (of_int x) = of_int x" using x n51 by (intro float64_entero) simp_all
  have idx: "indice_fuente x (escala d n) = int_de_float fp"
    by (simp add: indice_fuente_def escala_def fd fn fx fp_def p_def sc_def r0_def)
  have r0: "0 < r0" using d n by (simp add: r0_def)
  have E0: "0 \<le> E" using x r0 by (simp add: E_def)
  have x0: "(0::rat) \<le> of_int x" using x by simp
  have sce: "\<bar>sc - r0\<bar> \<le> r0 * u"
    using float64_error [of r0] r0 by (simp add: sc_def u_def)
  have sc0: "0 \<le> sc" unfolding sc_def using r0 by (intro float64_nonneg) simp
  have p0: "0 \<le> p" using x0 sc0 by (simp add: p_def)
  have "\<bar>p - E\<bar> = of_int x * \<bar>sc - r0\<bar>"
    using x0 by (simp add: p_def E_def abs_mult right_diff_distrib [symmetric])
  also have "\<dots> \<le> of_int x * (r0 * u)" using sce x0 by (rule mult_left_mono)
  finally have pe: "\<bar>p - E\<bar> \<le> E * u" by (simp add: E_def mult.assoc)
  have fpe: "\<bar>fp - p\<bar> \<le> p * u"
    using float64_error [OF p0] by (simp add: fp_def u_def)
  have u0: "0 \<le> u" by (simp add: u_def)
  have pu: "p \<le> E * (1 + u)" using pe by (simp add: algebra_simps abs_le_iff)
  have pl: "E * (1 - u) \<le> p" using pe by (simp add: algebra_simps abs_le_iff)
  have "fp \<le> p * (1 + u)" using fpe by (simp add: algebra_simps abs_le_iff)
  also have "\<dots> \<le> (E * (1 + u)) * (1 + u)" using pu u0 by (intro mult_right_mono) simp_all
  also have "\<dots> = E * ((1 + u) * (1 + u))" by simp
  also have "\<dots> \<le> E * (1 + 3 * u)" using E0 by (intro mult_left_mono) (simp_all add: u_def)
  finally have up: "fp \<le> E + 3 * u * E" by (simp add: algebra_simps)
  have "E * ((1 - u) * (1 - u)) = (E * (1 - u)) * (1 - u)" by simp
  also have "\<dots> \<le> p * (1 - u)" using pl by (intro mult_right_mono) (simp_all add: u_def)
  also have "\<dots> \<le> fp" using fpe by (simp add: algebra_simps abs_le_iff)
  finally have "E * ((1 - u) * (1 - u)) \<le> fp" .
  moreover have "E * (1 - 2 * u) \<le> E * ((1 - u) * (1 - u))"
    using E0 by (intro mult_left_mono) (simp_all add: u_def)
  ultimately have lo: "E - 2 * u * E \<le> fp" by (simp add: algebra_simps)
  have fp0: "0 \<le> fp" unfolding fp_def using p0 by (rule float64_nonneg)
  have xd: "x * d = k * n + rm" by (simp add: k_def rm_def)
  have rm: "0 \<le> rm" "rm \<le> n - 1" using n by (simp_all add: rm_def)
  have nr: "(0::rat) < of_int n" using n by simp
  have En: "E * of_int n = of_int (x * d)" using n by (simp add: E_def r0_def)
  have "x * d \<le> (n - 1) * d" using x d by (intro mult_right_mono) simp_all
  then have xd51: "x * d < 2 ^ 51" using dn d by (simp add: algebra_simps)
  then have "(of_int (x * d) :: rat) < of_int (2 ^ 51)" by (simp only: of_int_less_iff)
  then have En51: "E * of_int n < 2 ^ 51" using En by simp
  have Ek: "E = of_int k + of_int rm / of_int n"
  proof -
    have "(of_int (x * d) :: rat) = of_int (k * n + rm)" by (simp only: xd)
    then have "E * of_int n = of_int k * of_int n + of_int rm" using En by simp
    then show ?thesis using nr by (simp add: field_simps)
  qed
  have "3 * u * E * of_int n = 3 * u * (E * of_int n)" by simp
  also have "\<dots> < 3 * u * 2 ^ 51" using En51 by (simp add: u_def)
  also have "\<dots> \<le> 1" by (simp add: u_def)
  finally have "3 * u * E * of_int n < 1" .
  then have e3: "3 * u * E < 1 / of_int n" using nr by (simp add: field_simps)
  have "of_int rm / of_int n + 1 / of_int n = (of_int (rm + 1) :: rat) / of_int n"
    by (simp add: add_divide_distrib)
  also have "\<dots> \<le> of_int n / of_int n"
    using rm nr by (intro divide_right_mono) simp_all
  finally have "of_int rm / of_int n + 1 / of_int n \<le> (1::rat)" using nr by simp
  with up e3 Ek have fk: "fp < of_int k + 1" by linarith
  have "1 * E \<le> of_int n * E" using E0 n by (intro mult_right_mono) simp_all
  then have "E < 2 ^ 51" using En51 by (simp add: mult.commute)
  then have "2 * u * E < 1" by (simp add: u_def)
  moreover have "0 \<le> of_int rm / (of_int n :: rat)" using rm nr by simp
  ultimately have kf: "of_int k - 1 < fp" using lo Ek by linarith
  have f1: "\<lfloor>fp\<rfloor> \<le> k" using fk by (simp add: floor_le_iff)
  have f2: "k - 1 \<le> \<lfloor>fp\<rfloor>" using kf by (simp add: le_floor_iff)
  have f0: "0 \<le> \<lfloor>fp\<rfloor>" using fp0 by simp
  have "k * n \<le> x * d" using rm by (simp add: xd)
  also have "\<dots> < d * n" using x d by (simp add: mult.commute)
  finally have kd: "k < d" using n by simp
  have "int_de_float fp = wrap64 \<lfloor>fp\<rfloor>" using fp0 by (simp add: int_de_float_def)
  also have "\<dots> = \<lfloor>fp\<rfloor>"
  proof (rule wrap64_id)
    have "\<lfloor>fp\<rfloor> < 2 ^ 51" using f1 kd d51 by linarith
    moreover have "\<And>z::int. 0 \<le> z \<Longrightarrow> z < 2 ^ 51 \<Longrightarrow> is_int64 z"
      by (simp add: is_int64_def)
    ultimately show "is_int64 \<lfloor>fp\<rfloor>" using f0 by blast
  qed
  finally have i: "indice_fuente x (escala d n) = \<lfloor>fp\<rfloor>" by (simp add: idx)
  show "0 \<le> indice_fuente x (escala d n)" using f0 by (simp add: i)
  show "indice_fuente x (escala d n) < d" using f1 kd by (simp add: i)
  have "2 * u * E * of_int n = 2 * u * (E * of_int n)" by simp
  also have "\<dots> < 2 * u * 2 ^ 51" using En51 by (simp add: u_def)
  also have "\<dots> \<le> 1" by (simp add: u_def)
  finally have "2 * u * E * of_int n < 1" .
  then have e2: "2 * u * E < 1 / of_int n" using nr by (simp add: field_simps)
  have f3: "k \<le> \<lfloor>fp\<rfloor>" if "rm \<noteq> 0"
  proof -
    from that rm have "1 \<le> rm" by simp
    then have "(1::rat) \<le> of_int rm" by simp
    then have "1 / of_int n \<le> (of_int rm :: rat) / of_int n"
      using nr by (intro divide_right_mono) simp_all
    with lo e2 Ek have "of_int k < fp" by linarith
    then show ?thesis by (simp add: le_floor_iff)
  qed
  show "indice_fuente x (escala d n) = x * d div n
         \<or> x * d mod n = 0 \<and> indice_fuente x (escala d n) = x * d div n - 1"
    using f1 f2 f3 unfolding i k_def [symmetric] rm_def [symmetric] by (cases "rm = 0") auto
qed

text \<open>The two loops write every pixel of the destination once, with the sampled colour.\<close>

lemma escalarFila_pix:
  "Rect (escalarFila src sx sy dst y xs) = Rect dst
   \<and> (\<forall>p. Pix (escalarFila src sx sy dst y xs) p
            = (if fst p \<in> set xs \<and> snd p = y \<and> In_rect (fst p) y (Rect dst)
               then At src (int_add (X (RMin (Rect src))) (indice_fuente (fst p) sx))
                           (int_add (Y (RMin (Rect src))) (indice_fuente y sy))
               else Pix dst p))"
proof (induction xs arbitrary: dst)
  case Nil
  then show ?case by (simp add: escalarFila_def)
next
  case (Cons x xs)
  let ?c = "\<lambda>x. At src (int_add (X (RMin (Rect src))) (indice_fuente x sx))
                       (int_add (Y (RMin (Rect src))) (indice_fuente y sy))"
  have s: "escalarFila src sx sy dst y (x # xs)
             = escalarFila src sx sy (Set_px dst x y (?c x)) y xs"
    by (simp add: escalarFila_def)
  show ?case unfolding s using Cons.IH [of "Set_px dst x y (?c x)"]
    by (auto simp: Pix_Set_px)
qed

lemma escalarFilas_pix:
  "Rect (foldl (\<lambda>d y. escalarFila src sx sy d y xs) dst ys) = Rect dst
   \<and> (\<forall>p. Pix (foldl (\<lambda>d y. escalarFila src sx sy d y xs) dst ys) p
            = (if fst p \<in> set xs \<and> snd p \<in> set ys \<and> In_rect (fst p) (snd p) (Rect dst)
               then At src (int_add (X (RMin (Rect src))) (indice_fuente (fst p) sx))
                           (int_add (Y (RMin (Rect src))) (indice_fuente (snd p) sy))
               else Pix dst p))"
proof (induction ys arbitrary: dst)
  case Nil
  then show ?case by simp
next
  case (Cons y ys)
  show ?case
    using Cons.IH [of "escalarFila src sx sy dst y xs"] escalarFila_pix [of src sx sy dst y xs]
    by auto
qed

lemma escalarImagen_pixel:
  assumes "0 \<le> ancho" and "0 \<le> alto" and "4 * ancho * alto < 2 ^ 63"
    and "is_int64 ancho" and "is_int64 alto"
  shows "\<exists>dst. escalarImagen src ancho alto = Inr dst
           \<and> Rect dst = image_Rect 0 0 ancho alto
           \<and> (\<forall>x y. 0 \<le> x \<and> x < ancho \<and> 0 \<le> y \<and> y < alto \<longrightarrow>
                  At dst x y
                    = At src (int_add (X (RMin (Rect src)))
                                (indice_fuente x (escala (Dx (Rect src)) ancho)))
                             (int_add (Y (RMin (Rect src)))
                                (indice_fuente y (escala (Dy (Rect src)) alto))))"
proof -
  let ?r = "image_Rect 0 0 ancho alto"
  let ?v = "\<lparr>Rect = ?r, Pix = (\<lambda>p. RGBA 0 0 0 0)\<rparr>"
  let ?dst = "foldl (\<lambda>d y. escalarFila src (escala (Dx (Rect src)) ancho)
                                (escala (Dy (Rect src)) alto) d y [0..ancho - 1])
                     ?v [0..alto - 1]"
  have dx: "Dx ?r = ancho" "Dy ?r = alto"
    using assms by (simp_all add: Dx_def Dy_def image_Rect_def Pt_def int_sub_def wrap64_id)
  have n: "NewRGBA ?r = Inr ?v" using assms(1,2,3) unfolding NewRGBA_def dx by simp
  have e: "escalarImagen src ancho alto = Inr ?dst" by (simp add: escalarImagen_def n)
  note p = escalarFilas_pix [of src "escala (Dx (Rect src)) ancho" "escala (Dy (Rect src)) alto"
      "[0..ancho - 1]" ?v "[0..alto - 1]"]
  have r: "Rect ?dst = ?r" using p by simp
  have "At ?dst x y
          = At src (int_add (X (RMin (Rect src)))
                      (indice_fuente x (escala (Dx (Rect src)) ancho)))
                   (int_add (Y (RMin (Rect src)))
                      (indice_fuente y (escala (Dy (Rect src)) alto)))"
    if "0 \<le> x \<and> x < ancho \<and> 0 \<le> y \<and> y < alto" for x y
  proof -
    have i: "In_rect x y ?r" using that by (simp add: In_rect_def image_Rect_def Pt_def)
    have "At ?dst x y = Pix ?dst (x, y)" unfolding At_def r using i by simp
    also have "\<dots> = At src (int_add (X (RMin (Rect src)))
                      (indice_fuente x (escala (Dx (Rect src)) ancho)))
                   (int_add (Y (RMin (Rect src)))
                      (indice_fuente y (escala (Dy (Rect src)) alto)))"
      using p i that by simp
    finally show ?thesis .
  qed
  with e r show ?thesis by blast
qed

text \<open>The value of \<open>float64\<close> from its exponent and its rounded significand.\<close>

lemma exponente_eq:
  assumes "0 < q" and "pot2 e \<le> q" and "q < pot2 (e + 1)"
  shows "exponente q = e"
proof (rule ccontr)
  assume n: "exponente q \<noteq> e"
  note c = exponente_cota [OF assms(1)]
  show False
  proof (cases "exponente q < e")
    case True
    then have "pot2 (exponente q + 1) \<le> pot2 e" by (intro pot2_mono) simp
    with c(2) assms(2) show False by linarith
  next
    case False
    with n have "pot2 (e + 1) \<le> pot2 (exponente q)" by (intro pot2_mono) simp
    with c(1) assms(3) show False by linarith
  qed
qed

lemma redondeo_par_eq:
  assumes "of_int z - 1 / 2 < q" and "q < of_int z + 1 / 2"
  shows "redondeo_par q = z"
proof -
  have "\<bar>(of_int (redondeo_par q) :: rat) - of_int z\<bar> < 1"
    using redondeo_par_cota [of q] assms by linarith
  then have "\<bar>(of_int (redondeo_par q - z) :: rat)\<bar> < of_int 1" by simp
  then have "\<bar>redondeo_par q - z\<bar> < 1" unfolding of_int_abs [symmetric] of_int_less_iff .
  then show ?thesis by simp
qed

lemma float64_eq:
  assumes "0 < q" and "pot2 e \<le> q" and "q < pot2 (e + 1)"
    and "of_int z - 1 / 2 < q / pot2 (e - 52)" and "q / pot2 (e - 52) < of_int z + 1 / 2"
  shows "float64 q = of_int z * pot2 (e - 52)"
  using float64_positivo [OF assms(1)] exponente_eq [OF assms(1,2,3)]
    redondeo_par_eq [OF assms(4,5)] by simp

lemma escala_2_98: "escala 2 98 = 5882252574524729 / 2 ^ 58"
proof -
  have "float64 (2 / 98) = of_int 5882252574524729 * pot2 (- 6 - 52)"
    by (rule float64_eq) (simp_all add: pot2_def)
  moreover have "float64 (of_int 2) = of_int 2" "float64 (of_int 98) = of_int 98"
    by (rule float64_entero; simp)+
  ultimately show ?thesis by (simp add: escala_def pot2_def)
qed

lemma int_de_float_fraccion:
  assumes "0 \<le> f" and "f < 1"
  shows "int_de_float f = 0"
proof -
  have "\<lfloor>f\<rfloor> = 0" using assms by (intro floor_unique) simp_all
  then show ?thesis using assms(1) by (simp add: int_de_float_def wrap64_def)
qed

lemma indice_49: "indice_fuente 49 (escala 2 98) = 0"
proof -
  have f: "float64 (49 * (5882252574524729 / 2 ^ 58))
             = of_int 9007199254740991 * pot2 (- 1 - 52)"
    by (rule float64_eq) (simp_all add: pot2_def)
  have e: "float64 (of_int 49) = of_int 49" by (rule float64_entero; simp)
  have "indice_fuente 49 (escala 2 98)
          = int_de_float (float64 (49 * (5882252574524729 / 2 ^ 58)))"
    using e unfolding indice_fuente_def escala_2_98 by simp
  also have "\<dots> = 0" unfolding f by (rule int_de_float_fraccion) (simp_all add: pot2_def)
  finally show ?thesis .
qed

lemma dos_columnas_coordenadas:
  "X (RMin (Rect dos_columnas)) = 0" "Y (RMin (Rect dos_columnas)) = 0"
  "X (RMax (Rect dos_columnas)) = 2" "Y (RMax (Rect dos_columnas)) = 1"
  "Dx (Rect dos_columnas) = 2" "Dy (Rect dos_columnas) = 1"
  by (simp_all add: dos_columnas_def image_Rect_def Pt_def Dx_def Dy_def int_sub_def wrap64_def)

text \<open>
  Claim C9, as amended. For a source image that is not empty and positive targets
  \<open>ancho\<close> and \<open>alto\<close>, where the canvas can be allocated and the products of the source
  width by \<open>ancho\<close> and of the source height by \<open>alto\<close> are below \<open>2^51\<close>,
  \<open>escalarImagen\<close> returns an image with the rectangle from \<open>(0, 0)\<close> to
  \<open>(ancho, alto)\<close>. Each of its pixels \<open>(x, y)\<close> holds the source pixel at the indices
  \<open>int(float64(x) * scaleX)\<close> and \<open>int(float64(y) * scaleY)\<close> from the source origin; this
  pixel lies in the source, and each index is the floor of \<open>x * srcW / ancho\<close> (of
  \<open>y * srcH / alto\<close>), or one less than it where the division is exact. Hence a source of
  one colour everywhere gives a destination of that colour everywhere.
\<close>

theorem escalarImagen_vecino:
  assumes "0 < ancho" and "0 < alto" and "4 * ancho * alto < 2 ^ 63"
    and "is_int64 (X (RMin (Rect src)))" and "is_int64 (Y (RMin (Rect src)))"
    and mx: "is_int64 (X (RMax (Rect src)))" and my: "is_int64 (Y (RMax (Rect src)))"
    and "X (RMin (Rect src)) < X (RMax (Rect src))"
    and "Y (RMin (Rect src)) < Y (RMax (Rect src))"
    and "(X (RMax (Rect src)) - X (RMin (Rect src))) * ancho < 2 ^ 51"
    and "(Y (RMax (Rect src)) - Y (RMin (Rect src))) * alto < 2 ^ 51"
  shows "\<exists>dst. escalarImagen src ancho alto = Inr dst
           \<and> Rect dst = image_Rect 0 0 ancho alto
           \<and> (\<forall>x y. 0 \<le> x \<and> x < ancho \<and> 0 \<le> y \<and> y < alto \<longrightarrow>
                  At dst x y
                    = Pix src (X (RMin (Rect src)) + indice_fuente x (escala (Dx (Rect src)) ancho),
                               Y (RMin (Rect src)) + indice_fuente y (escala (Dy (Rect src)) alto))
                  \<and> In_rect (X (RMin (Rect src)) + indice_fuente x (escala (Dx (Rect src)) ancho))
                             (Y (RMin (Rect src)) + indice_fuente y (escala (Dy (Rect src)) alto))
                             (Rect src)
                  \<and> (indice_fuente x (escala (Dx (Rect src)) ancho) = x * Dx (Rect src) div ancho
                      \<or> x * Dx (Rect src) mod ancho = 0
                        \<and> indice_fuente x (escala (Dx (Rect src)) ancho)
                            = x * Dx (Rect src) div ancho - 1)
                  \<and> (indice_fuente y (escala (Dy (Rect src)) alto) = y * Dy (Rect src) div alto
                      \<or> y * Dy (Rect src) mod alto = 0
                        \<and> indice_fuente y (escala (Dy (Rect src)) alto)
                            = y * Dy (Rect src) div alto - 1))
           \<and> (\<forall>c. (\<forall>x y. In_rect x y (Rect src) \<longrightarrow> At src x y = c)
                  \<longrightarrow> (\<forall>x y. 0 \<le> x \<and> x < ancho \<and> 0 \<le> y \<and> y < alto \<longrightarrow> At dst x y = c))"
proof -
  let ?x0 = "X (RMin (Rect src))" and ?y0 = "Y (RMin (Rect src))"
  let ?d = "X (RMax (Rect src)) - ?x0" and ?e = "Y (RMax (Rect src)) - ?y0"
  have chico: "\<And>z::int. 0 \<le> z \<Longrightarrow> z < 2 ^ 51 \<Longrightarrow> is_int64 z"
    by (simp add: is_int64_def)
  have d0: "0 < ?d" and e0: "0 < ?e" using assms(8,9) by simp_all
  have "?d * 1 \<le> ?d * ancho" using d0 assms(1) by (intro mult_left_mono) simp_all
  then have d51: "?d < 2 ^ 51" using assms(10) by simp
  have "?e * 1 \<le> ?e * alto" using e0 assms(2) by (intro mult_left_mono) simp_all
  then have e51: "?e < 2 ^ 51" using assms(11) by simp
  have "1 * ancho \<le> ?d * ancho" using d0 assms(1) by (intro mult_right_mono) simp_all
  then have a51: "ancho < 2 ^ 51" using assms(10) by simp
  have "1 * alto \<le> ?e * alto" using e0 assms(2) by (intro mult_right_mono) simp_all
  then have l51: "alto < 2 ^ 51" using assms(11) by simp
  have ia: "is_int64 ancho" using assms(1) a51 by (intro chico) simp_all
  have il: "is_int64 alto" using assms(2) l51 by (intro chico) simp_all
  have dx: "Dx (Rect src) = ?d" unfolding Dx_def using d0 d51
    by (intro int_sub_exacto chico) simp_all
  have dy: "Dy (Rect src) = ?e" unfolding Dy_def using e0 e51
    by (intro int_sub_exacto chico) simp_all
  from escalarImagen_pixel [of ancho alto src] assms(1,2,3) ia il
  obtain dst where r: "escalarImagen src ancho alto = Inr dst"
    and rd: "Rect dst = image_Rect 0 0 ancho alto"
    and px: "\<And>x y. 0 \<le> x \<and> x < ancho \<and> 0 \<le> y \<and> y < alto \<Longrightarrow>
                  At dst x y
                    = At src (int_add ?x0 (indice_fuente x (escala (Dx (Rect src)) ancho)))
                             (int_add ?y0 (indice_fuente y (escala (Dy (Rect src)) alto)))"
    by force
  have main: "At dst x y
                = Pix src (?x0 + indice_fuente x (escala (Dx (Rect src)) ancho),
                           ?y0 + indice_fuente y (escala (Dy (Rect src)) alto))
              \<and> In_rect (?x0 + indice_fuente x (escala (Dx (Rect src)) ancho))
                         (?y0 + indice_fuente y (escala (Dy (Rect src)) alto)) (Rect src)
              \<and> (indice_fuente x (escala (Dx (Rect src)) ancho) = x * Dx (Rect src) div ancho
                  \<or> x * Dx (Rect src) mod ancho = 0
                    \<and> indice_fuente x (escala (Dx (Rect src)) ancho)
                        = x * Dx (Rect src) div ancho - 1)
              \<and> (indice_fuente y (escala (Dy (Rect src)) alto) = y * Dy (Rect src) div alto
                  \<or> y * Dy (Rect src) mod alto = 0
                    \<and> indice_fuente y (escala (Dy (Rect src)) alto)
                        = y * Dy (Rect src) div alto - 1)"
    if h: "0 \<le> x \<and> x < ancho \<and> 0 \<le> y \<and> y < alto" for x y
  proof -
    let ?ix = "indice_fuente x (escala ?d ancho)" and ?iy = "indice_fuente y (escala ?e alto)"
    from h have hx: "0 \<le> x" "x < ancho" and hy: "0 \<le> y" "y < alto" by simp_all
    note cx = indice_fuente_cota [OF d0 assms(1) hx assms(10)]
    note cy = indice_fuente_cota [OF e0 assms(2) hy assms(11)]
    have "?x0 \<le> ?x0 + ?ix" "?x0 + ?ix < X (RMax (Rect src))" using cx(1,2) by simp_all
    moreover have "?y0 \<le> ?y0 + ?iy" "?y0 + ?iy < Y (RMax (Rect src))" using cy(1,2) by simp_all
    ultimately have i: "In_rect (?x0 + ?ix) (?y0 + ?iy) (Rect src)" by (simp add: In_rect_def)
    have "- (2 ^ 63) \<le> ?x0 + ?ix \<and> ?x0 + ?ix < 2 ^ 63"
      using assms(4) mx cx(1,2) unfolding is_int64_def by linarith
    then have sx: "int_add ?x0 ?ix = ?x0 + ?ix" by (intro int_add_exacto) (simp add: is_int64_def)
    have "- (2 ^ 63) \<le> ?y0 + ?iy \<and> ?y0 + ?iy < 2 ^ 63"
      using assms(5) my cy(1,2) unfolding is_int64_def by linarith
    then have sy: "int_add ?y0 ?iy = ?y0 + ?iy" by (intro int_add_exacto) (simp add: is_int64_def)
    have "At dst x y = At src (?x0 + ?ix) (?y0 + ?iy)" using px [OF h] by (simp add: dx dy sx sy)
    also have "\<dots> = Pix src (?x0 + ?ix, ?y0 + ?iy)" using i by (simp add: At_def)
    finally show ?thesis using i cx(3) cy(3) unfolding dx dy by blast
  qed
  have solid: "At dst x y = c"
    if s: "\<forall>x y. In_rect x y (Rect src) \<longrightarrow> At src x y = c"
      and h: "0 \<le> x \<and> x < ancho \<and> 0 \<le> y \<and> y < alto" for c x y
  proof -
    let ?px = "?x0 + indice_fuente x (escala (Dx (Rect src)) ancho)"
    let ?py = "?y0 + indice_fuente y (escala (Dy (Rect src)) alto)"
    from main [OF h] have a: "At dst x y = Pix src (?px, ?py)"
      and i: "In_rect ?px ?py (Rect src)" by blast+
    from s i have "At src ?px ?py = c" by blast
    then show ?thesis using a i by (simp add: At_def)
  qed
  from r rd main solid show ?thesis by blast
qed

theorem escalarImagen_vecino_witness:
  "(0::int) < 98 \<and> (0::int) < 1 \<and> 4 * 98 * 1 < (2::int) ^ 63
   \<and> is_int64 (X (RMin (Rect dos_columnas))) \<and> is_int64 (Y (RMin (Rect dos_columnas)))
   \<and> is_int64 (X (RMax (Rect dos_columnas))) \<and> is_int64 (Y (RMax (Rect dos_columnas)))
   \<and> X (RMin (Rect dos_columnas)) < X (RMax (Rect dos_columnas))
   \<and> Y (RMin (Rect dos_columnas)) < Y (RMax (Rect dos_columnas))
   \<and> (X (RMax (Rect dos_columnas)) - X (RMin (Rect dos_columnas))) * 98 < 2 ^ 51
   \<and> (Y (RMax (Rect dos_columnas)) - Y (RMin (Rect dos_columnas))) * 1 < 2 ^ 51
   \<and> (\<exists>dst. escalarImagen dos_columnas 98 1 = Inr dst
          \<and> Rect dst = image_Rect 0 0 98 1
          \<and> At dst 0 0 = RGBA 0 0 0 255
          \<and> At dst 97 0 = RGBA 255 255 255 255)"
proof -
  note c = dos_columnas_coordenadas
  have h: "(0::int) < 98" "(0::int) < 1" "4 * 98 * 1 < (2::int) ^ 63"
    "is_int64 (X (RMin (Rect dos_columnas)))" "is_int64 (Y (RMin (Rect dos_columnas)))"
    "is_int64 (X (RMax (Rect dos_columnas)))" "is_int64 (Y (RMax (Rect dos_columnas)))"
    "X (RMin (Rect dos_columnas)) < X (RMax (Rect dos_columnas))"
    "Y (RMin (Rect dos_columnas)) < Y (RMax (Rect dos_columnas))"
    "(X (RMax (Rect dos_columnas)) - X (RMin (Rect dos_columnas))) * 98 < 2 ^ 51"
    "(Y (RMax (Rect dos_columnas)) - Y (RMin (Rect dos_columnas))) * 1 < 2 ^ 51"
    by (simp_all add: c is_int64_def)
  let ?ix = "\<lambda>x. indice_fuente x (escala (Dx (Rect dos_columnas)) 98)"
  let ?iy = "\<lambda>y. indice_fuente y (escala (Dy (Rect dos_columnas)) 1)"
  from escalarImagen_vecino [OF h]
  obtain dst where r: "escalarImagen dos_columnas 98 1 = Inr dst"
    and rd: "Rect dst = image_Rect 0 0 98 1"
    and px: "\<forall>x y. 0 \<le> x \<and> x < 98 \<and> 0 \<le> y \<and> y < 1 \<longrightarrow>
               At dst x y
                 = Pix dos_columnas (X (RMin (Rect dos_columnas)) + ?ix x,
                                     Y (RMin (Rect dos_columnas)) + ?iy y)
               \<and> In_rect (X (RMin (Rect dos_columnas)) + ?ix x)
                          (Y (RMin (Rect dos_columnas)) + ?iy y) (Rect dos_columnas)
               \<and> (?ix x = x * Dx (Rect dos_columnas) div 98
                   \<or> x * Dx (Rect dos_columnas) mod 98 = 0
                     \<and> ?ix x = x * Dx (Rect dos_columnas) div 98 - 1)
               \<and> (?iy y = y * Dy (Rect dos_columnas) div 1
                   \<or> y * Dy (Rect dos_columnas) mod 1 = 0
                     \<and> ?iy y = y * Dy (Rect dos_columnas) div 1 - 1)"
    by blast
  have "(0::int) \<le> 0 \<and> (0::int) < 98 \<and> (0::int) \<le> 0 \<and> (0::int) < 1" by simp
  with px have p0: "At dst 0 0 = Pix dos_columnas (0 + ?ix 0, 0 + ?iy 0)"
    and i0: "In_rect (0 + ?ix 0) (0 + ?iy 0) (Rect dos_columnas)"
    and x0: "?ix 0 = 0 * 2 div 98 \<or> 0 * 2 mod 98 = (0::int) \<and> ?ix 0 = 0 * 2 div 98 - 1"
    unfolding c by blast+
  from i0 have "0 \<le> ?ix 0" by (simp add: In_rect_def c)
  with x0 have "?ix 0 = 0" by simp
  then have a: "At dst 0 0 = RGBA 0 0 0 255" unfolding p0 by (simp add: dos_columnas_def)
  have "(0::int) \<le> 97 \<and> (97::int) < 98 \<and> (0::int) \<le> 0 \<and> (0::int) < 1" by simp
  with px have p1: "At dst 97 0 = Pix dos_columnas (0 + ?ix 97, 0 + ?iy 0)"
    and x1: "?ix 97 = 97 * 2 div 98 \<or> 97 * 2 mod 98 = (0::int) \<and> ?ix 97 = 97 * 2 div 98 - 1"
    unfolding c by blast+
  from x1 have "?ix 97 = 1" by simp
  then have b: "At dst 97 0 = RGBA 255 255 255 255" unfolding p1 by (simp add: dos_columnas_def)
  from h r rd a b show ?thesis by blast
qed

text \<open>
  Claim C9 as stated fails where the binary64 product falls below an exact quotient:
  for a source of two columns and a target width of 98, \<open>float64(2) / float64(98)\<close> is
  rounded down, \<open>float64(49)\<close> times it is \<open>1 - 2^-53\<close>, and the pixel 49 holds the source
  column 0 (black), not the column \<open>floor(49 * 2 / 98) = 1\<close> (white).
\<close>

theorem escalarImagen_columna_anterior:
  "Dx (Rect dos_columnas) = 2 \<and> Dy (Rect dos_columnas) = 1
   \<and> map_sum id (\<lambda>dst. At dst 49 0) (escalarImagen dos_columnas 98 1) = Inr (RGBA 0 0 0 255)
   \<and> At dos_columnas \<lfloor>(49::rat) * 2 / 98\<rfloor> \<lfloor>(0::rat) * 1 / 1\<rfloor> = RGBA 255 255 255 255"
proof -
  note c = dos_columnas_coordenadas
  have iy: "indice_fuente 0 (escala 1 1) = 0"
    by (simp add: indice_fuente_def float64_def int_de_float_def wrap64_def)
  have "(0::int) \<le> 98" "(0::int) \<le> 1" "4 * 98 * 1 < (2::int) ^ 63" "is_int64 98" "is_int64 1"
    by (simp_all add: is_int64_def)
  from escalarImagen_pixel [OF this, of dos_columnas]
  obtain dst where r: "escalarImagen dos_columnas 98 1 = Inr dst"
    and px: "\<forall>x y. 0 \<le> x \<and> x < 98 \<and> 0 \<le> y \<and> y < 1 \<longrightarrow>
               At dst x y
                 = At dos_columnas
                     (int_add (X (RMin (Rect dos_columnas)))
                        (indice_fuente x (escala (Dx (Rect dos_columnas)) 98)))
                     (int_add (Y (RMin (Rect dos_columnas)))
                        (indice_fuente y (escala (Dy (Rect dos_columnas)) 1)))"
    by blast
  have "(0::int) \<le> 49 \<and> (49::int) < 98 \<and> (0::int) \<le> 0 \<and> (0::int) < 1" by simp
  with px have "At dst 49 0
                  = At dos_columnas (int_add 0 (indice_fuente 49 (escala 2 98)))
                                    (int_add 0 (indice_fuente 0 (escala 1 1)))"
    unfolding c by blast
  then have "At dst 49 0 = At dos_columnas 0 0"
    unfolding indice_49 iy by (simp add: int_add_def wrap64_def)
  also have "\<dots> = RGBA 0 0 0 255"
    by (simp add: At_def In_rect_def c) (simp add: dos_columnas_def)
  finally have a: "At dst 49 0 = RGBA 0 0 0 255" .
  have "\<lfloor>(49::rat) * 2 / 98\<rfloor> = 1" "\<lfloor>(0::rat) * 1 / 1\<rfloor> = 0" by simp_all
  then have "At dos_columnas \<lfloor>(49::rat) * 2 / 98\<rfloor> \<lfloor>(0::rat) * 1 / 1\<rfloor>
               = At dos_columnas 1 0"
    by (simp only:)
  also have "\<dots> = RGBA 255 255 255 255"
    by (simp add: At_def In_rect_def c) (simp add: dos_columnas_def)
  finally show ?thesis using r a c(5,6) by simp
qed

end
